(* ===== verification/Fdk_Prelude.thy ===== *)
theory Fdk_Prelude
  imports Main "HOL-Library.Word" "HOL-Library.Multiset"
begin

unbundle bit_operations_syntax

text \<open>
  Shared vocabulary of the development: the integer types of \<open>include/mtypes.h\<close>, byte
  buffers and the little-endian fields inside them, the lemma collections, and the list
  lemmas that carry the buffer proofs.

  A C buffer is a list of bytes. Storing into it is \<open>blit\<close>: a store that stays inside the
  buffer keeps its length, a store past its end makes the list longer. A lemma that a routine
  keeps the length of its buffer is therefore the statement that it never writes out of bounds.
\<close>

section \<open>Integer types\<close>

type_synonym u8 = "8 word"
type_synonym u16 = "16 word"
type_synonym u32 = "32 word"
type_synonym u64 = "64 word"

text \<open>
  Status codes, descriptors and \<open>ssize_t\<close> results are compared and returned, and the code does
  arithmetic on them only inside ranges far from the limits of \<open>int\<close>; they are integers here.
\<close>

type_synonym s32 = int

section \<open>Lemma collections\<close>

named_theorems layout "offsets and sizes of the packed wire structures"
named_theorems buf_simps "reading a byte buffer after a store"
named_theorems code_defs "definitions of the modelled operations, for unfolding a whole routine"

section \<open>Byte buffers\<close>

definition bytes_at :: "nat \<Rightarrow> nat \<Rightarrow> 'a list \<Rightarrow> 'a list" where
  "bytes_at off n xs = take n (drop off xs)"

definition blit :: "nat \<Rightarrow> 'a list \<Rightarrow> 'a list \<Rightarrow> 'a list" where
  "blit off bs xs = take off xs @ bs @ drop (off + length bs) xs"

lemma length_bytes_at [simp]: "length (bytes_at off n xs) = min n (length xs - off)"
  by (simp add: bytes_at_def min.commute)

lemma length_blit [simp]:
  "off + length bs \<le> length xs \<Longrightarrow> length (blit off bs xs) = length xs"
  by (simp add: blit_def)

lemma bytes_at_blit_same [buf_simps]:
  "off \<le> length xs \<Longrightarrow> n = length bs \<Longrightarrow> bytes_at off n (blit off bs xs) = bs"
  by (simp add: bytes_at_def blit_def)

lemma bytes_at_blit_before [buf_simps]:
  "p + n \<le> off \<Longrightarrow> off \<le> length xs \<Longrightarrow> bytes_at p n (blit off bs xs) = bytes_at p n xs"
  by (auto simp: bytes_at_def blit_def min_def drop_take)

lemma bytes_at_blit_after [buf_simps]:
  "off + length bs \<le> p \<Longrightarrow> off + length bs \<le> length xs \<Longrightarrow>
    bytes_at p n (blit off bs xs) = bytes_at p n xs"
  by (simp add: bytes_at_def blit_def)

lemma bytes_at_blit_within:
  "off \<le> p \<Longrightarrow> p + n \<le> off + length bs \<Longrightarrow> off \<le> length xs \<Longrightarrow>
    bytes_at p n (blit off bs xs) = bytes_at (p - off) n bs"
  by (simp add: bytes_at_def blit_def)

lemma bytes_at_bytes_at: "p + n \<le> m \<Longrightarrow> bytes_at p n (bytes_at off m xs) = bytes_at (off + p) n xs"
  by (simp add: bytes_at_def drop_take min_def add.commute)

lemma bytes_at_0: "bytes_at 0 n xs = take n xs"
  by (simp add: bytes_at_def)

lemma bytes_at_zero [simp]: "bytes_at off 0 xs = []"
  by (simp add: bytes_at_def)

lemma bytes_at_cong_take:
  "take m xs = take m ys \<Longrightarrow> off + n \<le> m \<Longrightarrow> bytes_at off n xs = bytes_at off n ys"
proof -
  assume eq: "take m xs = take m ys" and le: "off + n \<le> m"
  have "bytes_at off n zs = bytes_at off n (take m zs)" for zs :: "'a list"
    using le by (simp add: bytes_at_def drop_take min_def)
  then show ?thesis using eq by metis
qed

lemma take_blit_before:
  "n \<le> off \<Longrightarrow> off \<le> length xs \<Longrightarrow> take n (blit off bs xs) = take n xs"
  by (simp add: blit_def min_def)

lemma take_bytes_at_append:
  "p \<le> length xs \<Longrightarrow> take (p + n) xs = take p xs @ bytes_at p n xs"
  by (simp add: bytes_at_def take_add)

lemma take_split_bytes_at: "p \<le> n \<Longrightarrow> take n xs = take p xs @ bytes_at p (n - p) xs"
  by (simp add: bytes_at_def flip: take_add)

lemma blit_nil [simp]: "blit off [] xs = xs"
  by (simp add: blit_def)

lemma blit_full: "off = 0 \<Longrightarrow> length bs = length xs \<Longrightarrow> blit off bs xs = bs"
  by (simp add: blit_def)

section \<open>Little-endian fields\<close>

text \<open>
  The wire format is packed and little-endian, and the programs store host-order integers
  straight into it: the model is that of a little-endian host, which is what the protocol
  describes.
\<close>

fun le_nat :: "u8 list \<Rightarrow> nat" where
  "le_nat [] = 0"
| "le_nat (b # bs) = unat b + 256 * le_nat bs"

fun le_bytes :: "nat \<Rightarrow> nat \<Rightarrow> u8 list" where
  "le_bytes 0 v = []"
| "le_bytes (Suc n) v = word_of_nat v # le_bytes n (v div 256)"

lemma length_le_bytes [simp]: "length (le_bytes n v) = n"
  by (induction n arbitrary: v) auto

lemma le_nat_bound: "le_nat bs < 256 ^ length bs"
proof (induction bs)
  case Nil
  show ?case by simp
next
  case (Cons b bs)
  have "unat b < 256" using unsigned_less [of b, where ?'a = nat] by simp
  with Cons show ?case by simp
qed

lemma le_nat_le_bytes: "le_nat (le_bytes n v) = v mod 256 ^ n"
proof (induction n arbitrary: v)
  case 0
  show ?case by simp
next
  case (Suc n)
  have "le_nat (le_bytes (Suc n) v) = v mod 256 + 256 * (v div 256 mod 256 ^ n)"
    by (simp add: Suc unat_of_nat)
  also have "\<dots> = v mod (256 * 256 ^ n)"
    by (simp add: mod_mult2_eq)
  finally show ?case by simp
qed

lemma le_bytes_le_nat: "le_bytes (length bs) (le_nat bs) = bs"
proof (induction bs)
  case Nil
  show ?case by simp
next
  case (Cons b bs)
  have "unat b < 256" using unsigned_less [of b, where ?'a = nat] by simp
  then have "(unat b + 256 * le_nat bs) div 256 = le_nat bs"
    by simp
  moreover have "(256 :: u8) = 0" by simp
  then have "(word_of_nat (unat b + 256 * le_nat bs) :: u8) = b"
    by (simp only: of_nat_add of_nat_mult of_nat_numeral) simp
  ultimately show ?case using Cons by simp
qed

definition get_le :: "nat \<Rightarrow> nat \<Rightarrow> u8 list \<Rightarrow> nat" where
  "get_le n off buf = le_nat (bytes_at off n buf)"

definition get8 :: "nat \<Rightarrow> u8 list \<Rightarrow> u8" where
  "get8 off buf = word_of_nat (get_le 1 off buf)"

definition get16 :: "nat \<Rightarrow> u8 list \<Rightarrow> u16" where
  "get16 off buf = word_of_nat (get_le 2 off buf)"

definition get32 :: "nat \<Rightarrow> u8 list \<Rightarrow> u32" where
  "get32 off buf = word_of_nat (get_le 4 off buf)"

definition get64 :: "nat \<Rightarrow> u8 list \<Rightarrow> u64" where
  "get64 off buf = word_of_nat (get_le 8 off buf)"

definition put8 :: "nat \<Rightarrow> u8 \<Rightarrow> u8 list \<Rightarrow> u8 list" where
  "put8 off v buf = blit off (le_bytes 1 (unat v)) buf"

definition put16 :: "nat \<Rightarrow> u16 \<Rightarrow> u8 list \<Rightarrow> u8 list" where
  "put16 off v buf = blit off (le_bytes 2 (unat v)) buf"

definition put32 :: "nat \<Rightarrow> u32 \<Rightarrow> u8 list \<Rightarrow> u8 list" where
  "put32 off v buf = blit off (le_bytes 4 (unat v)) buf"

definition put64 :: "nat \<Rightarrow> u64 \<Rightarrow> u8 list \<Rightarrow> u8 list" where
  "put64 off v buf = blit off (le_bytes 8 (unat v)) buf"

lemmas get_defs = get8_def get16_def get32_def get64_def get_le_def
lemmas put_defs = put8_def put16_def put32_def put64_def

lemma length_puts [simp]:
  "off + 1 \<le> length buf \<Longrightarrow> length (put8 off v1 buf) = length buf"
  "off + 2 \<le> length buf \<Longrightarrow> length (put16 off v2 buf) = length buf"
  "off + 4 \<le> length buf \<Longrightarrow> length (put32 off v4 buf) = length buf"
  "off + 8 \<le> length buf \<Longrightarrow> length (put64 off v8 buf) = length buf"
  by (simp_all add: put_defs)

lemma unat_mod_width:
  "unat (v1 :: u8) mod 256 ^ 1 = unat v1" "unat (v2 :: u16) mod 256 ^ 2 = unat v2"
  "unat (v4 :: u32) mod 256 ^ 4 = unat v4" "unat (v8 :: u64) mod 256 ^ 8 = unat v8"
  using unsigned_less [of v1, where ?'a = nat] unsigned_less [of v2, where ?'a = nat]
    unsigned_less [of v4, where ?'a = nat] unsigned_less [of v8, where ?'a = nat]
  by simp_all

lemma get_put_same [buf_simps]:
  "off \<le> length buf \<Longrightarrow> get8 off (put8 off v1 buf) = v1"
  "off \<le> length buf \<Longrightarrow> get16 off (put16 off v2 buf) = v2"
  "off \<le> length buf \<Longrightarrow> get32 off (put32 off v4 buf) = v4"
  "off \<le> length buf \<Longrightarrow> get64 off (put64 off v8 buf) = v8"
  by (simp_all only: get_defs put_defs bytes_at_blit_same length_le_bytes le_nat_le_bytes
        unat_mod_width of_nat_unat ucast_id)

lemma get_frame [buf_simps]:
  "p + 1 \<le> off \<Longrightarrow> off \<le> length buf \<Longrightarrow> get8 p (blit off bs buf) = get8 p buf"
  "p + 2 \<le> off \<Longrightarrow> off \<le> length buf \<Longrightarrow> get16 p (blit off bs buf) = get16 p buf"
  "p + 4 \<le> off \<Longrightarrow> off \<le> length buf \<Longrightarrow> get32 p (blit off bs buf) = get32 p buf"
  "p + 8 \<le> off \<Longrightarrow> off \<le> length buf \<Longrightarrow> get64 p (blit off bs buf) = get64 p buf"
  "off + length bs \<le> p \<Longrightarrow> off + length bs \<le> length buf \<Longrightarrow> get8 p (blit off bs buf) = get8 p buf"
  "off + length bs \<le> p \<Longrightarrow> off + length bs \<le> length buf \<Longrightarrow> get16 p (blit off bs buf) = get16 p buf"
  "off + length bs \<le> p \<Longrightarrow> off + length bs \<le> length buf \<Longrightarrow> get32 p (blit off bs buf) = get32 p buf"
  "off + length bs \<le> p \<Longrightarrow> off + length bs \<le> length buf \<Longrightarrow> get64 p (blit off bs buf) = get64 p buf"
  by (simp_all add: get_defs bytes_at_blit_before bytes_at_blit_after)

lemma get_blit_le [buf_simps]:
  "off \<le> length buf \<Longrightarrow> get8 off (blit off (le_bytes 1 (unat v1)) buf) = v1"
  "off \<le> length buf \<Longrightarrow> get16 off (blit off (le_bytes 2 (unat v2)) buf) = v2"
  "off \<le> length buf \<Longrightarrow> get32 off (blit off (le_bytes 4 (unat v4)) buf) = v4"
  "off \<le> length buf \<Longrightarrow> get64 off (blit off (le_bytes 8 (unat v8)) buf) = v8"
  using get_put_same by (simp_all add: put_defs)

text \<open>Equal prefixes hold equal fields.\<close>

lemma get_cong_take:
  assumes "take m xs = take m ys"
  shows "p + 1 \<le> m \<Longrightarrow> get8 p xs = get8 p ys" "p + 2 \<le> m \<Longrightarrow> get16 p xs = get16 p ys"
    "p + 4 \<le> m \<Longrightarrow> get32 p xs = get32 p ys" "p + 8 \<le> m \<Longrightarrow> get64 p xs = get64 p ys"
  using bytes_at_cong_take [OF assms] by (simp_all add: get_defs)

lemma get_append:
  "p + 2 \<le> length xs \<Longrightarrow> get16 p (xs @ ys) = get16 p xs"
  "p + 4 \<le> length xs \<Longrightarrow> get32 p (xs @ ys) = get32 p xs"
  by (simp_all add: get_defs bytes_at_def)

lemma ucast_byte [simp]: "(ucast (ucast (b :: u8) :: u32) :: u8) = b"
  by (rule bit_word_eqI) (simp add: bit_simps)

section \<open>Lists\<close>

lemma sorted_wrt_mono_set:
  "sorted_wrt P xs \<Longrightarrow> (\<And>x y. x \<in> set xs \<Longrightarrow> y \<in> set xs \<Longrightarrow> P x y \<Longrightarrow> Q x y) \<Longrightarrow> sorted_wrt Q xs"
  by (induction xs) auto

end
