(* ===== verification/Packet_Format.thy ===== *)
theory Packet_Format
  imports Fdk_Prelude
begin

text \<open>
  The wire format of \<open>include/packet.h\<close>: operation codes, the packed layout of every packet,
  the header accessors, and the two record types carried by the listing responses.
\<close>

section \<open>Operation codes\<close>

datatype fdkOpCode_t =
    FDK_REQ_CONNECT | FDK_RSP_CONNECT
  | FDK_REQ_DISCONNECT | FDK_RSP_DISCONNECT
  | FDK_REQ_MEM_READ | FDK_RSP_MEM_READ
  | FDK_REQ_MEM_WRITE | FDK_RSP_MEM_WRITE
  | FDK_REQ_IO_READ | FDK_RSP_IO_READ
  | FDK_REQ_IO_WRITE | FDK_RSP_IO_WRITE
  | FDK_REQ_PCI_READ | FDK_RSP_PCI_READ
  | FDK_REQ_PCI_WRITE | FDK_RSP_PCI_WRITE
  | FDK_REQ_IDE_READ | FDK_RSP_IDE_READ
  | FDK_REQ_IDE_WRITE | FDK_RSP_IDE_WRITE
  | FDK_REQ_CMOS_READ | FDK_RSP_CMOS_READ
  | FDK_REQ_CMOS_WRITE | FDK_RSP_CMOS_WRITE
  | FDK_REQ_PCI_LIST | FDK_RSP_PCI_LIST
  | FDK_REQ_E820_LIST | FDK_RSP_E820_LIST
  | FDK_RSP_CPU_EXCEPTION | FDK_RSP_NACK

text \<open>The enumerators count from 1.\<close>

fun op_num :: "fdkOpCode_t \<Rightarrow> nat" where
  "op_num FDK_REQ_CONNECT = 1"
| "op_num FDK_RSP_CONNECT = 2"
| "op_num FDK_REQ_DISCONNECT = 3"
| "op_num FDK_RSP_DISCONNECT = 4"
| "op_num FDK_REQ_MEM_READ = 5"
| "op_num FDK_RSP_MEM_READ = 6"
| "op_num FDK_REQ_MEM_WRITE = 7"
| "op_num FDK_RSP_MEM_WRITE = 8"
| "op_num FDK_REQ_IO_READ = 9"
| "op_num FDK_RSP_IO_READ = 10"
| "op_num FDK_REQ_IO_WRITE = 11"
| "op_num FDK_RSP_IO_WRITE = 12"
| "op_num FDK_REQ_PCI_READ = 13"
| "op_num FDK_RSP_PCI_READ = 14"
| "op_num FDK_REQ_PCI_WRITE = 15"
| "op_num FDK_RSP_PCI_WRITE = 16"
| "op_num FDK_REQ_IDE_READ = 17"
| "op_num FDK_RSP_IDE_READ = 18"
| "op_num FDK_REQ_IDE_WRITE = 19"
| "op_num FDK_RSP_IDE_WRITE = 20"
| "op_num FDK_REQ_CMOS_READ = 21"
| "op_num FDK_RSP_CMOS_READ = 22"
| "op_num FDK_REQ_CMOS_WRITE = 23"
| "op_num FDK_RSP_CMOS_WRITE = 24"
| "op_num FDK_REQ_PCI_LIST = 25"
| "op_num FDK_RSP_PCI_LIST = 26"
| "op_num FDK_REQ_E820_LIST = 27"
| "op_num FDK_RSP_E820_LIST = 28"
| "op_num FDK_RSP_CPU_EXCEPTION = 29"
| "op_num FDK_RSP_NACK = 30"

definition op_list :: "fdkOpCode_t list" where
  "op_list = [FDK_REQ_CONNECT, FDK_RSP_CONNECT, FDK_REQ_DISCONNECT,
     FDK_RSP_DISCONNECT, FDK_REQ_MEM_READ, FDK_RSP_MEM_READ,
     FDK_REQ_MEM_WRITE, FDK_RSP_MEM_WRITE, FDK_REQ_IO_READ,
     FDK_RSP_IO_READ, FDK_REQ_IO_WRITE, FDK_RSP_IO_WRITE,
     FDK_REQ_PCI_READ, FDK_RSP_PCI_READ, FDK_REQ_PCI_WRITE,
     FDK_RSP_PCI_WRITE, FDK_REQ_IDE_READ, FDK_RSP_IDE_READ,
     FDK_REQ_IDE_WRITE, FDK_RSP_IDE_WRITE, FDK_REQ_CMOS_READ,
     FDK_RSP_CMOS_READ, FDK_REQ_CMOS_WRITE, FDK_RSP_CMOS_WRITE,
     FDK_REQ_PCI_LIST, FDK_RSP_PCI_LIST, FDK_REQ_E820_LIST,
     FDK_RSP_E820_LIST, FDK_RSP_CPU_EXCEPTION, FDK_RSP_NACK]"

lemma op_list_complete: "op \<in> set op_list"
  by (cases op) (simp_all add: op_list_def)

lemma op_num_bounds: "1 \<le> op_num op" "op_num op \<le> 30"
  by (cases op; simp)+

text \<open>The \<open>switch\<close> on a received 16-bit code: \<open>None\<close> is the \<open>default\<close> branch.\<close>

definition op_of_code :: "u16 \<Rightarrow> fdkOpCode_t option" where
  "op_of_code c = map_of (map (\<lambda>op. (op_num op, op)) op_list) (unat c)"

definition op_code :: "fdkOpCode_t \<Rightarrow> u16" where
  "op_code op = word_of_nat (op_num op)"

lemma unat_op_code [simp]: "unat (op_code op) = op_num op"
  using op_num_bounds [of op] by (simp add: op_code_def unat_of_nat)

lemma op_of_code_code [simp]: "op_of_code (op_code op) = Some op"
  unfolding op_of_code_def unat_op_code by (cases op) (simp_all add: op_list_def)

lemma op_num_inj: "op_num a = op_num b \<Longrightarrow> a = b"
  using op_of_code_code [of a] op_of_code_code [of b] by (simp add: op_code_def)

lemma op_of_code_Some: "op_of_code c = Some op \<Longrightarrow> c = op_code op"
proof -
  assume "op_of_code c = Some op"
  then have "(unat c, op) \<in> set (map (\<lambda>op. (op_num op, op)) op_list)"
    unfolding op_of_code_def by (rule map_of_SomeD)
  then have "unat c = op_num op" by auto
  then show ?thesis by (metis unat_op_code word_unat_eq_iff)
qed

text \<open>C compares enumerators as integers.\<close>

instantiation fdkOpCode_t :: linorder
begin

definition less_eq_fdkOpCode_t :: "fdkOpCode_t \<Rightarrow> fdkOpCode_t \<Rightarrow> bool" where
  "less_eq_fdkOpCode_t a b \<longleftrightarrow> op_num a \<le> op_num b"

definition less_fdkOpCode_t :: "fdkOpCode_t \<Rightarrow> fdkOpCode_t \<Rightarrow> bool" where
  "less_fdkOpCode_t a b \<longleftrightarrow> op_num a < op_num b"

instance
  by standard
    (auto simp: less_eq_fdkOpCode_t_def less_fdkOpCode_t_def intro: op_num_inj)

end

definition FDK_SUCCESS :: u16 where "FDK_SUCCESS = 0"

definition FDK_FAILURE :: u16 where "FDK_FAILURE = 1"

section \<open>Packed layouts\<close>

text \<open>A packed structure is the list of its members with their widths in bytes.\<close>

type_synonym layout = "(string \<times> nat) list"

fun offsetof :: "layout \<Rightarrow> string \<Rightarrow> nat" where
  "offsetof [] f = 0"
| "offsetof ((g, w) # r) f = (if f = g then 0 else w + offsetof r f)"

definition sizeof :: "layout \<Rightarrow> nat" where
  "sizeof l = sum_list (map snd l)"

definition FDK_MAXSZ_PKT :: nat where [simp]: "FDK_MAXSZ_PKT = 8192"

definition fdkCommHdr_t :: layout where
  "fdkCommHdr_t = [(''opCode'', 2), (''errorCode'', 2), (''pktLen'', 4)]"

definition fdkReqMemReadPkt_t :: layout where
  "fdkReqMemReadPkt_t = [(''fdkCommHdr'', 8), (''address'', 8), (''size'', 4)]"

definition fdkRspMemWritePkt_t :: layout where
  "fdkRspMemWritePkt_t = [(''fdkCommHdr'', 8), (''address'', 8), (''size'', 4)]"

definition fdkRspMemReadPkt_t :: layout where
  "fdkRspMemReadPkt_t = [(''fdkCommHdr'', 8), (''address'', 8), (''size'', 4), (''memContent'', 8)]"

definition fdkReqMemWritePkt_t :: layout where
  "fdkReqMemWritePkt_t = [(''fdkCommHdr'', 8), (''address'', 8), (''size'', 4), (''memContent'', 8)]"

definition fdkReqIoReadPkt_t :: layout where
  "fdkReqIoReadPkt_t = [(''fdkCommHdr'', 8), (''address'', 2), (''size'', 4)]"

definition fdkRspIoWritePkt_t :: layout where
  "fdkRspIoWritePkt_t = [(''fdkCommHdr'', 8), (''address'', 2), (''size'', 4)]"

definition fdkRspIoReadPkt_t :: layout where
  "fdkRspIoReadPkt_t = [(''fdkCommHdr'', 8), (''address'', 2), (''size'', 4), (''ioContent'', 8)]"

definition fdkReqIoWritePkt_t :: layout where
  "fdkReqIoWritePkt_t = [(''fdkCommHdr'', 8), (''address'', 2), (''size'', 4), (''ioContent'', 8)]"

definition fdkReqPciReadPkt_t :: layout where
  "fdkReqPciReadPkt_t = [(''fdkCommHdr'', 8), (''address'', 4), (''size'', 2)]"

definition fdkRspPciWritePkt_t :: layout where
  "fdkRspPciWritePkt_t = [(''fdkCommHdr'', 8), (''address'', 4), (''size'', 2)]"

definition fdkRspPciReadPkt_t :: layout where
  "fdkRspPciReadPkt_t = [(''fdkCommHdr'', 8), (''address'', 4), (''size'', 2), (''pciContent'', 8)]"

definition fdkReqPciWritePkt_t :: layout where
  "fdkReqPciWritePkt_t = [(''fdkCommHdr'', 8), (''address'', 4), (''size'', 2), (''pciContent'', 8)]"

definition fdkReqIdeReadPkt_t :: layout where
  "fdkReqIdeReadPkt_t = [(''fdkCommHdr'', 8), (''address'', 8), (''size'', 4)]"

definition fdkRspIdeWritePkt_t :: layout where
  "fdkRspIdeWritePkt_t = [(''fdkCommHdr'', 8), (''address'', 8), (''size'', 4)]"

definition fdkRspIdeReadPkt_t :: layout where
  "fdkRspIdeReadPkt_t = [(''fdkCommHdr'', 8), (''address'', 8), (''size'', 4), (''ideContent'', 8)]"

definition fdkReqIdeWritePkt_t :: layout where
  "fdkReqIdeWritePkt_t = [(''fdkCommHdr'', 8), (''address'', 8), (''size'', 4), (''ideContent'', 8)]"

definition fdkReqCmosReadPkt_t :: layout where
  "fdkReqCmosReadPkt_t = [(''fdkCommHdr'', 8), (''address'', 1), (''size'', 1)]"

definition fdkRspCmosWritePkt_t :: layout where
  "fdkRspCmosWritePkt_t = [(''fdkCommHdr'', 8), (''address'', 1), (''size'', 1)]"

definition fdkRspCmosReadPkt_t :: layout where
  "fdkRspCmosReadPkt_t = [(''fdkCommHdr'', 8), (''address'', 1), (''size'', 1), (''cmosContent'', 8)]"

definition fdkReqCmosWritePkt_t :: layout where
  "fdkReqCmosWritePkt_t = [(''fdkCommHdr'', 8), (''address'', 1), (''size'', 1), (''cmosContent'', 8)]"

definition fdkReqPciListPkt_t :: layout where
  "fdkReqPciListPkt_t = [(''fdkCommHdr'', 8)]"

definition fdkReqE820ListPkt_t :: layout where
  "fdkReqE820ListPkt_t = [(''fdkCommHdr'', 8)]"

definition fdkRspPciListPkt_t :: layout where
  "fdkRspPciListPkt_t = [(''fdkCommHdr'', 8), (''numOfPciDevice'', 4), (''pciListContent'', 8)]"

definition fdkRspE820ListPkt_t :: layout where
  "fdkRspE820ListPkt_t = [(''fdkCommHdr'', 8), (''numOfE820Record'', 4), (''e820ListContent'', 24)]"

definition fdkPciDev_layout :: layout where
  "fdkPciDev_layout = [(''bus'', 2), (''dev'', 1), (''fun'', 1), (''vendorId'', 2), (''deviceId'', 2)]"

definition fdkE820record_layout :: layout where
  "fdkE820record_layout = [(''baseAddr'', 8), (''length'', 8), (''type'', 4), (''attr'', 4)]"

definition FDK_PKT_LEN :: "layout \<Rightarrow> string \<Rightarrow> nat \<Rightarrow> nat" where
  "FDK_PKT_LEN t f payload = offsetof t f + payload"

definition FDK_PKT_MAX_PAYLOAD :: "layout \<Rightarrow> string \<Rightarrow> nat" where
  "FDK_PKT_MAX_PAYLOAD t f = FDK_MAXSZ_PKT - offsetof t f"

lemma sizeofs [layout]:
  "sizeof fdkCommHdr_t = 8"
  "sizeof fdkReqMemReadPkt_t = 20"
  "sizeof fdkRspMemWritePkt_t = 20"
  "sizeof fdkReqIoReadPkt_t = 14"
  "sizeof fdkRspIoWritePkt_t = 14"
  "sizeof fdkReqPciReadPkt_t = 14"
  "sizeof fdkRspPciWritePkt_t = 14"
  "sizeof fdkReqIdeReadPkt_t = 20"
  "sizeof fdkRspIdeWritePkt_t = 20"
  "sizeof fdkReqCmosReadPkt_t = 10"
  "sizeof fdkRspCmosWritePkt_t = 10"
  "sizeof fdkReqPciListPkt_t = 8"
  "sizeof fdkReqE820ListPkt_t = 8"
  "sizeof fdkPciDev_layout = 8"
  "sizeof fdkE820record_layout = 24"
  by (simp_all add: sizeof_def fdkReqMemReadPkt_t_def fdkRspMemWritePkt_t_def fdkRspMemReadPkt_t_def fdkReqMemWritePkt_t_def
        fdkReqIoReadPkt_t_def fdkRspIoWritePkt_t_def fdkRspIoReadPkt_t_def fdkReqIoWritePkt_t_def
        fdkReqPciReadPkt_t_def fdkRspPciWritePkt_t_def fdkRspPciReadPkt_t_def fdkReqPciWritePkt_t_def
        fdkReqIdeReadPkt_t_def fdkRspIdeWritePkt_t_def fdkRspIdeReadPkt_t_def fdkReqIdeWritePkt_t_def
        fdkReqCmosReadPkt_t_def fdkRspCmosWritePkt_t_def fdkRspCmosReadPkt_t_def fdkReqCmosWritePkt_t_def
        fdkReqPciListPkt_t_def fdkReqE820ListPkt_t_def fdkRspPciListPkt_t_def fdkRspE820ListPkt_t_def
        fdkCommHdr_t_def fdkPciDev_layout_def fdkE820record_layout_def)

lemma offsetofs [layout]:
  "offsetof fdkCommHdr_t ''opCode'' = 0"
  "offsetof fdkCommHdr_t ''errorCode'' = 2"
  "offsetof fdkCommHdr_t ''pktLen'' = 4"
  "offsetof fdkReqMemReadPkt_t ''address'' = 8"
  "offsetof fdkReqMemReadPkt_t ''size'' = 16"
  "offsetof fdkRspMemWritePkt_t ''address'' = 8"
  "offsetof fdkRspMemWritePkt_t ''size'' = 16"
  "offsetof fdkRspMemReadPkt_t ''address'' = 8"
  "offsetof fdkRspMemReadPkt_t ''size'' = 16"
  "offsetof fdkRspMemReadPkt_t ''memContent'' = 20"
  "offsetof fdkReqMemWritePkt_t ''address'' = 8"
  "offsetof fdkReqMemWritePkt_t ''size'' = 16"
  "offsetof fdkReqMemWritePkt_t ''memContent'' = 20"
  "offsetof fdkReqIoReadPkt_t ''address'' = 8"
  "offsetof fdkReqIoReadPkt_t ''size'' = 10"
  "offsetof fdkRspIoWritePkt_t ''address'' = 8"
  "offsetof fdkRspIoWritePkt_t ''size'' = 10"
  "offsetof fdkRspIoReadPkt_t ''address'' = 8"
  "offsetof fdkRspIoReadPkt_t ''size'' = 10"
  "offsetof fdkRspIoReadPkt_t ''ioContent'' = 14"
  "offsetof fdkReqIoWritePkt_t ''address'' = 8"
  "offsetof fdkReqIoWritePkt_t ''size'' = 10"
  "offsetof fdkReqIoWritePkt_t ''ioContent'' = 14"
  "offsetof fdkReqPciReadPkt_t ''address'' = 8"
  "offsetof fdkReqPciReadPkt_t ''size'' = 12"
  "offsetof fdkRspPciWritePkt_t ''address'' = 8"
  "offsetof fdkRspPciWritePkt_t ''size'' = 12"
  "offsetof fdkRspPciReadPkt_t ''address'' = 8"
  "offsetof fdkRspPciReadPkt_t ''size'' = 12"
  "offsetof fdkRspPciReadPkt_t ''pciContent'' = 14"
  "offsetof fdkReqPciWritePkt_t ''address'' = 8"
  "offsetof fdkReqPciWritePkt_t ''size'' = 12"
  "offsetof fdkReqPciWritePkt_t ''pciContent'' = 14"
  "offsetof fdkReqIdeReadPkt_t ''address'' = 8"
  "offsetof fdkReqIdeReadPkt_t ''size'' = 16"
  "offsetof fdkRspIdeWritePkt_t ''address'' = 8"
  "offsetof fdkRspIdeWritePkt_t ''size'' = 16"
  "offsetof fdkRspIdeReadPkt_t ''address'' = 8"
  "offsetof fdkRspIdeReadPkt_t ''size'' = 16"
  "offsetof fdkRspIdeReadPkt_t ''ideContent'' = 20"
  "offsetof fdkReqIdeWritePkt_t ''address'' = 8"
  "offsetof fdkReqIdeWritePkt_t ''size'' = 16"
  "offsetof fdkReqIdeWritePkt_t ''ideContent'' = 20"
  "offsetof fdkReqCmosReadPkt_t ''address'' = 8"
  "offsetof fdkReqCmosReadPkt_t ''size'' = 9"
  "offsetof fdkRspCmosWritePkt_t ''address'' = 8"
  "offsetof fdkRspCmosWritePkt_t ''size'' = 9"
  "offsetof fdkRspCmosReadPkt_t ''address'' = 8"
  "offsetof fdkRspCmosReadPkt_t ''size'' = 9"
  "offsetof fdkRspCmosReadPkt_t ''cmosContent'' = 10"
  "offsetof fdkReqCmosWritePkt_t ''address'' = 8"
  "offsetof fdkReqCmosWritePkt_t ''size'' = 9"
  "offsetof fdkReqCmosWritePkt_t ''cmosContent'' = 10"
  "offsetof fdkRspPciListPkt_t ''numOfPciDevice'' = 8"
  "offsetof fdkRspPciListPkt_t ''pciListContent'' = 12"
  "offsetof fdkRspE820ListPkt_t ''numOfE820Record'' = 8"
  "offsetof fdkRspE820ListPkt_t ''e820ListContent'' = 12"
  by (simp_all add: fdkReqMemReadPkt_t_def fdkRspMemWritePkt_t_def fdkRspMemReadPkt_t_def fdkReqMemWritePkt_t_def
        fdkReqIoReadPkt_t_def fdkRspIoWritePkt_t_def fdkRspIoReadPkt_t_def fdkReqIoWritePkt_t_def
        fdkReqPciReadPkt_t_def fdkRspPciWritePkt_t_def fdkRspPciReadPkt_t_def fdkReqPciWritePkt_t_def
        fdkReqIdeReadPkt_t_def fdkRspIdeWritePkt_t_def fdkRspIdeReadPkt_t_def fdkReqIdeWritePkt_t_def
        fdkReqCmosReadPkt_t_def fdkRspCmosWritePkt_t_def fdkRspCmosReadPkt_t_def fdkReqCmosWritePkt_t_def
        fdkReqPciListPkt_t_def fdkReqE820ListPkt_t_def fdkRspPciListPkt_t_def fdkRspE820ListPkt_t_def
        fdkCommHdr_t_def fdkPciDev_layout_def fdkE820record_layout_def)

lemmas wire_sizes = FDK_PKT_LEN_def FDK_PKT_MAX_PAYLOAD_def FDK_MAXSZ_PKT_def

section \<open>The header\<close>

definition hdr_opCode :: "u8 list \<Rightarrow> u16" where
  "hdr_opCode pkt = get16 (offsetof fdkCommHdr_t ''opCode'') pkt"

definition hdr_errorCode :: "u8 list \<Rightarrow> u16" where
  "hdr_errorCode pkt = get16 (offsetof fdkCommHdr_t ''errorCode'') pkt"

definition hdr_pktLen :: "u8 list \<Rightarrow> u32" where
  "hdr_pktLen pkt = get32 (offsetof fdkCommHdr_t ''pktLen'') pkt"

lemmas hdr_defs = hdr_opCode_def hdr_errorCode_def hdr_pktLen_def

text \<open>The header is in the first eight bytes.\<close>

lemma hdr_cong_take:
  assumes "take m xs = take m ys" and "8 \<le> m"
  shows "hdr_opCode xs = hdr_opCode ys" "hdr_errorCode xs = hdr_errorCode ys"
    "hdr_pktLen xs = hdr_pktLen ys"
  using assms(2) get_cong_take [OF assms(1)] by (simp_all add: hdr_defs layout)

section \<open>Records of the listing responses\<close>

record fdkPciDev_t =
  pd_bus :: u16
  pd_dev :: u8
  pd_fun :: u8
  pd_vendorId :: u16
  pd_deviceId :: u16

record fdkE820record_t =
  er_baseAddr :: u64
  er_length :: u64
  er_type :: u32
  er_attr :: u32

text \<open>The bytes of a record in its packed structure, and the record stored at an offset.\<close>

definition pciDev_bytes :: "fdkPciDev_t \<Rightarrow> u8 list" where
  "pciDev_bytes d = le_bytes 2 (unat (pd_bus d)) @ le_bytes 1 (unat (pd_dev d)) @
     le_bytes 1 (unat (pd_fun d)) @ le_bytes 2 (unat (pd_vendorId d)) @
     le_bytes 2 (unat (pd_deviceId d))"

definition pciDev_at :: "nat \<Rightarrow> u8 list \<Rightarrow> fdkPciDev_t" where
  "pciDev_at off buf = \<lparr>pd_bus = get16 off buf, pd_dev = get8 (off + 2) buf,
     pd_fun = get8 (off + 3) buf, pd_vendorId = get16 (off + 4) buf,
     pd_deviceId = get16 (off + 6) buf\<rparr>"

definition e820_bytes :: "fdkE820record_t \<Rightarrow> u8 list" where
  "e820_bytes r = le_bytes 8 (unat (er_baseAddr r)) @ le_bytes 8 (unat (er_length r)) @
     le_bytes 4 (unat (er_type r)) @ le_bytes 4 (unat (er_attr r))"

definition e820_at :: "nat \<Rightarrow> u8 list \<Rightarrow> fdkE820record_t" where
  "e820_at off buf = \<lparr>er_baseAddr = get64 off buf, er_length = get64 (off + 8) buf,
     er_type = get32 (off + 16) buf, er_attr = get32 (off + 20) buf\<rparr>"

lemma length_record_bytes [simp]:
  "length (pciDev_bytes d) = 8" "length (e820_bytes r) = 24"
  by (simp_all add: pciDev_bytes_def e820_bytes_def)

lemma bytes_at_append_skip: "length as \<le> p \<Longrightarrow> bytes_at p n (as @ bs) = bytes_at (p - length as) n bs"
  by (simp add: bytes_at_def)

lemma bytes_at_append_here: "n = length bs \<Longrightarrow> bytes_at 0 n (bs @ cs) = bs"
  by (simp add: bytes_at_def)

lemma bytes_at_cells:
  "(\<And>x. x \<in> set xs \<Longrightarrow> length (f x) = w) \<Longrightarrow> j < length xs \<Longrightarrow>
    bytes_at (w * j) w (concat (map f xs) @ r) = f (xs ! j)"
proof (induction xs arbitrary: j)
  case Nil
  then show ?case by simp
next
  case (Cons x xs)
  show ?case
  proof (cases j)
    case 0
    then show ?thesis using Cons.prems by (simp add: bytes_at_def)
  next
    case (Suc k)
    then show ?thesis
      using Cons.prems Cons.IH [of k] by (simp add: bytes_at_append_skip)
  qed
qed

lemma word_of_le_bytes:
  "(word_of_nat (le_nat (le_bytes (Suc 0) (unat v1))) :: u8) = v1"
  "(word_of_nat (le_nat (le_bytes 2 (unat v2))) :: u16) = v2"
  "(word_of_nat (le_nat (le_bytes 4 (unat v4))) :: u32) = v4"
  "(word_of_nat (le_nat (le_bytes 8 (unat v8))) :: u64) = v8"
  using unat_mod_width(1) [of v1] unat_mod_width(2) [of v2] unat_mod_width(3) [of v4]
    unat_mod_width(4) [of v8]
  by (simp_all add: le_nat_le_bytes del: le_bytes.simps)

lemma pciDev_round_trip: "pciDev_at (length pre) (pre @ pciDev_bytes d @ post) = d"
  by (simp add: pciDev_at_def pciDev_bytes_def get_defs bytes_at_append_skip bytes_at_append_here
      word_of_le_bytes del: le_bytes.simps)

lemma e820_round_trip: "e820_at (length pre) (pre @ e820_bytes r @ post) = r"
  by (simp add: e820_at_def e820_bytes_def get_defs bytes_at_append_skip bytes_at_append_here
      word_of_le_bytes del: le_bytes.simps)

text \<open>A whole list of fixed-width records.\<close>

definition records_at :: "nat \<Rightarrow> (nat \<Rightarrow> u8 list \<Rightarrow> 'a) \<Rightarrow> nat \<Rightarrow> nat \<Rightarrow> u8 list \<Rightarrow> 'a list" where
  "records_at w at off n buf = map (\<lambda>i. at (off + w * i) buf) [0..<n]"

lemma records_round_trip:
  assumes "\<And>pre x post. at (length pre) (pre @ enc x @ post) = x" and "\<And>x. length (enc x) = w"
  shows "records_at w at (length pre) (length xs) (pre @ concat (map enc xs) @ post) = xs"
proof (rule nth_equalityI)
  show "length (records_at w at (length pre) (length xs) (pre @ concat (map enc xs) @ post)) = length xs"
    by (simp add: records_at_def)
next
  fix i assume "i < length (records_at w at (length pre) (length xs) (pre @ concat (map enc xs) @ post))"
  then have i: "i < length xs" by (simp add: records_at_def)
  have len: "length (concat (map enc ys)) = w * length ys" for ys
    by (induction ys) (simp_all add: assms(2))
  have "xs = take i xs @ xs ! i # drop (Suc i) xs"
    using i by (rule id_take_nth_drop)
  then have "concat (map enc xs) =
      concat (map enc (take i xs)) @ enc (xs ! i) @ concat (map enc (drop (Suc i) xs))"
    by (metis concat.simps(2) concat_append list.simps(9) map_append)
  moreover have "length pre + w * i = length (pre @ concat (map enc (take i xs)))"
    using i by (simp add: len)
  ultimately show "records_at w at (length pre) (length xs) (pre @ concat (map enc xs) @ post) ! i = xs ! i"
    using i assms(1) [of "pre @ concat (map enc (take i xs))" "xs ! i"]
    by (simp add: records_at_def)
qed

end
