(* ===== verification/Packet_Union.thy ===== *)
theory Packet_Union
  imports Packet_Format
begin

text \<open>
  The rest of \<open>include/packet.h\<close>: the capability flags, the CPU exception packet, and the union of all
  packets that the buffers of the programs are read through. Neither the flags nor the exception packet
  is used by the programs; the union is why the header can be read before the kind of packet is known.
\<close>

section \<open>Capability flags\<close>

datatype fdkCapability =
    FDK_CAP_MEM | FDK_CAP_IO | FDK_CAP_PCI | FDK_CAP_IDE | FDK_CAP_E820 | FDK_CAP_I2C | FDK_CAP_MSR
  | FDK_CAP_ACPI | FDK_CAP_SFI | FDK_CAP_GPIO | FDK_CAP_SMBIOS | FDK_CAP_SIO | FDK_CAP_SPD

fun cap_bits :: "fdkCapability \<Rightarrow> u32" where
  "cap_bits FDK_CAP_MEM = 0x00000001"
| "cap_bits FDK_CAP_IO = 0x00000002"
| "cap_bits FDK_CAP_PCI = 0x00000004"
| "cap_bits FDK_CAP_IDE = 0x00000008"
| "cap_bits FDK_CAP_E820 = 0x00000010"
| "cap_bits FDK_CAP_I2C = 0x00000020"
| "cap_bits FDK_CAP_MSR = 0x00000040"
| "cap_bits FDK_CAP_ACPI = 0x00000080"
| "cap_bits FDK_CAP_SFI = 0x00000100"
| "cap_bits FDK_CAP_GPIO = 0x00000200"
| "cap_bits FDK_CAP_SMBIOS = 0x00000400"
| "cap_bits FDK_CAP_SIO = 0x00000800"
| "cap_bits FDK_CAP_SPD = 0x00001000"

text \<open>The flags are independent: a mask made of some of them tests positive for those and no other.\<close>

lemma cap_disjoint: "cap_bits a AND cap_bits b \<noteq> 0 \<longleftrightarrow> a = b"
  by (cases a; cases b; simp)

lemma cap_mask: "foldr (\<lambda>c m. cap_bits c OR m) cs 0 AND cap_bits a \<noteq> 0 \<longleftrightarrow> a \<in> set cs"
proof (induction cs)
  case Nil
  then show ?case by simp
next
  case (Cons c cs)
  have "(x OR y) AND z = 0 \<longleftrightarrow> x AND z = 0 \<and> y AND z = 0" for x y z :: u32
    by (simp only: bit.conj_disj_distrib2 or_eq_0_iff)
  then show ?case using Cons cap_disjoint [of c a] by auto
qed

section \<open>The union\<close>

definition fdkRspCpuExceptionPkt_t :: layout where
  "fdkRspCpuExceptionPkt_t = [(''fdkCommHdr'', 8), (''exNum'', 4)]"

text \<open>The members of the union in order; the first is the header alone.\<close>

definition fdkCommPkt_t :: "(string \<times> layout) list" where
  "fdkCommPkt_t =
     [(''fdkCommHdr'', fdkCommHdr_t),
      (''fdkReqMemReadPkt'', fdkReqMemReadPkt_t), (''fdkRspMemReadPkt'', fdkRspMemReadPkt_t),
      (''fdkReqMemWritePkt'', fdkReqMemWritePkt_t), (''fdkRspMemWritePkt'', fdkRspMemWritePkt_t),
      (''fdkReqIoReadPkt'', fdkReqIoReadPkt_t), (''fdkRspIoReadPkt'', fdkRspIoReadPkt_t),
      (''fdkReqIoWritePkt'', fdkReqIoWritePkt_t), (''fdkRspIoWritePkt'', fdkRspIoWritePkt_t),
      (''fdkReqPciReadPkt'', fdkReqPciReadPkt_t), (''fdkRspPciReadPkt'', fdkRspPciReadPkt_t),
      (''fdkReqPciWritePkt'', fdkReqPciWritePkt_t), (''fdkRspPciWritePkt'', fdkRspPciWritePkt_t),
      (''fdkReqIdeReadPkt'', fdkReqIdeReadPkt_t), (''fdkRspIdeReadPkt'', fdkRspIdeReadPkt_t),
      (''fdkReqIdeWritePkt'', fdkReqIdeWritePkt_t), (''fdkRspIdeWritePkt'', fdkRspIdeWritePkt_t),
      (''fdkReqCmosReadPkt'', fdkReqCmosReadPkt_t), (''fdkRspCmosReadPkt'', fdkRspCmosReadPkt_t),
      (''fdkReqCmosWritePkt'', fdkReqCmosWritePkt_t), (''fdkRspCmosWritePkt'', fdkRspCmosWritePkt_t),
      (''fdkReqPciListPkt'', fdkReqPciListPkt_t), (''fdkRspPciListPkt'', fdkRspPciListPkt_t),
      (''fdkReqE820ListPkt'', fdkReqE820ListPkt_t), (''fdkRspE820ListPkt'', fdkRspE820ListPkt_t),
      (''fdkRspCpuExceptionPkt'', fdkRspCpuExceptionPkt_t)]"

text \<open>The members of a union share its address, so its size is that of the largest.\<close>

definition sizeof_union :: "(string \<times> layout) list \<Rightarrow> nat" where
  "sizeof_union u = fold max (map (sizeof \<circ> snd) u) 0"

lemmas member_layouts = fdkReqMemReadPkt_t_def fdkRspMemWritePkt_t_def fdkRspMemReadPkt_t_def fdkReqMemWritePkt_t_def
  fdkReqIoReadPkt_t_def fdkRspIoWritePkt_t_def fdkRspIoReadPkt_t_def fdkReqIoWritePkt_t_def
  fdkReqPciReadPkt_t_def fdkRspPciWritePkt_t_def fdkRspPciReadPkt_t_def fdkReqPciWritePkt_t_def
  fdkReqIdeReadPkt_t_def fdkRspIdeWritePkt_t_def fdkRspIdeReadPkt_t_def fdkReqIdeWritePkt_t_def
  fdkReqCmosReadPkt_t_def fdkRspCmosWritePkt_t_def fdkRspCmosReadPkt_t_def fdkReqCmosWritePkt_t_def
  fdkReqPciListPkt_t_def fdkReqE820ListPkt_t_def fdkRspPciListPkt_t_def fdkRspE820ListPkt_t_def
  fdkRspCpuExceptionPkt_t_def

lemma member_header:
  assumes "(name, l) \<in> set (tl fdkCommPkt_t)"
  shows "hd l = (''fdkCommHdr'', sizeof fdkCommHdr_t)" "sizeof l \<le> sizeof_union fdkCommPkt_t"
  using assms by (auto simp: fdkCommPkt_t_def member_layouts sizeof_union_def sizeof_def fdkCommHdr_t_def)

lemma union_in_buffer: "sizeof_union fdkCommPkt_t = 36" "sizeof_union fdkCommPkt_t \<le> FDK_MAXSZ_PKT"
  by (simp_all add: fdkCommPkt_t_def member_layouts sizeof_union_def sizeof_def fdkCommHdr_t_def)

end
