(* ===== verification/Fdk_System.thy ===== *)
theory Fdk_System
  imports Fdk_Prelude
begin

text \<open>
  The operating system and the hardware as the server sees them. They are not part of the
  repository: they are the parameter \<open>os\<close>, a record of functions on an environment of arbitrary
  type, and every theorem holds for all of them. The modelled code reaches them only through
  the calls of this theory, which thread the environment and record each call in a log, so
  that what a routine does to the machine can be stated about the log.
\<close>

section \<open>The kernel interface\<close>

datatype oflag = O_RDONLY | O_WRONLY | O_RDWR | O_RDWR_SYNC

record 'w os =
  os_page_size :: u64
  os_port_insn :: bool
  os_open :: "string \<Rightarrow> oflag \<Rightarrow> 'w \<Rightarrow> s32 \<times> 'w"
  os_close :: "s32 \<Rightarrow> 'w \<Rightarrow> 'w"
  os_pread :: "s32 \<Rightarrow> nat \<Rightarrow> u64 \<Rightarrow> 'w \<Rightarrow> u8 list option \<times> 'w"
  os_pwrite :: "s32 \<Rightarrow> u8 list \<Rightarrow> u64 \<Rightarrow> 'w \<Rightarrow> s32 \<times> 'w"
  os_fsync :: "s32 \<Rightarrow> 'w \<Rightarrow> s32 \<times> 'w"
  os_mmap :: "s32 \<Rightarrow> u64 \<Rightarrow> u64 \<Rightarrow> 'w \<Rightarrow> u64 option \<times> 'w"
  os_munmap :: "u64 \<Rightarrow> u64 \<Rightarrow> 'w \<Rightarrow> 'w"
  os_load :: "nat \<Rightarrow> u64 \<Rightarrow> 'w \<Rightarrow> u32 \<times> 'w"
  os_store :: "nat \<Rightarrow> u64 \<Rightarrow> u32 \<Rightarrow> 'w \<Rightarrow> 'w"
  os_ioperm :: "u16 \<Rightarrow> u32 \<Rightarrow> bool \<Rightarrow> 'w \<Rightarrow> s32 \<times> 'w"
  os_inb :: "u16 \<Rightarrow> 'w \<Rightarrow> u8 \<times> 'w"
  os_outb :: "u8 \<Rightarrow> u16 \<Rightarrow> 'w \<Rightarrow> 'w"
  os_outl :: "u32 \<Rightarrow> u16 \<Rightarrow> 'w \<Rightarrow> 'w"
  os_access :: "string \<Rightarrow> 'w \<Rightarrow> bool"
  os_dir :: "string \<Rightarrow> 'w \<Rightarrow> string list option"
  os_file :: "string \<Rightarrow> 'w \<Rightarrow> string option"

text \<open>
  \<open>os_port_insn\<close> is the compile-time macro \<open>FDK_HAVE_PORT_INSN\<close> (an x86 build). \<open>os_pread\<close>
  returns the bytes read, or nothing on an error; \<open>os_mmap\<close> the address of the new mapping;
  \<open>os_load\<close> and \<open>os_store\<close> are volatile accesses of 1, 2 or 4 bytes through a mapping, which may
  have side effects on the device; \<open>os_dir\<close> lists a directory in \<open>readdir\<close> order and \<open>os_file\<close>
  is the text of a file, or nothing when it cannot be opened.
\<close>

section \<open>Calls and their log\<close>

datatype sysev =
    EvOpen string oflag s32
  | EvClose s32
  | EvPread s32 nat u64
  | EvPwrite s32 "u8 list" u64
  | EvFsync s32
  | EvMmap s32 u64 u64 "u64 option"
  | EvMunmap u64 u64
  | EvLoad nat u64
  | EvStore nat u64 u32
  | EvIoperm u16 u32 bool s32
  | EvInb u16
  | EvOutb u8 u16
  | EvOutl u32 u16

record 'w sys =
  env :: 'w
  log :: "sysev list"

definition sys_open :: "'w os \<Rightarrow> string \<Rightarrow> oflag \<Rightarrow> 'w sys \<Rightarrow> s32 \<times> 'w sys" where
  "sys_open K path fl s =
     (let (fd, e) = os_open K path fl (env s) in (fd, \<lparr>env = e, log = log s @ [EvOpen path fl fd]\<rparr>))"

definition sys_close :: "'w os \<Rightarrow> s32 \<Rightarrow> 'w sys \<Rightarrow> 'w sys" where
  "sys_close K fd s = \<lparr>env = os_close K fd (env s), log = log s @ [EvClose fd]\<rparr>"

text \<open>
  \<open>pread (fd, buf, len, off)\<close>: the result and the buffer afterwards. The kernel stores at the
  start of the buffer what it returns, and never more than \<open>len\<close> bytes.
\<close>

definition sys_pread :: "'w os \<Rightarrow> s32 \<Rightarrow> nat \<Rightarrow> u64 \<Rightarrow> u8 list \<Rightarrow> 'w sys \<Rightarrow> (s32 \<times> u8 list) \<times> 'w sys" where
  "sys_pread K fd len off buf s =
     (let (r, e) = os_pread K fd len off (env s); s' = \<lparr>env = e, log = log s @ [EvPread fd len off]\<rparr>
      in case r of None \<Rightarrow> ((- 1, buf), s')
         | Some bs \<Rightarrow> let got = take len bs in ((int (length got), blit 0 got buf), s'))"

definition sys_pwrite :: "'w os \<Rightarrow> s32 \<Rightarrow> u8 list \<Rightarrow> u64 \<Rightarrow> 'w sys \<Rightarrow> s32 \<times> 'w sys" where
  "sys_pwrite K fd bs off s =
     (let (n, e) = os_pwrite K fd bs off (env s)
      in (n, \<lparr>env = e, log = log s @ [EvPwrite fd bs off]\<rparr>))"

definition sys_fsync :: "'w os \<Rightarrow> s32 \<Rightarrow> 'w sys \<Rightarrow> s32 \<times> 'w sys" where
  "sys_fsync K fd s =
     (let (r, e) = os_fsync K fd (env s) in (r, \<lparr>env = e, log = log s @ [EvFsync fd]\<rparr>))"

definition sys_mmap :: "'w os \<Rightarrow> s32 \<Rightarrow> u64 \<Rightarrow> u64 \<Rightarrow> 'w sys \<Rightarrow> u64 option \<times> 'w sys" where
  "sys_mmap K fd len base s =
     (let (r, e) = os_mmap K fd len base (env s)
      in (r, \<lparr>env = e, log = log s @ [EvMmap fd len base r]\<rparr>))"

definition sys_munmap :: "'w os \<Rightarrow> u64 \<Rightarrow> u64 \<Rightarrow> 'w sys \<Rightarrow> 'w sys" where
  "sys_munmap K p len s = \<lparr>env = os_munmap K p len (env s), log = log s @ [EvMunmap p len]\<rparr>"

definition sys_load :: "'w os \<Rightarrow> nat \<Rightarrow> u64 \<Rightarrow> 'w sys \<Rightarrow> u32 \<times> 'w sys" where
  "sys_load K w p s =
     (let (v, e) = os_load K w p (env s) in (v, \<lparr>env = e, log = log s @ [EvLoad w p]\<rparr>))"

definition sys_store :: "'w os \<Rightarrow> nat \<Rightarrow> u64 \<Rightarrow> u32 \<Rightarrow> 'w sys \<Rightarrow> 'w sys" where
  "sys_store K w p v s = \<lparr>env = os_store K w p v (env s), log = log s @ [EvStore w p v]\<rparr>"

definition sys_ioperm :: "'w os \<Rightarrow> u16 \<Rightarrow> u32 \<Rightarrow> bool \<Rightarrow> 'w sys \<Rightarrow> s32 \<times> 'w sys" where
  "sys_ioperm K port n on s =
     (let (r, e) = os_ioperm K port n on (env s)
      in (r, \<lparr>env = e, log = log s @ [EvIoperm port n on r]\<rparr>))"

definition sys_inb :: "'w os \<Rightarrow> u16 \<Rightarrow> 'w sys \<Rightarrow> u8 \<times> 'w sys" where
  "sys_inb K port s = (let (v, e) = os_inb K port (env s) in (v, \<lparr>env = e, log = log s @ [EvInb port]\<rparr>))"

definition sys_outb :: "'w os \<Rightarrow> u8 \<Rightarrow> u16 \<Rightarrow> 'w sys \<Rightarrow> 'w sys" where
  "sys_outb K v port s = \<lparr>env = os_outb K v port (env s), log = log s @ [EvOutb v port]\<rparr>"

definition sys_outl :: "'w os \<Rightarrow> u32 \<Rightarrow> u16 \<Rightarrow> 'w sys \<Rightarrow> 'w sys" where
  "sys_outl K v port s = \<lparr>env = os_outl K v port (env s), log = log s @ [EvOutl v port]\<rparr>"

lemmas sys_defs = sys_open_def sys_close_def sys_pread_def sys_pwrite_def sys_fsync_def
  sys_mmap_def sys_munmap_def sys_load_def sys_store_def sys_ioperm_def sys_inb_def sys_outb_def
  sys_outl_def

section \<open>Reading the log\<close>

text \<open>
  \<open>emitted s s' es\<close>: the calls made between two states. Routines only ever append to the log.
\<close>

definition emitted :: "'w sys \<Rightarrow> 'w sys \<Rightarrow> sysev list \<Rightarrow> bool" where
  "emitted s s' es \<longleftrightarrow> log s' = log s @ es"

text \<open>What the process holds: descriptors, mappings and port permissions not given back yet.\<close>

datatype resource = ResFd s32 | ResMap u64 u64 | ResPorts u16 u32

fun hold :: "resource list \<Rightarrow> sysev \<Rightarrow> resource list" where
  "hold rs (EvOpen p f fd) = (if 0 \<le> fd then ResFd fd # rs else rs)"
| "hold rs (EvClose fd) = remove1 (ResFd fd) rs"
| "hold rs (EvMmap fd len base (Some p)) = ResMap p len # rs"
| "hold rs (EvMunmap p len) = remove1 (ResMap p len) rs"
| "hold rs (EvIoperm port n True r) = (if r = 0 then ResPorts port n # rs else rs)"
| "hold rs (EvIoperm port n False r) = remove1 (ResPorts port n) rs"
| "hold rs _ = rs"

definition held :: "'w sys \<Rightarrow> resource list" where
  "held s = foldl hold [] (log s)"

text \<open>Calls that can change the state of a device.\<close>

fun hw_write :: "sysev \<Rightarrow> bool" where
  "hw_write (EvPwrite fd bs off) = True"
| "hw_write (EvStore w p v) = True"
| "hw_write (EvOutb v p) = True"
| "hw_write (EvOutl v p) = True"
| "hw_write _ = False"

text \<open>Calls a routine may make without changing what the process holds.\<close>

fun neutral :: "sysev \<Rightarrow> bool" where
  "neutral (EvPread fd n off) = True"
| "neutral (EvPwrite fd bs off) = True"
| "neutral (EvFsync fd) = True"
| "neutral (EvMmap fd len base None) = True"
| "neutral (EvLoad w p) = True"
| "neutral (EvStore w p v) = True"
| "neutral (EvInb p) = True"
| "neutral (EvOutb v p) = True"
| "neutral (EvOutl v p) = True"
| "neutral (EvOpen p f fd) = (fd < 0)"
| "neutral (EvIoperm port n True r) = (r \<noteq> 0)"
| "neutral _ = False"

lemma hold_neutral: "neutral ev \<Longrightarrow> hold rs ev = rs"
proof (cases ev)
  case (EvMmap fd len base r)
  then show "neutral ev \<Longrightarrow> hold rs ev = rs" by (cases r) auto
next
  case (EvIoperm port n on r)
  then show "neutral ev \<Longrightarrow> hold rs ev = rs" by (cases on) auto
qed auto

lemma foldl_hold_neutral: "list_all neutral es \<Longrightarrow> foldl hold rs es = rs"
  by (induction es arbitrary: rs) (auto simp: hold_neutral)

text \<open>
  An event list is \<open>balanced\<close> when, whatever the process held before, it holds the same after.
\<close>

definition balanced :: "sysev list \<Rightarrow> bool" where
  "balanced es \<longleftrightarrow> (\<forall>rs. foldl hold rs es = rs)"

lemma balanced_nil [simp]: "balanced []"
  by (simp add: balanced_def)

lemma balanced_neutral: "list_all neutral es \<Longrightarrow> balanced es"
  by (simp add: balanced_def foldl_hold_neutral)

lemma balanced_append [intro]: "balanced es \<Longrightarrow> balanced fs \<Longrightarrow> balanced (es @ fs)"
  by (simp add: balanced_def)

lemma balanced_held: "emitted s s' es \<Longrightarrow> balanced es \<Longrightarrow> held s' = held s"
  by (simp add: emitted_def balanced_def held_def)

lemma balanced_open_close:
  "balanced es \<Longrightarrow> 0 \<le> fd \<Longrightarrow> balanced (EvOpen p f fd # es @ [EvClose fd])"
  by (simp add: balanced_def)

lemma balanced_mmap_munmap:
  "balanced es \<Longrightarrow> balanced (EvMmap fd len base (Some p) # es @ [EvMunmap p len])"
  by (simp add: balanced_def)

lemma balanced_ioperm:
  "balanced es \<Longrightarrow> balanced (EvIoperm port n True 0 # es @ [EvIoperm port n False r])"
  by (simp add: balanced_def)

section \<open>Log composition\<close>

lemma emitted_refl [simp]: "emitted s s []"
  by (simp add: emitted_def)

lemma emitted_trans: "emitted s t es \<Longrightarrow> emitted t u fs \<Longrightarrow> emitted s u (es @ fs)"
  by (simp add: emitted_def)

lemma emitted_unique: "emitted s t es \<Longrightarrow> emitted s t fs \<Longrightarrow> es = fs"
  by (simp add: emitted_def)

text \<open>
  \<open>logs P s s'\<close>: all calls between the two states satisfy \<open>P\<close>, and the process holds the same
  resources after them as before.
\<close>

definition logs :: "(sysev \<Rightarrow> bool) \<Rightarrow> 'w sys \<Rightarrow> 'w sys \<Rightarrow> bool" where
  "logs P s s' \<longleftrightarrow> (\<exists>es. emitted s s' es \<and> list_all P es \<and> balanced es)"

lemma logs_refl [simp, intro]: "logs P s s"
  unfolding logs_def by (intro exI [of _ "[]"]) simp

lemma logs_trans: "logs P s t \<Longrightarrow> logs P t u \<Longrightarrow> logs P s u"
  unfolding logs_def using emitted_trans by (metis balanced_append list_all_append)

lemma logs_mono: "logs P s t \<Longrightarrow> (\<And>ev. P ev \<Longrightarrow> Q ev) \<Longrightarrow> logs Q s t"
  unfolding logs_def by (auto simp: list_all_iff)

lemma logs_held: "logs P s t \<Longrightarrow> held t = held s"
  unfolding logs_def using balanced_held by blast

lemma logs_emitted: "logs P s t \<Longrightarrow> emitted s t es \<Longrightarrow> ev \<in> set es \<Longrightarrow> P ev"
  unfolding logs_def by (metis emitted_unique list_all_iff)

lemma logs_neutral:
  "emitted s t es \<Longrightarrow> list_all P es \<Longrightarrow> list_all neutral es \<Longrightarrow> logs P s t"
  unfolding logs_def by (blast intro: balanced_neutral)

lemma logs_bracket:
  assumes "emitted s t [a]" and "logs P t u" and "emitted u v [b]"
    and "P a" and "P b" and "\<And>es. balanced es \<Longrightarrow> balanced (a # es @ [b])"
  shows "logs P s v"
proof -
  from assms(2) obtain es where es: "emitted t u es" "list_all P es" "balanced es"
    unfolding logs_def by blast
  have "emitted s v ([a] @ es @ [b])"
    using assms(1,3) es(1) by (blast intro: emitted_trans)
  with es assms(4-6) show ?thesis
    unfolding logs_def by (intro exI [of _ "a # es @ [b]"]) auto
qed

end
