(* ===== verification/Hw_Access.thy ===== *)
theory Hw_Access
  imports Fdk_System
begin

text \<open>
  The contract between the request handler and the hardware back-ends of \<open>src_fdkd/linux/\<close>. A
  back-end reads into, or writes from, a byte region of the connection's packet buffer. The
  handler relies on the laws below; each back-end theory interprets the locales on its own
  definitions.
\<close>

section \<open>Readers and writers\<close>

text \<open>
  \<open>rd a n buf s\<close> reads \<open>n\<close> bytes at \<open>a\<close> into the \<open>n\<close>-byte region \<open>buf\<close>. It never writes past the
  region, the region it leaves does not depend on what the region held before, and the calls it
  makes satisfy \<open>ok\<close> and give back every resource they take.
\<close>

locale byte_reader =
  fixes rd :: "'a \<Rightarrow> u32 \<Rightarrow> u8 list \<Rightarrow> 'w sys \<Rightarrow> (s32 \<times> u8 list) \<times> 'w sys"
    and ok :: "sysev \<Rightarrow> bool"
  assumes rd_length: "length buf = unat n \<Longrightarrow> length (snd (fst (rd a n buf s))) = unat n"
    and rd_fresh: "length buf = unat n \<Longrightarrow> length buf' = unat n \<Longrightarrow> rd a n buf s = rd a n buf' s"
    and rd_logs: "length buf = unat n \<Longrightarrow> logs ok s (snd (rd a n buf s))"
begin

lemma rd_held: "length buf = unat n \<Longrightarrow> held (snd (rd a n buf s)) = held s"
  by (rule logs_held [OF rd_logs])

lemma rd_blit:
  assumes "off + unat n \<le> length pkt"
  shows "length (blit off (snd (fst (rd a n (bytes_at off (unat n) pkt) s))) pkt) = length pkt"
proof -
  have "length (snd (fst (rd a n (bytes_at off (unat n) pkt) s))) = unat n"
    using assms by (intro rd_length) simp
  then show ?thesis using assms by simp
qed

lemma rd_region:
  assumes "off + unat n \<le> length pkt" and "off + unat n \<le> length pkt'"
  shows "rd a n (bytes_at off (unat n) pkt) s = rd a n (bytes_at off (unat n) pkt') s"
  using assms by (intro rd_fresh) auto

end

text \<open>A reader that replaces everything by \<open>FFh\<close> when it fails.\<close>

locale filling_reader = byte_reader +
  assumes rd_fail: "length buf = unat n \<Longrightarrow> fst (fst (rd a n buf s)) \<noteq> 0 \<Longrightarrow>
      snd (fst (rd a n buf s)) = replicate (unat n) 255"

locale byte_writer =
  fixes wr :: "'a \<Rightarrow> u32 \<Rightarrow> u8 list \<Rightarrow> 'w sys \<Rightarrow> s32 \<times> 'w sys"
    and ok :: "sysev \<Rightarrow> bool"
  assumes wr_logs: "length buf = unat n \<Longrightarrow> logs ok s (snd (wr a n buf s))"
begin

lemma wr_held: "length buf = unat n \<Longrightarrow> held (snd (wr a n buf s)) = held s"
  by (rule logs_held [OF wr_logs])

end

text \<open>
  Ports and CMOS are read by an access loop that may stop half way; their readers wrap it and
  replace the region by \<open>FFh\<close> when it failed. Whatever the loop left there is then gone.
\<close>

definition fill_on_error :: "nat \<Rightarrow> (s32 \<times> u8 list) \<times> 'w sys \<Rightarrow> (s32 \<times> u8 list) \<times> 'w sys" where
  "fill_on_error n r =
     (let ((e, buf1), s1) = r
      in if e = 0 then ((0, buf1), s1) else ((- 1, blit 0 (replicate n 255) buf1), s1))"

locale raw_reader =
  fixes acc :: "'a \<Rightarrow> u32 \<Rightarrow> u8 list \<Rightarrow> 'w sys \<Rightarrow> (s32 \<times> u8 list) \<times> 'w sys"
    and ok :: "sysev \<Rightarrow> bool"
  assumes acc_length: "length buf = unat n \<Longrightarrow> length (snd (fst (acc a n buf s))) = unat n"
    and acc_status: "length buf = unat n \<Longrightarrow> length buf' = unat n \<Longrightarrow>
      snd (acc a n buf s) = snd (acc a n buf' s) \<and>
      fst (fst (acc a n buf s)) = fst (fst (acc a n buf' s))"
    and acc_fresh: "length buf = unat n \<Longrightarrow> length buf' = unat n \<Longrightarrow>
      fst (fst (acc a n buf s)) = 0 \<Longrightarrow> acc a n buf s = acc a n buf' s"
    and acc_logs: "length buf = unat n \<Longrightarrow> logs ok s (snd (acc a n buf s))"
begin

lemma fill_cases:
  assumes "length buf = unat n"
  shows "fill_on_error (unat n) (acc a n buf s) =
    (if fst (fst (acc a n buf s)) = 0 then acc a n buf s
     else ((- 1, replicate (unat n) 255), snd (acc a n buf s)))"
  using acc_length [OF assms, of a s] by (simp add: fill_on_error_def split_def Let_def blit_full prod_eq_iff)

sublocale filled: filling_reader "\<lambda>a n buf s. fill_on_error (unat n) (acc a n buf s)" ok
proof
  fix a and n :: u32 and s and buf buf' :: "u8 list"
  assume len: "length buf = unat n"
  show "length (snd (fst (fill_on_error (unat n) (acc a n buf s)))) = unat n"
    using acc_length [OF len] by (simp add: fill_cases [OF len])
  show "fill_on_error (unat n) (acc a n buf s) = fill_on_error (unat n) (acc a n buf' s)"
    if "length buf' = unat n"
    using acc_status [OF len that, of a s] acc_fresh [OF len that, of a s]
    by (simp add: fill_cases len that)
  show "logs ok s (snd (fill_on_error (unat n) (acc a n buf s)))"
    using acc_logs [OF len] by (simp add: fill_cases [OF len])
  show "snd (fst (fill_on_error (unat n) (acc a n buf s))) = replicate (unat n) 255"
    if "fst (fst (fill_on_error (unat n) (acc a n buf s))) \<noteq> 0"
    using that by (simp add: fill_cases [OF len] split: if_splits)
qed

end

section \<open>Single calls\<close>

text \<open>What one call that takes no resource appends to the log.\<close>

lemma logs_call:
  "P (EvPread fd n off) \<Longrightarrow> logs P s (snd (sys_pread K fd n off buf s))"
  "P (EvPwrite fd bs off) \<Longrightarrow> logs P s (snd (sys_pwrite K fd bs off s))"
  "P (EvFsync fd) \<Longrightarrow> logs P s (snd (sys_fsync K fd s))"
  "P (EvLoad w p) \<Longrightarrow> logs P s (snd (sys_load K w p s))"
  "P (EvStore w p v) \<Longrightarrow> logs P s (sys_store K w p v s)"
  "P (EvInb port) \<Longrightarrow> logs P s (snd (sys_inb K port s))"
  "P (EvOutb b port) \<Longrightarrow> logs P s (sys_outb K b port s)"
  "P (EvOutl v port) \<Longrightarrow> logs P s (sys_outl K v port s)"
  by (auto simp: logs_def emitted_def balanced_def sys_defs Let_def split: prod.split option.split)

lemma length_pread:
  "length buf = len \<Longrightarrow> length (snd (fst (sys_pread K fd len off buf s))) = len"
  by (auto simp: sys_pread_def Let_def split: prod.split option.split)

text \<open>A read that returns the full count has replaced the whole region.\<close>

lemma pread_full:
  assumes "length buf = len" and "fst (fst (sys_pread K fd len off buf s)) = int len"
  shows "sys_pread K fd len off buf s =
    ((int len, take len (the (fst (os_pread K fd len off (env s))))), snd (sys_pread K fd len off buf s))"
  using assms
  by (auto simp: sys_pread_def Let_def blit_def split: prod.splits option.splits)

lemma pread_indep:
  "fst (fst (sys_pread K fd len off buf s)) = fst (fst (sys_pread K fd len off buf' s))"
  "snd (sys_pread K fd len off buf s) = snd (sys_pread K fd len off buf' s)"
  by (auto simp: sys_pread_def Let_def split: prod.split option.split)

lemma pread_full_indep:
  assumes "length buf = len" and "length buf' = len"
    and "fst (fst (sys_pread K fd len off buf s)) = int len"
  shows "sys_pread K fd len off buf s = sys_pread K fd len off buf' s"
proof -
  have "fst (fst (sys_pread K fd len off buf' s)) = int len"
    using assms(3) pread_indep(1) by metis
  from pread_full [OF assms(1,3)] pread_full [OF assms(2) this] pread_indep(2) show ?thesis
    by metis
qed

text \<open>A file opened for one operation is closed after it.\<close>

lemma logs_open_close:
  assumes "sys_open K path fl s = (fd, s1)" and "0 \<le> fd" and "logs P s1 s2"
    and "P (EvOpen path fl fd)" and "P (EvClose fd)"
  shows "logs P s (sys_close K fd s2)"
proof (rule logs_bracket [OF _ assms(3) _ assms(4,5)])
  show "emitted s s1 [EvOpen path fl fd]"
    using assms(1) by (auto simp: sys_open_def emitted_def split: prod.splits)
  show "emitted s2 (sys_close K fd s2) [EvClose fd]"
    by (simp add: sys_close_def emitted_def)
  show "balanced (EvOpen path fl fd # es @ [EvClose fd])" if "balanced es" for es
    using that assms(2) by (rule balanced_open_close)
qed

lemma logs_open_failed:
  assumes "sys_open K path fl s = (fd, s1)" and "fd < 0" and "P (EvOpen path fl fd)"
  shows "logs P s s1"
  using assms
  by (intro logs_neutral [of s s1 "[EvOpen path fl fd]"])
    (auto simp: sys_open_def emitted_def split: prod.splits)

lemma logs_ioperm:
  assumes "sys_ioperm K port n True s = (0, s1)" and "logs P s1 s2"
    and "P (EvIoperm port n True 0)" and "\<And>r. P (EvIoperm port n False r)"
  shows "logs P s (snd (sys_ioperm K port n False s2))"
proof (rule logs_bracket [OF _ assms(2) _ assms(3,4)])
  show "emitted s s1 [EvIoperm port n True 0]"
    using assms(1) by (auto simp: sys_ioperm_def emitted_def split: prod.splits)
  show "emitted s2 (snd (sys_ioperm K port n False s2))
      [EvIoperm port n False (fst (sys_ioperm K port n False s2))]"
    by (simp add: sys_ioperm_def emitted_def split: prod.split)
qed (rule balanced_ioperm)

lemma logs_ioperm_failed:
  assumes "sys_ioperm K port n True s = (r, s1)" and "r \<noteq> 0" and "P (EvIoperm port n True r)"
  shows "logs P s s1"
  using assms
  by (intro logs_neutral [of s s1 "[EvIoperm port n True r]"])
    (auto simp: sys_ioperm_def emitted_def split: prod.splits)

end
