(* ===== verification/Sim_Machine.thy ===== *)
theory Sim_Machine
  imports Fdk_System
begin

text \<open>
  A small concrete machine: physical memory mapped one to one, a CMOS chip behind ports
  70h-73h, one disk, no \<open>/dev/port\<close> and no sysfs. It instantiates the kernel parameter in the
  witnesses, to show that the hypotheses of the theorems can hold together; no theorem is
  restricted to it.
\<close>

record sim =
  sim_mem :: "u64 \<Rightarrow> u8"
  sim_nvram :: "nat \<Rightarrow> u8"
  sim_idx1 :: u8
  sim_idx2 :: u8
  sim_disk :: "u8 list"

definition sim_open :: "string \<Rightarrow> oflag \<Rightarrow> sim \<Rightarrow> s32 \<times> sim" where
  "sim_open path fl e =
     (if path = ''/dev/mem'' then 3 else if path = ''/dev/sda'' then 5 else - 1, e)"

definition sim_pread :: "s32 \<Rightarrow> nat \<Rightarrow> u64 \<Rightarrow> sim \<Rightarrow> u8 list option \<times> sim" where
  "sim_pread fd len off e =
     (if fd = 5 then Some (take len (drop (unat off) (sim_disk e))) else None, e)"

definition sim_pwrite :: "s32 \<Rightarrow> u8 list \<Rightarrow> u64 \<Rightarrow> sim \<Rightarrow> s32 \<times> sim" where
  "sim_pwrite fd bs off e =
     (if fd = 5 \<and> unat off + length bs \<le> length (sim_disk e)
      then (int (length bs), e\<lparr>sim_disk := blit (unat off) bs (sim_disk e)\<rparr>) else (- 1, e))"

definition sim_inb :: "u16 \<Rightarrow> sim \<Rightarrow> u8 \<times> sim" where
  "sim_inb port e =
     (if port = 0x71 then sim_nvram e (unat (sim_idx1 e) mod 128)
      else if port = 0x73 then sim_nvram e (128 + unat (sim_idx2 e) mod 128) else 255, e)"

definition sim_outb :: "u8 \<Rightarrow> u16 \<Rightarrow> sim \<Rightarrow> sim" where
  "sim_outb v port e =
     (if port = 0x70 then e\<lparr>sim_idx1 := v\<rparr>
      else if port = 0x72 then e\<lparr>sim_idx2 := v\<rparr>
      else if port = 0x71 then e\<lparr>sim_nvram := (sim_nvram e)(unat (sim_idx1 e) mod 128 := v)\<rparr>
      else if port = 0x73 then e\<lparr>sim_nvram := (sim_nvram e)(128 + unat (sim_idx2 e) mod 128 := v)\<rparr>
      else e)"

definition sim_os :: "sim os" where
  "sim_os = \<lparr>os_page_size = 4096, os_port_insn = True, os_open = sim_open,
     os_close = (\<lambda>fd e. e), os_pread = sim_pread, os_pwrite = sim_pwrite,
     os_fsync = (\<lambda>fd e. (0, e)), os_mmap = (\<lambda>fd len base e. (Some base, e)),
     os_munmap = (\<lambda>p len e. e), os_load = (\<lambda>w q e. (ucast (sim_mem e q), e)),
     os_store = (\<lambda>w q v e. e\<lparr>sim_mem := (sim_mem e)(q := ucast v)\<rparr>),
     os_ioperm = (\<lambda>port n on e. (0, e)), os_inb = sim_inb, os_outb = sim_outb,
     os_outl = (\<lambda>v port e. e), os_access = (\<lambda>path e. False), os_dir = (\<lambda>path e. None),
     os_file = (\<lambda>path e. None)\<rparr>"

definition sim0 :: sim where
  "sim0 = \<lparr>sim_mem = (\<lambda>a. ucast a), sim_nvram = (\<lambda>i. word_of_nat i), sim_idx1 = 0, sim_idx2 = 0,
     sim_disk = [10, 20, 30, 40]\<rparr>"

definition sim_start :: "sim sys" where
  "sim_start = \<lparr>env = sim0, log = []\<rparr>"

lemma sim_os_sel [simp]:
  "os_page_size sim_os = 4096" "os_port_insn sim_os = True" "os_open sim_os = sim_open"
  "os_close sim_os fd e = e" "os_pread sim_os = sim_pread" "os_pwrite sim_os = sim_pwrite"
  "os_fsync sim_os fd e = (0, e)" "os_mmap sim_os fd len base e = (Some base, e)"
  "os_munmap sim_os p len e = e" "os_load sim_os w q e = (ucast (sim_mem e q), e)"
  "os_store sim_os w q v e = e\<lparr>sim_mem := (sim_mem e)(q := ucast v)\<rparr>"
  "os_ioperm sim_os port n on e = (0, e)" "os_inb sim_os = sim_inb" "os_outb sim_os = sim_outb"
  "os_outl sim_os l port e = e" "os_access sim_os path e = False" "os_dir sim_os path e = None"
  "os_file sim_os path e = None"
  by (simp_all add: sim_os_def)

lemmas sim_defs = sim_open_def sim_pread_def sim_pwrite_def sim_inb_def sim_outb_def
  sim0_def sim_start_def

end
