(* ===== verification/Lib_Mem.thy ===== *)
theory Lib_Mem
  imports Hw_Access Sim_Machine
begin

text \<open>
  Physical memory access, \<open>src_fdkd/linux/libmem.c\<close>: mapping page ranges of \<open>/dev/mem\<close>, the
  buffer transfers with their \<open>pread\<close>/\<open>pwrite\<close> fallback, and the width-exact register accesses.
\<close>

section \<open>Mapping\<close>

record memMapping_t =
  mm_map :: u64
  mm_mapLen :: u64
  mm_ptr :: u64

definition FDK_MEM_DEV :: string where "FDK_MEM_DEV = ''/dev/mem''"

definition openMemDev :: "'w os \<Rightarrow> 'w sys \<Rightarrow> s32 \<times> 'w sys" where
  "openMemDev K s = sys_open K FDK_MEM_DEV O_RDWR_SYNC s"

definition closeMemDev :: "'w os \<Rightarrow> s32 \<Rightarrow> 'w sys \<Rightarrow> 'w sys" where
  "closeMemDev K fd s = (if 0 \<le> fd then sys_close K fd s else s)"

text \<open>The page range that covers \<open>[addr, addr + len)\<close>, in 64-bit arithmetic.\<close>

definition map_base :: "u64 \<Rightarrow> u64 \<Rightarrow> u64" where
  "map_base pageSize addr = addr AND NOT (pageSize - 1)"

definition map_end :: "u64 \<Rightarrow> u64 \<Rightarrow> u32 \<Rightarrow> u64" where
  "map_end pageSize addr len = (addr + ucast len + pageSize - 1) AND NOT (pageSize - 1)"

definition mapRange :: "'w os \<Rightarrow> s32 \<Rightarrow> u64 \<Rightarrow> u32 \<Rightarrow> 'w sys \<Rightarrow> memMapping_t option \<times> 'w sys" where
  "mapRange K fd addr len s =
     (let base = map_base (os_page_size K) addr;
          end' = map_end (os_page_size K) addr len
      in if fd < 0 \<or> len = 0 then (None, s)
         else case sys_mmap K fd (end' - base) base s of
             (None, s1) \<Rightarrow> (None, s1)
           | (Some p, s1) \<Rightarrow> (Some \<lparr>mm_map = p, mm_mapLen = end' - base, mm_ptr = p + (addr - base)\<rparr>, s1))"

definition unmapRange :: "'w os \<Rightarrow> memMapping_t \<Rightarrow> 'w sys \<Rightarrow> 'w sys" where
  "unmapRange K m s = sys_munmap K (mm_map m) (mm_mapLen m) s"

section \<open>Buffer transfers\<close>

text \<open>The byte loops \<open>buf[i] = m.ptr[i]\<close> and \<open>m.ptr[i] = buf[i]\<close>.\<close>

fun load_bytes :: "'w os \<Rightarrow> u64 \<Rightarrow> nat \<Rightarrow> 'w sys \<Rightarrow> u8 list \<times> 'w sys" where
  "load_bytes K p 0 s = ([], s)"
| "load_bytes K p (Suc n) s =
     (let (v, s1) = sys_load K 1 p s; (bs, s2) = load_bytes K (p + 1) n s1 in (ucast v # bs, s2))"

fun store_bytes :: "'w os \<Rightarrow> u64 \<Rightarrow> u8 list \<Rightarrow> 'w sys \<Rightarrow> 'w sys" where
  "store_bytes K p [] s = s"
| "store_bytes K p (b # bs) s = store_bytes K (p + 1) bs (sys_store K 1 p (ucast b) s)"

definition memReadBuffer ::
  "'w os \<Rightarrow> s32 \<Rightarrow> u64 \<Rightarrow> u32 \<Rightarrow> u8 list \<Rightarrow> 'w sys \<Rightarrow> (s32 \<times> u8 list) \<times> 'w sys" where
  "memReadBuffer K fd addr len buf s =
     (case mapRange K fd addr len s of
        (Some m, s1) \<Rightarrow>
          (let (bs, s2) = load_bytes K (mm_ptr m) (unat len) s1
           in ((0, blit 0 bs buf), unmapRange K m s2))
      | (None, s1) \<Rightarrow>
          (if 0 \<le> fd then
             (let ((n, buf1), s2) = sys_pread K fd (unat len) addr buf s1
              in if n = int (unat len) then ((0, buf1), s2)
                 else ((- 1, blit 0 (replicate (unat len) 255) buf1), s2))
           else ((- 1, blit 0 (replicate (unat len) 255) buf), s1)))"

definition memWriteBuffer ::
  "'w os \<Rightarrow> s32 \<Rightarrow> u64 \<Rightarrow> u32 \<Rightarrow> u8 list \<Rightarrow> 'w sys \<Rightarrow> s32 \<times> 'w sys" where
  "memWriteBuffer K fd addr len buf s =
     (case mapRange K fd addr len s of
        (Some m, s1) \<Rightarrow> (0, unmapRange K m (store_bytes K (mm_ptr m) (take (unat len) buf) s1))
      | (None, s1) \<Rightarrow>
          (if 0 \<le> fd then
             (let (n, s2) = sys_pwrite K fd (take (unat len) buf) addr s1
              in (if n = int (unat len) then 0 else - 1, s2))
           else (- 1, s1)))"

section \<open>Register accesses\<close>

text \<open>
  One access of 1, 2 or 4 bytes: the value is written first when \<open>write\<close> is set, truncated to the
  width, and the value read back is the result.
\<close>

definition width_mask :: "nat \<Rightarrow> u32 \<Rightarrow> u32" where
  "width_mask width v = (if width = 1 then ucast (ucast v :: u8)
     else if width = 2 then ucast (ucast v :: u16) else v)"

definition accessMem ::
  "'w os \<Rightarrow> s32 \<Rightarrow> u64 \<Rightarrow> u32 \<Rightarrow> bool \<Rightarrow> u32 \<Rightarrow> 'w sys \<Rightarrow> (s32 \<times> u32) \<times> 'w sys" where
  "accessMem K fd addr width write val s =
     (case mapRange K fd addr width s of
        (None, s1) \<Rightarrow> ((- 1, val), s1)
      | (Some m, s1) \<Rightarrow>
          (let w = (if width = 1 then 1 else if width = 2 then 2 else 4);
               s2 = (if write then sys_store K w (mm_ptr m) (width_mask w val) s1 else s1);
               (v, s3) = sys_load K w (mm_ptr m) s2
           in ((0, width_mask w v), unmapRange K m s3)))"

definition memReadByte :: "'w os \<Rightarrow> s32 \<Rightarrow> u64 \<Rightarrow> 'w sys \<Rightarrow> u8 \<times> 'w sys" where
  "memReadByte K fd addr s =
     (let ((e, v), s') = accessMem K fd addr 1 False 0 s in (if e \<noteq> 0 then 0xFF else ucast v, s'))"

definition memReadWord :: "'w os \<Rightarrow> s32 \<Rightarrow> u64 \<Rightarrow> 'w sys \<Rightarrow> u16 \<times> 'w sys" where
  "memReadWord K fd addr s =
     (let ((e, v), s') = accessMem K fd addr 2 False 0 s in (if e \<noteq> 0 then 0xFFFF else ucast v, s'))"

definition memReadDWord :: "'w os \<Rightarrow> s32 \<Rightarrow> u64 \<Rightarrow> 'w sys \<Rightarrow> u32 \<times> 'w sys" where
  "memReadDWord K fd addr s =
     (let ((e, v), s') = accessMem K fd addr 4 False 0 s in (if e \<noteq> 0 then 0xFFFFFFFF else v, s'))"

definition memWriteByte :: "'w os \<Rightarrow> s32 \<Rightarrow> u64 \<Rightarrow> u8 \<Rightarrow> 'w sys \<Rightarrow> u8 \<times> 'w sys" where
  "memWriteByte K fd addr val s =
     (let ((e, v), s') = accessMem K fd addr 1 True (ucast val) s
      in (if e \<noteq> 0 then 0xFF else ucast v, s'))"

definition memWriteWord :: "'w os \<Rightarrow> s32 \<Rightarrow> u64 \<Rightarrow> u16 \<Rightarrow> 'w sys \<Rightarrow> u16 \<times> 'w sys" where
  "memWriteWord K fd addr val s =
     (let ((e, v), s') = accessMem K fd addr 2 True (ucast val) s
      in (if e \<noteq> 0 then 0xFFFF else ucast v, s'))"

definition memWriteDWord :: "'w os \<Rightarrow> s32 \<Rightarrow> u64 \<Rightarrow> u32 \<Rightarrow> 'w sys \<Rightarrow> u32 \<times> 'w sys" where
  "memWriteDWord K fd addr val s =
     (let ((e, v), s') = accessMem K fd addr 4 True val s
      in (if e \<noteq> 0 then 0xFFFFFFFF else v, s'))"

section \<open>The page range covers the request\<close>

lemma page_mask: "(2 :: u64) ^ k - 1 = mask k"
  by (simp add: mask_eq_exp_minus_1)

lemma and_not_mask: "(x :: u64) AND NOT (mask k) = x - take_bit k x"
proof -
  have "x AND NOT (mask k) = push_bit k (drop_bit k x)"
    by (rule bit_eqI) (auto simp: bit_simps)
  then show ?thesis
    using bits_ident [of k x] by (simp add: eq_diff_eq)
qed

lemma take_bit_diff_self: "take_bit k ((x :: u64) - take_bit k x) = 0"
  unfolding and_not_mask [symmetric]
  by (rule bit_eqI) (auto simp: bit_simps)

lemma take_bit_add_word:
  fixes a b :: u64
  assumes "k \<le> 64"
  shows "take_bit k (a + b) = take_bit k (take_bit k a + take_bit k b)"
proof -
  have dvd: "(2::nat) ^ k dvd 2 ^ 64" using assms by (rule le_imp_power_dvd)
  have "unat (take_bit k x) = unat x mod 2 ^ k" for x :: u64
    using unsigned_take_bit_eq [of k x, where ?'a = nat] take_bit_eq_mod [of k "unat x"] by simp
  moreover have "unat (x + y) mod 2 ^ k = (unat x + unat y) mod 2 ^ k" for x y :: u64
    using mod_mod_cancel [OF dvd] by (simp add: unat_word_ariths)
  ultimately show ?thesis by (simp add: word_unat_eq_iff mod_simps)
qed

lemma page_cover:
  assumes "k \<le> 31"
  shows "unat (addr - map_base (2 ^ k) addr) + unat len
      \<le> unat (map_end (2 ^ k) addr len - map_base (2 ^ k) addr)"
    and "take_bit k (map_base (2 ^ k) addr) = 0"
    and "take_bit k (map_end (2 ^ k) addr len - map_base (2 ^ k) addr) = 0"
proof -
  let ?base = "map_base (2 ^ k) addr" and ?off = "take_bit k addr"
  define y where "y = ?off + ucast len + mask k"
  have base: "?base = addr - ?off"
    by (simp add: map_base_def page_mask and_not_mask)
  have tb0: "take_bit k ?base = 0"
    unfolding base by (rule take_bit_diff_self)
  then show "take_bit k (map_base (2 ^ k) addr) = 0" .
  have sum: "addr + ucast len + 2 ^ k - 1 = ?base + y"
    by (simp add: base y_def algebra_simps mask_eq_exp_minus_1)
  have "take_bit k (?base + y) = take_bit k (take_bit k ?base + take_bit k y)"
    using assms by (intro take_bit_add_word) simp
  then have "take_bit k (?base + y) = take_bit k y"
    by (simp only: tb0 add_0 take_bit_take_bit min.idem)
  then have fin: "map_end (2 ^ k) addr len - ?base = y - take_bit k y"
    by (simp add: map_end_def sum page_mask and_not_mask)
  have p31: "(2::nat) ^ k \<le> 2 ^ 31" using assms by (intro power_increasing) auto
  have nat64: "unat (word_of_nat n :: u64) = n" if "n < 2 ^ 64" for n
    using that by (simp add: unat_of_nat)
  have "(mask k :: u64) = word_of_nat (2 ^ k - 1)"
    by (simp add: mask_eq_exp_minus_1 of_nat_diff)
  then have "unat (mask k :: u64) = unat (word_of_nat (2 ^ k - 1) :: u64)"
    by (rule arg_cong)
  also have "\<dots> = 2 ^ k - 1" by (rule nat64) (use p31 in simp)
  finally have mk: "unat (mask k :: u64) = 2 ^ k - 1" .
  have off: "unat ?off < 2 ^ k" by (simp add: unsigned_take_bit_eq)
  have tby: "unat (take_bit k y) < 2 ^ k" by (simp add: unsigned_take_bit_eq)
  have b32: "unat len < 2 ^ 32" using unsigned_less [of len, where ?'a = nat] by simp
  then have len: "unat (ucast len :: u64) = unat len"
    by (simp add: unsigned_ucast_eq take_bit_nat_eq_self_iff)
  from b32 have uy: "unat y = unat ?off + unat len + (2 ^ k - 1)"
    using off mk p31 len unfolding y_def by (simp add: unat_word_ariths)
  have le: "take_bit k y \<le> y" by (simp add: word_le_nat_alt unsigned_take_bit_eq take_bit_nat_less_eq_self)
  have "unat (y - take_bit k y) = unat y - unat (take_bit k y)"
    using le by (simp add: unat_sub)
  moreover have "addr - ?base = ?off" by (simp add: base)
  ultimately show "unat (addr - ?base) + unat len \<le> unat (map_end (2 ^ k) addr len - ?base)"
    using uy tby by (simp add: fin)
  show "take_bit k (map_end (2 ^ k) addr len - ?base) = 0"
    unfolding fin by (rule take_bit_diff_self)
qed

section \<open>What the transfers do to the system\<close>

lemma load_bytes_numeral [simp]:
  "load_bytes K p (numeral n) s =
     (let (v, s1) = sys_load K 1 p s; (bs, s2) = load_bytes K (p + 1) (pred_numeral n) s1
      in (ucast v # bs, s2))"
  by (simp add: numeral_eq_Suc)

lemma length_load_bytes [simp]: "length (fst (load_bytes K p n s)) = n"
  by (induction n arbitrary: p s) (auto simp: split_def Let_def)

lemma emitted_load_bytes:
  "emitted s (snd (load_bytes K p n s)) (map (\<lambda>i. EvLoad 1 (p + word_of_nat i)) [0..<n])"
proof (induction n arbitrary: p s)
  case 0
  show ?case by simp
next
  case (Suc n)
  let ?s1 = "snd (sys_load K 1 p s)"
  have "map (\<lambda>i. EvLoad 1 (p + word_of_nat i)) [0..<Suc n] =
      [EvLoad 1 p] @ map (\<lambda>i. EvLoad 1 (p + 1 + word_of_nat i)) [0..<n]"
    by (simp add: upt_conv_Cons map_Suc_upt [symmetric] add.assoc del: upt_Suc)
  moreover have "emitted s ?s1 [EvLoad 1 p]"
    by (simp add: sys_load_def emitted_def split: prod.split)
  ultimately show ?case
    using Suc [of ?s1 "p + 1"] emitted_trans by (fastforce simp: split_def Let_def)
qed

lemma logs_load_bytes: "(\<And>q. P (EvLoad 1 q)) \<Longrightarrow> logs P s (snd (load_bytes K p n s))"
  by (rule logs_neutral [OF emitted_load_bytes]) (auto simp: list_all_iff)

lemma logs_store_bytes: "(\<And>q v. P (EvStore 1 q v)) \<Longrightarrow> logs P s (store_bytes K p bs s)"
proof (induction bs arbitrary: p s)
  case Nil
  show ?case by simp
next
  case (Cons b bs)
  have "logs P s (sys_store K 1 p (ucast b) s)" by (rule logs_call(5)) (rule Cons.prems)
  with Cons show ?case by (auto intro: logs_trans)
qed

text \<open>A range is mapped and released around the accesses.\<close>

lemma mapRange_Some:
  assumes "mapRange K fd addr len s = (Some m, s1)"
  shows "emitted s s1 [EvMmap fd (mm_mapLen m) (map_base (os_page_size K) addr) (Some (mm_map m))]"
    and "0 \<le> fd" and "0 < len"
    and "mm_mapLen m = map_end (os_page_size K) addr len - map_base (os_page_size K) addr"
    and "mm_ptr m = mm_map m + (addr - map_base (os_page_size K) addr)"
  using assms
  by (auto simp: mapRange_def sys_mmap_def emitted_def Let_def word_neq_0_conv
      split: if_splits prod.splits option.splits)

lemma mapRange_None:
  assumes "mapRange K fd addr len s = (None, s1)" and "\<And>fd l b. P (EvMmap fd l b None)"
  shows "logs P s s1"
proof -
  have "s1 = s \<or> (\<exists>l b. emitted s s1 [EvMmap fd l b None])"
    using assms(1)
    by (auto simp: mapRange_def sys_mmap_def emitted_def Let_def split: if_splits prod.splits option.splits)
  then show ?thesis using assms(2) by (auto intro: logs_neutral)
qed

lemma logs_mapped:
  assumes "mapRange K fd addr len s = (Some m, s1)" and "logs P s1 s2"
    and "\<And>fd l b r. P (EvMmap fd l b r)" and "\<And>p l. P (EvMunmap p l)"
  shows "logs P s (unmapRange K m s2)"
proof (rule logs_bracket [OF mapRange_Some(1) [OF assms(1)] assms(2) _ assms(3,4)])
  show "emitted s2 (unmapRange K m s2) [EvMunmap (mm_map m) (mm_mapLen m)]"
    by (simp add: unmapRange_def sys_munmap_def emitted_def)
qed (rule balanced_mmap_munmap)

lemma memReadBuffer_cases:
  obtains (mapped) m s1 where "mapRange K fd addr len s = (Some m, s1)"
    and "\<And>buf. length buf = unat len \<Longrightarrow> memReadBuffer K fd addr len buf s =
      ((0, fst (load_bytes K (mm_ptr m) (unat len) s1)),
       unmapRange K m (snd (load_bytes K (mm_ptr m) (unat len) s1)))"
  | (copied) s1 bs where "mapRange K fd addr len s = (None, s1)" and "0 \<le> fd"
    and "length bs = unat len"
    and "\<And>buf. length buf = unat len \<Longrightarrow> memReadBuffer K fd addr len buf s =
      ((0, bs), snd (sys_pread K fd (unat len) addr bs s1))"
  | (failed) s1 s2 where "mapRange K fd addr len s = (None, s1)"
    and "s2 = s1 \<or> s2 = snd (sys_pread K fd (unat len) addr [] s1)"
    and "\<And>buf. length buf = unat len \<Longrightarrow> memReadBuffer K fd addr len buf s =
      ((- 1, replicate (unat len) 255), s2)"
proof (cases "mapRange K fd addr len s")
  case (Pair r s1)
  let ?n = "unat len"
  show thesis
  proof (cases r)
    case (Some m)
    show thesis
      by (rule mapped [of m s1])
        (simp_all add: Pair Some memReadBuffer_def blit_full split_def Let_def)
  next
    case None
    let ?any = "replicate ?n (0::u8)"
    let ?pr = "\<lambda>buf. sys_pread K fd ?n addr buf s1"
    consider "fd < 0" | "0 \<le> fd" "fst (fst (?pr ?any)) \<noteq> int ?n" | "0 \<le> fd" "fst (fst (?pr ?any)) = int ?n"
      by linarith
    then show thesis
    proof cases
      case 1
      show thesis
        by (rule failed [of s1 s1]) (use 1 in \<open>simp_all add: Pair None memReadBuffer_def blit_full\<close>)
    next
      case 2
      show thesis
      proof (rule failed [of s1 "snd (?pr [])"])
        fix buf :: "u8 list" assume "length buf = ?n"
        then show "memReadBuffer K fd addr len buf s = ((- 1, replicate ?n 255), snd (?pr []))"
          using 2 pread_indep [of K fd ?n addr buf s1 ?any] pread_indep(2) [of K fd ?n addr buf s1 "[]"]
            length_pread [of buf ?n K fd addr s1]
          by (simp add: Pair None memReadBuffer_def split_def blit_full Let_def)
      qed (simp_all add: Pair None)
    next
      case 3
      let ?bs = "snd (fst (?pr ?any))"
      have len: "length ?bs = ?n" by (rule length_pread) simp
      show thesis
      proof (rule copied [of s1 ?bs])
        fix buf :: "u8 list" assume "length buf = ?n"
        then have "?pr buf = ?pr ?any"
          using 3 pread_indep(1) [of K fd ?n addr buf s1 ?any] by (intro pread_full_indep) auto
        then show "memReadBuffer K fd addr len buf s = ((0, ?bs), snd (?pr ?bs))"
          using 3 pread_indep(2) [of K fd ?n addr ?bs s1 ?any]
          by (simp add: Pair None memReadBuffer_def split_def Let_def)
      qed (use 3 len in \<open>simp_all add: Pair None\<close>)
    qed
  qed
qed

interpretation mem_reader: filling_reader "memReadBuffer K fd" "\<lambda>ev. \<not> hw_write ev" for K fd
proof
  fix a and n :: u32 and s and buf buf' :: "u8 list"
  assume len: "length buf = unat n"
  show "length (snd (fst (memReadBuffer K fd a n buf s))) = unat n"
    by (rule memReadBuffer_cases [of K fd a n s]) (simp_all add: len)
  show "memReadBuffer K fd a n buf s = memReadBuffer K fd a n buf' s" if "length buf' = unat n"
    by (rule memReadBuffer_cases [of K fd a n s]) (simp_all add: len that)
  show "snd (fst (memReadBuffer K fd a n buf s)) = replicate (unat n) 255"
    if "fst (fst (memReadBuffer K fd a n buf s)) \<noteq> 0"
    by (rule memReadBuffer_cases [of K fd a n s]) (use that in \<open>simp_all add: len\<close>)
  show "logs (\<lambda>ev. \<not> hw_write ev) s (snd (memReadBuffer K fd a n buf s))"
  proof (rule memReadBuffer_cases [of K fd a n s])
    fix m s1 assume m: "mapRange K fd a n s = (Some m, s1)"
      and eq: "\<And>buf. length buf = unat n \<Longrightarrow> memReadBuffer K fd a n buf s =
        ((0, fst (load_bytes K (mm_ptr m) (unat n) s1)),
         unmapRange K m (snd (load_bytes K (mm_ptr m) (unat n) s1)))"
    show ?thesis
      unfolding eq [OF len] snd_conv by (rule logs_mapped [OF m logs_load_bytes]) auto
  next
    fix s1 bs assume m: "mapRange K fd a n s = (None, s1)"
      and eq: "\<And>buf. length buf = unat n \<Longrightarrow> memReadBuffer K fd a n buf s =
        ((0, bs), snd (sys_pread K fd (unat n) a bs s1))"
    show ?thesis
      unfolding eq [OF len] snd_conv
      by (rule logs_trans [OF mapRange_None [OF m] logs_call(1)]) auto
  next
    fix s1 s2 assume m: "mapRange K fd a n s = (None, s1)"
      and s2: "s2 = s1 \<or> s2 = snd (sys_pread K fd (unat n) a [] s1)"
      and eq: "\<And>buf. length buf = unat n \<Longrightarrow> memReadBuffer K fd a n buf s =
        ((- 1, replicate (unat n) 255), s2)"
    have s: "logs (\<lambda>ev. \<not> hw_write ev) s s1" by (rule mapRange_None [OF m]) simp
    have "logs (\<lambda>ev. \<not> hw_write ev) s1 s2" using s2 by (auto intro: logs_call)
    with s show ?thesis
      unfolding eq [OF len] snd_conv by (rule logs_trans)
  qed
qed

interpretation mem_writer: byte_writer "memWriteBuffer K fd" "\<lambda>_. True" for K fd
proof
  fix a and n :: u32 and s and buf :: "u8 list"
  show "logs (\<lambda>_. True) s (snd (memWriteBuffer K fd a n buf s))"
  proof (cases "mapRange K fd a n s")
    case (Pair r s1)
    show ?thesis
    proof (cases r)
      case (Some m)
      show ?thesis
        using logs_mapped [OF Pair [unfolded Some] logs_store_bytes]
        by (simp add: memWriteBuffer_def Pair Some)
    next
      case None
      have s: "logs (\<lambda>_. True) s s1" by (rule mapRange_None [OF Pair [unfolded None]]) simp
      show ?thesis
        by (auto simp: memWriteBuffer_def Pair None split_def Let_def
            intro: s logs_trans [OF s] logs_call)
    qed
  qed
qed

section \<open>Every access stays inside the mapping\<close>

lemma memReadBuffer_loads:
  assumes "length buf = unat len" and "emitted s (snd (memReadBuffer K fd addr len buf s)) es"
    and "EvLoad w q \<in> set es"
  obtains m s1 i where "mapRange K fd addr len s = (Some m, s1)" and "i < unat len" and "w = 1"
    and "q = mm_ptr m + word_of_nat i"
    and "EvMmap fd (mm_mapLen m) (map_base (os_page_size K) addr) (Some (mm_map m)) \<in> set es"
proof (rule memReadBuffer_cases [of K fd addr len s])
  fix m s1 assume m: "mapRange K fd addr len s = (Some m, s1)"
    and eq: "\<And>buf. length buf = unat len \<Longrightarrow> memReadBuffer K fd addr len buf s =
        ((0, fst (load_bytes K (mm_ptr m) (unat len) s1)),
         unmapRange K m (snd (load_bytes K (mm_ptr m) (unat len) s1)))"
  let ?mm = "EvMmap fd (mm_mapLen m) (map_base (os_page_size K) addr) (Some (mm_map m))"
  let ?ld = "map (\<lambda>i. EvLoad 1 (mm_ptr m + word_of_nat i)) [0..<unat len]"
  have "emitted s (snd (memReadBuffer K fd addr len buf s))
      (([?mm] @ ?ld) @ [EvMunmap (mm_map m) (mm_mapLen m)])"
    unfolding eq [OF assms(1)] snd_conv
    by (rule emitted_trans [OF emitted_trans [OF mapRange_Some(1) [OF m] emitted_load_bytes]])
      (simp add: emitted_def unmapRange_def sys_munmap_def)
  then have es: "es = ([?mm] @ ?ld) @ [EvMunmap (mm_map m) (mm_mapLen m)]"
    using assms(2) emitted_unique by blast
  with assms(3) that [OF m] show thesis by auto
next
  fix s1 bs assume m: "mapRange K fd addr len s = (None, s1)"
    and eq: "\<And>buf. length buf = unat len \<Longrightarrow> memReadBuffer K fd addr len buf s =
        ((0, bs), snd (sys_pread K fd (unat len) addr bs s1))"
  have "logs (\<lambda>ev. \<forall>w q. ev \<noteq> EvLoad w q) s (snd (memReadBuffer K fd addr len buf s))"
    unfolding eq [OF assms(1)] snd_conv
    by (rule logs_trans [OF mapRange_None [OF m] logs_call(1)]) auto
  from logs_emitted [OF this assms(2,3)] show thesis by simp
next
  fix s1 s2 assume m: "mapRange K fd addr len s = (None, s1)"
    and s2: "s2 = s1 \<or> s2 = snd (sys_pread K fd (unat len) addr [] s1)"
    and eq: "\<And>buf. length buf = unat len \<Longrightarrow> memReadBuffer K fd addr len buf s =
        ((- 1, replicate (unat len) 255), s2)"
  have "logs (\<lambda>ev. \<forall>w q. ev \<noteq> EvLoad w q) s s1" by (rule mapRange_None [OF m]) simp
  moreover have "logs (\<lambda>ev. \<forall>w q. ev \<noteq> EvLoad w q) s1 s2" using s2 by (auto intro: logs_call)
  ultimately have "logs (\<lambda>ev. \<forall>w q. ev \<noteq> EvLoad w q) s (snd (memReadBuffer K fd addr len buf s))"
    unfolding eq [OF assms(1)] snd_conv by (rule logs_trans)
  from logs_emitted [OF this assms(2,3)] show thesis by simp
qed

text \<open>
  C23: every byte \<open>memReadBuffer\<close> loads lies inside the mapping it has just made, for every address
  and length, including ranges that wrap around the 64-bit address space: the page rounding of
  \<open>mapRange\<close> never maps too little.
\<close>

theorem memReadBuffer_in_mapping:
  assumes "os_page_size K = 2 ^ k" and "k \<le> 31" and "length buf = unat len"
    and "emitted s (snd (memReadBuffer K fd addr len buf s)) es" and "EvLoad w q \<in> set es"
  shows "\<exists>p mapLen. EvMmap fd mapLen (map_base (os_page_size K) addr) (Some p) \<in> set es \<and>
    unat (q - p) + w \<le> unat mapLen"
proof -
  from assms(3-5) obtain m s1 i where m: "mapRange K fd addr len s = (Some m, s1)"
    and i: "i < unat len" and q: "w = 1" "q = mm_ptr m + word_of_nat i"
    and ev: "EvMmap fd (mm_mapLen m) (map_base (os_page_size K) addr) (Some (mm_map m)) \<in> set es"
    by (rule memReadBuffer_loads)
  let ?d = "addr - map_base (2 ^ k) addr"
  have cover: "unat ?d + unat len \<le> unat (mm_mapLen m)"
    using page_cover(1) [OF assms(2)] mapRange_Some(4) [OF m] assms(1) by simp
  have "unat len < 2 ^ 32" using unsigned_less [of len, where ?'a = nat] by simp
  then have ui: "unat (word_of_nat i :: u64) = i" using i by (simp add: unat_of_nat)
  have "unat (mm_mapLen m) < 2 ^ 64" using unsigned_less [of "mm_mapLen m", where ?'a = nat] by simp
  with cover i ui have "unat (?d + word_of_nat i) = unat ?d + i" by (simp add: unat_word_ariths)
  moreover have "q - mm_map m = ?d + word_of_nat i"
    using mapRange_Some(5) [OF m] assms(1) q by simp
  ultimately have "unat (q - mm_map m) + w \<le> unat (mm_mapLen m)"
    using cover i q(1) by simp
  with ev show ?thesis by blast
qed

theorem memReadBuffer_in_mapping_witness:
  "\<exists>p mapLen. EvMmap 3 mapLen (map_base (os_page_size sim_os) 0xFFF) (Some p) \<in>
      set (log (snd (memReadBuffer sim_os 3 0xFFF 2 [0, 0] sim_start))) \<and>
    unat (0x1000 - p) + 1 \<le> unat mapLen"
proof (rule memReadBuffer_in_mapping)
  show "os_page_size sim_os = 2 ^ 12" by (simp add: sim_defs)
  show "emitted sim_start (snd (memReadBuffer sim_os 3 0xFFF 2 [0, 0] sim_start))
      (log (snd (memReadBuffer sim_os 3 0xFFF 2 [0, 0] sim_start)))"
    by (simp add: emitted_def sim_start_def)
  show "EvLoad 1 0x1000 \<in> set (log (snd (memReadBuffer sim_os 3 0xFFF 2 [0, 0] sim_start)))"
    by (simp add: memReadBuffer_def mapRange_def map_base_def map_end_def sys_defs sim_defs
        unmapRange_def)
qed simp_all

end
