(* ===== verification/Lib_Port.thy ===== *)
theory Lib_Port
  imports Hw_Access Sim_Machine
begin

text \<open>
  CPU I/O ports and CMOS, \<open>src_fdkd/linux/libport.c\<close>: byte-wise access through \<open>/dev/port\<close> or, on
  x86, through in/out instructions after \<open>ioperm\<close>; CMOS bytes behind the index and data ports.
\<close>

section \<open>Handles\<close>

definition FDK_PORT_SPACE :: u32 where "FDK_PORT_SPACE = 0x10000"

definition FDK_PORT_DEV :: string where "FDK_PORT_DEV = ''/dev/port''"

record portHandle_t =
  ph_fd :: s32
  ph_insn :: bool
  ph_port :: u16
  ph_len :: u32

definition portOpen :: "'w os \<Rightarrow> u16 \<Rightarrow> u32 \<Rightarrow> 'w sys \<Rightarrow> portHandle_t option \<times> 'w sys" where
  "portOpen K port len s =
     (if ucast port + len > FDK_PORT_SPACE then (None, s)
      else
        let (fd, s1) = sys_open K FDK_PORT_DEV O_RDWR s;
            h = \<lparr>ph_fd = fd, ph_insn = False, ph_port = port, ph_len = len\<rparr>
        in if 0 \<le> fd then (Some h, s1)
           else if os_port_insn K then
             (let (r, s2) = sys_ioperm K port len True s1
              in if r = 0 then (Some (h\<lparr>ph_insn := True\<rparr>), s2) else (None, s2))
           else (None, s1))"

definition portClose :: "'w os \<Rightarrow> portHandle_t \<Rightarrow> 'w sys \<Rightarrow> 'w sys" where
  "portClose K h s =
     (let s1 = (if 0 \<le> ph_fd h then sys_close K (ph_fd h) s else s)
      in if os_port_insn K \<and> ph_insn h
         then snd (sys_ioperm K (ph_port h) (ph_len h) False s1) else s1)"

text \<open>One byte at one port: the C result, and \<open>*val\<close> afterwards.\<close>

definition portXfer ::
  "'w os \<Rightarrow> portHandle_t \<Rightarrow> u16 \<Rightarrow> u8 \<Rightarrow> bool \<Rightarrow> 'w sys \<Rightarrow> (s32 \<times> u8) \<times> 'w sys" where
  "portXfer K h port val isWrite s =
     (if 0 \<le> ph_fd h then
        (if isWrite then
           (let (n, s1) = sys_pwrite K (ph_fd h) [val] (ucast port) s
            in ((if n = 1 then 0 else - 1, val), s1))
         else
           (let ((n, buf), s1) = sys_pread K (ph_fd h) 1 (ucast port) [val] s
            in ((if n = 1 then 0 else - 1, hd buf), s1)))
      else if os_port_insn K then
        (if isWrite then ((0, val), sys_outb K val port s)
         else (let (v, s1) = sys_inb K port s in ((0, v), s1)))
      else ((- 1, val), s))"

section \<open>Port ranges\<close>

text \<open>The transfer loop, which stops at the first failure.\<close>

fun port_bytes ::
  "'w os \<Rightarrow> portHandle_t \<Rightarrow> u16 \<Rightarrow> u8 list \<Rightarrow> bool \<Rightarrow> 'w sys \<Rightarrow> (s32 \<times> u8 list) \<times> 'w sys" where
  "port_bytes K h port [] isWrite s = ((0, []), s)"
| "port_bytes K h port (b # bs) isWrite s =
     (let ((r, v), s1) = portXfer K h port b isWrite s
      in if r \<noteq> 0 then ((r, v # bs), s1)
         else let ((r', vs), s2) = port_bytes K h (port + 1) bs isWrite s1 in ((r', v # vs), s2))"

definition portAccess ::
  "'w os \<Rightarrow> u16 \<Rightarrow> u32 \<Rightarrow> u8 list \<Rightarrow> bool \<Rightarrow> 'w sys \<Rightarrow> (s32 \<times> u8 list) \<times> 'w sys" where
  "portAccess K port len buf isWrite s =
     (case portOpen K port len s of
        (None, s1) \<Rightarrow> ((- 1, buf), s1)
      | (Some h, s1) \<Rightarrow>
          (let ((r, vs), s2) = port_bytes K h port (take (unat len) buf) isWrite s1
           in ((r, blit 0 vs buf), portClose K h s2)))"

definition portRead :: "'w os \<Rightarrow> u16 \<Rightarrow> u32 \<Rightarrow> u8 list \<Rightarrow> 'w sys \<Rightarrow> (s32 \<times> u8 list) \<times> 'w sys" where
  "portRead K port len buf s =
     fill_on_error (unat len) (portAccess K port len buf False s)"

definition portWrite :: "'w os \<Rightarrow> u16 \<Rightarrow> u32 \<Rightarrow> u8 list \<Rightarrow> 'w sys \<Rightarrow> s32 \<times> 'w sys" where
  "portWrite K port len buf s =
     (let ((r, buf1), s1) = portAccess K port len buf True s in (r, s1))"

section \<open>CMOS\<close>

definition FDK_CMOS_ADDR :: u16 where "FDK_CMOS_ADDR = 0x70"

definition FDK_CMOS_EXT_ADDR :: u16 where "FDK_CMOS_EXT_ADDR = 0x72"

definition FDK_CMOS_EXT_DATA :: u16 where "FDK_CMOS_EXT_DATA = 0x73"

definition FDK_CMOS_BANK_SIZE :: u32 where "FDK_CMOS_BANK_SIZE = 0x80"

definition FDK_CMOS_SIZE :: u32 where "FDK_CMOS_SIZE = 0x100"

lemmas cmos_consts = FDK_CMOS_ADDR_def FDK_CMOS_EXT_ADDR_def FDK_CMOS_EXT_DATA_def
  FDK_CMOS_BANK_SIZE_def FDK_CMOS_SIZE_def

definition cmos_idxPort :: "u32 \<Rightarrow> u16" where
  "cmos_idxPort off = (if off < FDK_CMOS_BANK_SIZE then FDK_CMOS_ADDR else FDK_CMOS_EXT_ADDR)"

definition cmos_idx :: "u32 \<Rightarrow> u8" where
  "cmos_idx off = ucast (off AND (FDK_CMOS_BANK_SIZE - 1))"

text \<open>The loop of \<open>cmosAccess\<close>: the index port first, then the data port next to it.\<close>

fun cmos_bytes ::
  "'w os \<Rightarrow> portHandle_t \<Rightarrow> u32 \<Rightarrow> u8 list \<Rightarrow> bool \<Rightarrow> 'w sys \<Rightarrow> (s32 \<times> u8 list) \<times> 'w sys" where
  "cmos_bytes K h off [] isWrite s = ((0, []), s)"
| "cmos_bytes K h off (b # bs) isWrite s =
     (let ((r, i), s1) = portXfer K h (cmos_idxPort off) (cmos_idx off) True s
      in if r \<noteq> 0 then ((r, b # bs), s1)
         else
           let ((r, v), s2) = portXfer K h (cmos_idxPort off + 1) b isWrite s1
           in if r \<noteq> 0 then ((r, v # bs), s2)
              else let ((r', vs), s3) = cmos_bytes K h (off + 1) bs isWrite s2
                   in ((r', v # vs), s3))"

definition cmosAccess ::
  "'w os \<Rightarrow> u8 \<Rightarrow> u32 \<Rightarrow> u8 list \<Rightarrow> bool \<Rightarrow> 'w sys \<Rightarrow> (s32 \<times> u8 list) \<times> 'w sys" where
  "cmosAccess K addr len buf isWrite s =
     (if ucast addr + len > FDK_CMOS_SIZE then ((- 1, buf), s)
      else case portOpen K FDK_CMOS_ADDR (ucast (FDK_CMOS_EXT_DATA - FDK_CMOS_ADDR + 1)) s of
          (None, s1) \<Rightarrow> ((- 1, buf), s1)
        | (Some h, s1) \<Rightarrow>
            (let ((r, vs), s2) = cmos_bytes K h (ucast addr) (take (unat len) buf) isWrite s1
             in ((r, blit 0 vs buf), portClose K h s2)))"

definition cmosRead :: "'w os \<Rightarrow> u8 \<Rightarrow> u32 \<Rightarrow> u8 list \<Rightarrow> 'w sys \<Rightarrow> (s32 \<times> u8 list) \<times> 'w sys" where
  "cmosRead K addr len buf s =
     fill_on_error (unat len) (cmosAccess K addr len buf False s)"

definition cmosWrite :: "'w os \<Rightarrow> u8 \<Rightarrow> u32 \<Rightarrow> u8 list \<Rightarrow> 'w sys \<Rightarrow> s32 \<times> 'w sys" where
  "cmosWrite K addr len buf s =
     (let ((r, buf1), s1) = cmosAccess K addr len buf True s in (r, s1))"

section \<open>One transfer\<close>

text \<open>The port write an event makes, by either way of access.\<close>

fun port_out :: "sysev \<Rightarrow> (u64 \<times> u8) option" where
  "port_out (EvOutb v p) = Some (ucast p, v)"
| "port_out (EvPwrite fd [v] off) = Some (off, v)"
| "port_out _ = None"

text \<open>A transfer reads, or writes its byte to its port.\<close>

definition xfer_ok :: "(u64 \<Rightarrow> u8 \<Rightarrow> bool) \<Rightarrow> sysev \<Rightarrow> bool" where
  "xfer_ok W ev \<longleftrightarrow> hw_write ev \<longrightarrow> (\<exists>p v. port_out ev = Some (p, v) \<and> W p v)"

lemma xfer_ok_quiet [simp]: "\<not> hw_write ev \<Longrightarrow> xfer_ok W ev"
  by (simp add: xfer_ok_def)

lemma xfer_ok_write [simp]:
  "xfer_ok W (EvOutb v p) \<longleftrightarrow> W (ucast p) v" "xfer_ok W (EvPwrite fd [v] off) \<longleftrightarrow> W off v"
  by (simp_all add: xfer_ok_def)

lemma logs_portXfer_write:
  "W (ucast port) v \<Longrightarrow> logs (xfer_ok W) s (snd (portXfer K h port v True s))"
  by (auto simp: portXfer_def split_def Let_def intro: logs_call)

lemma logs_portXfer_any: "logs (\<lambda>_. True) s (snd (portXfer K h port v w s))"
  by (auto simp: portXfer_def split_def Let_def intro!: logs_call)

lemma logs_portXfer_read: "logs (xfer_ok W) s (snd (portXfer K h port v False s))"
  by (auto simp: portXfer_def split_def Let_def intro!: logs_call)

text \<open>What is read does not depend on what the byte was before.\<close>

lemma portXfer_read_indep:
  "snd (portXfer K h port v False s) = snd (portXfer K h port v' False s)"
  "fst (fst (portXfer K h port v False s)) = fst (fst (portXfer K h port v' False s))"
  "fst (fst (portXfer K h port v False s)) = 0 \<Longrightarrow>
    portXfer K h port v False s = portXfer K h port v' False s"
  by (auto simp: portXfer_def sys_pread_def sys_inb_def blit_def Let_def
      split: prod.splits option.splits if_splits)

lemma portXfer_status: "fst (fst (portXfer K h port v w s)) \<in> {0, - 1}"
  by (simp add: portXfer_def split_def Let_def)

section \<open>Opening and closing\<close>

lemma logs_port_session:
  assumes "portOpen K port len s = (Some h, s1)" and "logs P s1 s2"
    and "\<And>p f fd. P (EvOpen p f fd)" and "\<And>fd. P (EvClose fd)" and "\<And>p n on r. P (EvIoperm p n on r)"
  shows "logs P s (portClose K h s2)"
proof -
  obtain fd sa where op: "sys_open K FDK_PORT_DEV O_RDWR s = (fd, sa)" by fastforce
  show ?thesis
  proof (cases "0 \<le> fd")
    case True
    then have "h = \<lparr>ph_fd = fd, ph_insn = False, ph_port = port, ph_len = len\<rparr>" "s1 = sa"
      using assms(1) op by (auto simp: portOpen_def split: if_splits)
    then show ?thesis
      using logs_open_close [OF op True] assms(2-4) True by (simp add: portClose_def)
  next
    case False
    obtain r sb where io: "sys_ioperm K port len True sa = (r, sb)" by fastforce
    with False have h: "h = \<lparr>ph_fd = fd, ph_insn = True, ph_port = port, ph_len = len\<rparr>"
      and s1: "s1 = sb" and r: "r = 0" and insn: "os_port_insn K"
      using assms(1) op by (auto simp: portOpen_def split: if_splits)
    have "logs P s sa" using logs_open_failed [OF op] False assms(3) by simp
    moreover have "logs P sa (snd (sys_ioperm K port len False s2))"
      using logs_ioperm [OF io [unfolded r]] assms(2,5) s1 by simp
    ultimately show ?thesis
      using False h insn by (auto simp: portClose_def intro: logs_trans)
  qed
qed

lemma logs_portOpen_failed:
  assumes "portOpen K port len s = (None, s1)"
    and "\<And>p f fd. P (EvOpen p f fd)" and "\<And>p n on r. P (EvIoperm p n on r)"
  shows "logs P s s1"
proof -
  obtain fd sa where op: "sys_open K FDK_PORT_DEV O_RDWR s = (fd, sa)" by fastforce
  obtain r sb where io: "sys_ioperm K port len True sa = (r, sb)" by fastforce
  have "logs P s sa" if "fd < 0" using logs_open_failed [OF op that] assms(2) by blast
  moreover have "logs P sa sb" if "r \<noteq> 0" using logs_ioperm_failed [OF io that] assms(3) by blast
  ultimately show ?thesis
    using assms(1) op io
    by (auto simp: portOpen_def Let_def split: if_splits intro: logs_trans)
qed

section \<open>The loops\<close>

lemma length_port_bytes [simp]: "length (snd (fst (port_bytes K h port bs w s))) = length bs"
  by (induction bs arbitrary: port s) (auto simp: split_def Let_def)

lemma length_cmos_bytes [simp]: "length (snd (fst (cmos_bytes K h off bs w s))) = length bs"
  by (induction bs arbitrary: off s) (auto simp: split_def Let_def)

lemma port_bytes_indep:
  assumes "length bs = length bs'"
  shows "snd (port_bytes K h port bs False s) = snd (port_bytes K h port bs' False s) \<and>
    fst (fst (port_bytes K h port bs False s)) = fst (fst (port_bytes K h port bs' False s)) \<and>
    (fst (fst (port_bytes K h port bs False s)) = 0 \<longrightarrow>
      port_bytes K h port bs False s = port_bytes K h port bs' False s)"
  using assms
proof (induction bs bs' arbitrary: port s rule: list_induct2)
  case Nil
  show ?case by simp
next
  case (Cons b bs b' bs')
  let ?x = "portXfer K h port b False s" and ?x' = "portXfer K h port b' False s"
  show ?case
  proof (cases "fst (fst ?x) = 0")
    case True
    then have "?x = ?x'" by (rule portXfer_read_indep(3))
    with Cons.IH [of "port + 1" "snd ?x"] True show ?thesis
      by (auto simp: split_def Let_def prod_eq_iff)
  next
    case False
    with portXfer_read_indep(1,2) [of K h port b s b'] show ?thesis
      by (auto simp: split_def Let_def)
  qed
qed

lemma cmos_bytes_indep:
  assumes "length bs = length bs'"
  shows "snd (cmos_bytes K h off bs False s) = snd (cmos_bytes K h off bs' False s) \<and>
    fst (fst (cmos_bytes K h off bs False s)) = fst (fst (cmos_bytes K h off bs' False s)) \<and>
    (fst (fst (cmos_bytes K h off bs False s)) = 0 \<longrightarrow>
      cmos_bytes K h off bs False s = cmos_bytes K h off bs' False s)"
  using assms
proof (induction bs bs' arbitrary: off s rule: list_induct2)
  case Nil
  show ?case by simp
next
  case (Cons b bs b' bs')
  let ?i = "portXfer K h (cmos_idxPort off) (cmos_idx off) True s"
  let ?x = "portXfer K h (cmos_idxPort off + 1) b False (snd ?i)"
  let ?x' = "portXfer K h (cmos_idxPort off + 1) b' False (snd ?i)"
  show ?case
  proof (cases "fst (fst ?x) = 0")
    case True
    then have "?x = ?x'" by (rule portXfer_read_indep(3))
    with Cons.IH [of "off + 1" "snd ?x"] True show ?thesis
      by (auto simp: split_def Let_def prod_eq_iff)
  next
    case False
    with portXfer_read_indep(1,2) [of K h "cmos_idxPort off + 1" b "snd ?i" b'] show ?thesis
      by (auto simp: split_def Let_def)
  qed
qed

lemma logs_port_read: "logs (xfer_ok W) s (snd (port_bytes K h port bs False s))"
proof (induction bs arbitrary: port s)
  case Nil
  show ?case by simp
next
  case (Cons b bs)
  show ?case
    using logs_portXfer_read [of W s K h port b] logs_trans [OF logs_portXfer_read Cons.IH]
    by (auto simp: split_def Let_def)
qed

lemma logs_port_any: "logs (\<lambda>_. True) s (snd (port_bytes K h port bs w s))"
proof (induction bs arbitrary: port s)
  case Nil
  show ?case by simp
next
  case (Cons b bs)
  have x: "logs (\<lambda>_. True) s (snd (portXfer K h port b w s))" by (rule logs_portXfer_any)
  show ?case using x logs_trans [OF x Cons.IH] by (auto simp: split_def Let_def)
qed

text \<open>Which CMOS port writes are made: an index below 80h, and data only when writing.\<close>

definition cmos_write_ok :: "bool \<Rightarrow> u64 \<Rightarrow> u8 \<Rightarrow> bool" where
  "cmos_write_ok w p v \<longleftrightarrow> (p = 0x70 \<or> p = 0x72) \<and> v < 0x80 \<or> w \<and> (p = 0x71 \<or> p = 0x73)"

lemma cmos_idx_bound: "cmos_idx off < 0x80"
proof -
  have "off AND 0x7F = take_bit 7 off"
    by (simp add: take_bit_eq_mask mask_eq_exp_minus_1)
  moreover have "take_bit 8 (take_bit 7 (unat off)) < 128"
    using take_bit_nat_less_exp [of 7 "unat off"] by simp
  ultimately show ?thesis
    by (simp add: cmos_idx_def cmos_consts word_less_nat_alt unsigned_ucast_eq unsigned_take_bit_eq)
qed

lemma cmos_ports:
  "cmos_write_ok w (ucast (cmos_idxPort off)) (cmos_idx off)"
  "cmos_write_ok True (ucast (cmos_idxPort off + 1)) v"
  using cmos_idx_bound [of off] by (auto simp: cmos_write_ok_def cmos_idxPort_def cmos_consts)

lemma logs_cmos_bytes: "logs (xfer_ok (cmos_write_ok w)) s (snd (cmos_bytes K h off bs w s))"
proof (induction bs arbitrary: off s)
  case Nil
  show ?case by simp
next
  case (Cons b bs)
  let ?P = "xfer_ok (cmos_write_ok w)"
  let ?i = "portXfer K h (cmos_idxPort off) (cmos_idx off) True s"
  let ?x = "portXfer K h (cmos_idxPort off + 1) b w (snd ?i)"
  have i: "logs ?P s (snd ?i)" by (rule logs_portXfer_write) (rule cmos_ports)
  have x: "logs ?P (snd ?i) (snd ?x)"
    by (cases w) (auto intro: logs_portXfer_read logs_portXfer_write simp: cmos_ports)
  show ?case
    using i logs_trans [OF i x] logs_trans [OF logs_trans [OF i x] Cons.IH]
    by (auto simp: split_def Let_def)
qed

section \<open>The contracts\<close>

lemma portAccess_cases:
  obtains (refused) s1 where "logs (\<lambda>ev. \<not> hw_write ev) s s1"
    and "\<And>buf w. portAccess K port len buf w s = ((- 1, buf), s1)"
  | (opened) h s1 where "portOpen K port len s = (Some h, s1)"
    and "\<And>buf w. length buf = unat len \<Longrightarrow> portAccess K port len buf w s =
      (fst (port_bytes K h port buf w s1), portClose K h (snd (port_bytes K h port buf w s1)))"
proof (cases "portOpen K port len s")
  case (Pair r s1)
  show thesis
  proof (cases r)
    case None
    with Pair have "logs (\<lambda>ev. \<not> hw_write ev) s s1" by (intro logs_portOpen_failed) auto
    then show thesis by (rule refused) (simp add: portAccess_def Pair None)
  next
    case (Some h)
    show thesis
      by (rule opened [of h s1])
        (simp_all add: portAccess_def Pair Some split_def Let_def blit_full prod_eq_iff)
  qed
qed

interpretation port_raw: raw_reader "\<lambda>port len buf s. portAccess K port len buf False s"
  "\<lambda>ev. \<not> hw_write ev" for K
proof
  fix a and n :: u32 and s and buf buf' :: "u8 list"
  assume len: "length buf = unat n"
  show "length (snd (fst (portAccess K a n buf False s))) = unat n"
    by (rule portAccess_cases [of s K a n]) (simp_all add: len)
  show "snd (portAccess K a n buf False s) = snd (portAccess K a n buf' False s) \<and>
      fst (fst (portAccess K a n buf False s)) = fst (fst (portAccess K a n buf' False s))"
    if len': "length buf' = unat n"
  proof (rule portAccess_cases [of s K a n])
    fix h s1 assume "\<And>buf w. length buf = unat n \<Longrightarrow> portAccess K a n buf w s =
      (fst (port_bytes K h a buf w s1), portClose K h (snd (port_bytes K h a buf w s1)))"
    with port_bytes_indep [of buf buf' K h a s1] show ?thesis by (simp add: len len')
  qed simp
  show "portAccess K a n buf False s = portAccess K a n buf' False s"
    if len': "length buf' = unat n" and "fst (fst (portAccess K a n buf False s)) = 0"
  proof (rule portAccess_cases [of s K a n])
    fix s1 assume "\<And>buf w. portAccess K a n buf w s = ((- 1, buf), s1)"
    with that show ?thesis by simp
  next
    fix h s1 assume eq: "\<And>buf w. length buf = unat n \<Longrightarrow> portAccess K a n buf w s =
      (fst (port_bytes K h a buf w s1), portClose K h (snd (port_bytes K h a buf w s1)))"
    have "fst (fst (port_bytes K h a buf False s1)) = 0"
      using that(2) unfolding eq [OF len] by simp
    then have "port_bytes K h a buf False s1 = port_bytes K h a buf' False s1"
      using port_bytes_indep [OF trans [OF len len' [symmetric]], of K h a s1] by blast
    then show ?thesis unfolding eq [OF len] eq [OF len'] by simp
  qed
  show "logs (\<lambda>ev. \<not> hw_write ev) s (snd (portAccess K a n buf False s))"
  proof (rule portAccess_cases [of s K a n])
    fix h s1 assume op: "portOpen K a n s = (Some h, s1)"
      and eq: "\<And>buf w. length buf = unat n \<Longrightarrow> portAccess K a n buf w s =
        (fst (port_bytes K h a buf w s1), portClose K h (snd (port_bytes K h a buf w s1)))"
    have "logs (\<lambda>ev. \<not> hw_write ev) s1 (snd (port_bytes K h a buf False s1))"
      by (rule logs_mono [OF logs_port_read [of "\<lambda>_ _. False"]]) (simp add: xfer_ok_def)
    then show ?thesis
      unfolding eq [OF len] snd_conv by (rule logs_port_session [OF op]) auto
  qed simp
qed

interpretation port_reader: filling_reader "portRead K" "\<lambda>ev. \<not> hw_write ev" for K
proof -
  have "portRead K = (\<lambda>port len buf s. fill_on_error (unat len) (portAccess K port len buf False s))"
    by (intro ext) (simp add: portRead_def)
  then show "filling_reader (portRead K) (\<lambda>ev. \<not> hw_write ev)"
    using port_raw.filled.filling_reader_axioms by simp
qed

interpretation port_writer: byte_writer "portWrite K" "\<lambda>_. True" for K
proof
  fix a and n :: u32 and s and buf :: "u8 list"
  assume len: "length buf = unat n"
  show "logs (\<lambda>_. True) s (snd (portWrite K a n buf s))"
  proof (rule portAccess_cases [of s K a n])
    fix h s1 assume op: "portOpen K a n s = (Some h, s1)"
      and "\<And>buf w. length buf = unat n \<Longrightarrow> portAccess K a n buf w s =
        (fst (port_bytes K h a buf w s1), portClose K h (snd (port_bytes K h a buf w s1)))"
    then show ?thesis
      using logs_port_session [OF op logs_port_any] len by (simp add: portWrite_def split_def Let_def)
  next
    fix s1 assume "logs (\<lambda>ev. \<not> hw_write ev) s s1"
      and "\<And>buf w. portAccess K a n buf w s = ((- 1, buf), s1)"
    then show ?thesis by (auto simp: portWrite_def intro: logs_mono)
  qed
qed

lemma cmosAccess_cases:
  obtains (refused) s1 where "logs (\<lambda>ev. \<not> hw_write ev) s s1"
    and "\<And>buf w. cmosAccess K addr len buf w s = ((- 1, buf), s1)"
  | (opened) h s1 where
      "portOpen K FDK_CMOS_ADDR (ucast (FDK_CMOS_EXT_DATA - FDK_CMOS_ADDR + 1)) s = (Some h, s1)"
    and "ucast addr + len \<le> FDK_CMOS_SIZE"
    and "\<And>buf w. length buf = unat len \<Longrightarrow> cmosAccess K addr len buf w s =
      (fst (cmos_bytes K h (ucast addr) buf w s1),
       portClose K h (snd (cmos_bytes K h (ucast addr) buf w s1)))"
proof (cases "ucast addr + len > FDK_CMOS_SIZE")
  case True
  then show thesis by (intro refused [of s]) (simp_all add: cmosAccess_def)
next
  case range: False
  obtain r s1 where op:
    "portOpen K FDK_CMOS_ADDR (ucast (FDK_CMOS_EXT_DATA - FDK_CMOS_ADDR + 1)) s = (r, s1)" by fastforce
  show thesis
  proof (cases r)
    case None
    with op have "logs (\<lambda>ev. \<not> hw_write ev) s s1" by (intro logs_portOpen_failed) auto
    then show thesis by (rule refused) (use range in \<open>simp add: cmosAccess_def op None\<close>)
  next
    case (Some h)
    show thesis
      by (rule opened [of h s1])
        (use range in \<open>simp_all add: cmosAccess_def op Some split_def Let_def blit_full prod_eq_iff leD\<close>)
  qed
qed

lemma logs_cmosAccess:
  assumes len: "length buf = unat n"
  shows "logs (xfer_ok (cmos_write_ok w)) s (snd (cmosAccess K a n buf w s))"
proof (rule cmosAccess_cases [of s K a n])
  fix s1 assume "logs (\<lambda>ev. \<not> hw_write ev) s s1"
    and "\<And>buf w. cmosAccess K a n buf w s = ((- 1, buf), s1)"
  then show ?thesis by (auto intro: logs_mono)
next
  fix h s1 assume op: "portOpen K FDK_CMOS_ADDR (ucast (FDK_CMOS_EXT_DATA - FDK_CMOS_ADDR + 1)) s = (Some h, s1)"
    and eq: "\<And>buf w. length buf = unat n \<Longrightarrow> cmosAccess K a n buf w s =
      (fst (cmos_bytes K h (ucast a) buf w s1), portClose K h (snd (cmos_bytes K h (ucast a) buf w s1)))"
  show ?thesis
    unfolding eq [OF len] snd_conv by (rule logs_port_session [OF op logs_cmos_bytes]) auto
qed

interpretation cmos_raw: raw_reader "\<lambda>addr len buf s. cmosAccess K addr len buf False s"
  "xfer_ok (cmos_write_ok False)" for K
proof
  fix a and n :: u32 and s and buf buf' :: "u8 list"
  assume len: "length buf = unat n"
  show "length (snd (fst (cmosAccess K a n buf False s))) = unat n"
    by (rule cmosAccess_cases [of s K a n]) (simp_all add: len)
  show "snd (cmosAccess K a n buf False s) = snd (cmosAccess K a n buf' False s) \<and>
      fst (fst (cmosAccess K a n buf False s)) = fst (fst (cmosAccess K a n buf' False s))"
    if len': "length buf' = unat n"
  proof (rule cmosAccess_cases [of s K a n])
    fix h s1 assume "\<And>buf w. length buf = unat n \<Longrightarrow> cmosAccess K a n buf w s =
      (fst (cmos_bytes K h (ucast a) buf w s1), portClose K h (snd (cmos_bytes K h (ucast a) buf w s1)))"
    with cmos_bytes_indep [of buf buf' K h "ucast a" s1] show ?thesis by (simp add: len len')
  qed simp
  show "cmosAccess K a n buf False s = cmosAccess K a n buf' False s"
    if len': "length buf' = unat n" and "fst (fst (cmosAccess K a n buf False s)) = 0"
  proof (rule cmosAccess_cases [of s K a n])
    fix s1 assume "\<And>buf w. cmosAccess K a n buf w s = ((- 1, buf), s1)"
    with that show ?thesis by simp
  next
    fix h s1 assume eq: "\<And>buf w. length buf = unat n \<Longrightarrow> cmosAccess K a n buf w s =
      (fst (cmos_bytes K h (ucast a) buf w s1), portClose K h (snd (cmos_bytes K h (ucast a) buf w s1)))"
    have "fst (fst (cmos_bytes K h (ucast a) buf False s1)) = 0"
      using that(2) unfolding eq [OF len] by simp
    then have "cmos_bytes K h (ucast a) buf False s1 = cmos_bytes K h (ucast a) buf' False s1"
      using cmos_bytes_indep [OF trans [OF len len' [symmetric]], of K h "ucast a" s1] by blast
    then show ?thesis unfolding eq [OF len] eq [OF len'] by simp
  qed
  show "logs (xfer_ok (cmos_write_ok False)) s (snd (cmosAccess K a n buf False s))"
    by (rule logs_cmosAccess [OF len])
qed

interpretation cmos_reader: filling_reader "cmosRead K" "xfer_ok (cmos_write_ok False)" for K
proof -
  have "cmosRead K = (\<lambda>addr len buf s. fill_on_error (unat len) (cmosAccess K addr len buf False s))"
    by (intro ext) (simp add: cmosRead_def)
  then show "filling_reader (cmosRead K) (xfer_ok (cmos_write_ok False))"
    using cmos_raw.filled.filling_reader_axioms by simp
qed

interpretation cmos_writer: byte_writer "cmosWrite K" "xfer_ok (cmos_write_ok True)" for K
proof
  fix a and n :: u32 and s and buf :: "u8 list"
  assume "length buf = unat n"
  then show "logs (xfer_ok (cmos_write_ok True)) s (snd (cmosWrite K a n buf s))"
    using logs_cmosAccess [of buf n True] by (simp add: cmosWrite_def split_def Let_def)
qed

end
