(* ===== verification/C_Text.thy ===== *)
theory C_Text
  imports Fdk_Prelude
begin

text \<open>
  The functions of the C standard library the sources call on text: the character classes of
  \<open><ctype.h>\<close> in the C locale, \<open>strtoull\<close>, \<open>strcspn\<close>, \<open>strstr\<close>, \<open>strcmp\<close>, \<open>snprintf\<close>
  truncation and the \<open>%X\<close> conversion, and \<open>qsort\<close>. A C string is the list of its characters
  before the terminating NUL.
\<close>

section \<open>Character classes\<close>

definition char_in :: "char \<Rightarrow> nat \<Rightarrow> nat \<Rightarrow> bool" where
  "char_in c lo hi \<longleftrightarrow> lo \<le> (of_char c :: nat) \<and> (of_char c :: nat) \<le> hi"

definition isspace :: "char \<Rightarrow> bool" where
  "isspace c \<longleftrightarrow> c = CHR '' '' \<or> char_in c 9 13"

definition isdigit :: "char \<Rightarrow> bool" where
  "isdigit c \<longleftrightarrow> char_in c 48 57"

definition isxdigit :: "char \<Rightarrow> bool" where
  "isxdigit c \<longleftrightarrow> isdigit c \<or> char_in c 65 70 \<or> char_in c 97 102"

text \<open>The value of a letter or digit in a base up to 16.\<close>

definition digit_val :: "char \<Rightarrow> nat option" where
  "digit_val c =
     (if isdigit c then Some ((of_char c :: nat) - 48)
      else if char_in c 65 70 then Some ((of_char c :: nat) - 55)
      else if char_in c 97 102 then Some ((of_char c :: nat) - 87)
      else None)"

definition digit_in :: "nat \<Rightarrow> char \<Rightarrow> bool" where
  "digit_in base c = (case digit_val c of None \<Rightarrow> False | Some d \<Rightarrow> d < base)"

lemma digit_val_bound: "digit_val c = Some d \<Longrightarrow> d < 16"
  by (auto simp: digit_val_def isdigit_def char_in_def split: if_splits)

lemma digit_in_16 [simp]: "digit_in 16 c \<longleftrightarrow> isxdigit c"
  by (auto simp: digit_in_def digit_val_def isxdigit_def isdigit_def char_in_def)

section \<open>strtoull\<close>

definition digits_value :: "nat \<Rightarrow> string \<Rightarrow> nat" where
  "digits_value base ds = foldl (\<lambda>n c. n * base + the (digit_val c)) 0 ds"

text \<open>The radix prefix: the base to use and the number of characters to skip.\<close>

definition radix_prefix :: "nat \<Rightarrow> string \<Rightarrow> nat \<times> nat" where
  "radix_prefix base s =
     (if (base = 0 \<or> base = 16) \<and> 3 \<le> length s \<and> s ! 0 = CHR ''0'' \<and>
         (s ! 1 = CHR ''x'' \<or> s ! 1 = CHR ''X'') \<and> isxdigit (s ! 2) then (16, 2)
      else if base = 0 then (if s \<noteq> [] \<and> hd s = CHR ''0'' then 8 else 10, 0)
      else (base, 0))"

definition sign_prefix :: "string \<Rightarrow> bool \<times> nat" where
  "sign_prefix s =
     (if s \<noteq> [] \<and> hd s = CHR ''-'' then (True, 1)
      else if s \<noteq> [] \<and> hd s = CHR ''+'' then (False, 1)
      else (False, 0))"

text \<open>
  \<open>strtoull s base\<close> is the value and the number of characters consumed (\<open>endptr - s\<close>): white
  space, a sign, a radix prefix, then the longest run of digits; nothing is consumed when there
  is no digit, a value that does not fit saturates, a minus sign negates modulo \<open>2^64\<close>.
\<close>

definition strtoull :: "string \<Rightarrow> nat \<Rightarrow> u64 \<times> nat" where
  "strtoull s base =
     (let ws = length (takeWhile isspace s);
          s1 = drop ws s;
          (neg, k1) = sign_prefix s1;
          s2 = drop k1 s1;
          (b, k2) = radix_prefix base s2;
          ds = takeWhile (digit_in b) (drop k2 s2);
          n = digits_value b ds
      in if ds = [] then (0, 0)
         else (if 2 ^ 64 \<le> n then - 1 else if neg then - word_of_nat n else word_of_nat n,
               ws + k1 + k2 + length ds))"

lemma digits_value_snoc:
  "digits_value base (ds @ [c]) = digits_value base ds * base + the (digit_val c)"
  by (simp add: digits_value_def)

lemma digits_value_bound:
  "\<forall>c \<in> set ds. digit_in base c \<Longrightarrow> digits_value base ds < base ^ length ds"
proof (induction ds rule: rev_induct)
  case Nil
  show ?case by (simp add: digits_value_def)
next
  case (snoc c ds)
  then have ih: "digits_value base ds < base ^ length ds" and c: "digit_in base c"
    by simp_all
  from c have "the (digit_val c) < base"
    by (auto simp: digit_in_def split: option.splits)
  moreover from ih have "(digits_value base ds + 1) * base \<le> base ^ length ds * base"
    by (intro mult_right_mono) auto
  ultimately show ?case by (simp add: digits_value_snoc algebra_simps)
qed

text \<open>A plain run of digits, up to 16 of them in base 16, is read exactly.\<close>

lemma strtoull_hex_digits:
  assumes "ds \<noteq> []" and "\<forall>c \<in> set ds. isxdigit c" and "length ds \<le> 16"
    and "rest = [] \<or> \<not> isxdigit (hd rest)" and "rest \<noteq> [] \<longrightarrow> hd rest \<notin> {CHR ''x'', CHR ''X''}"
  shows "strtoull (ds @ rest) 16 = (word_of_nat (digits_value 16 ds), length ds)"
proof -
  obtain d ds' where ds: "ds = d # ds'" using assms(1) by (cases ds) auto
  have d: "isxdigit d" using assms(2) ds by simp
  then have "\<not> isspace d"
    by (auto simp: isxdigit_def isspace_def isdigit_def char_in_def)
  then have ws: "takeWhile isspace (ds @ rest) = []" by (simp add: ds)
  have sg: "sign_prefix (ds @ rest) = (False, 0)"
    using d by (auto simp: sign_prefix_def ds isxdigit_def isdigit_def char_in_def)
  have nx: "\<not> isxdigit (CHR ''x'')" "\<not> isxdigit (CHR ''X'')"
    by (simp_all add: isxdigit_def isdigit_def char_in_def)
  have "(ds @ rest) ! 1 \<noteq> CHR ''x'' \<and> (ds @ rest) ! 1 \<noteq> CHR ''X''" if "3 \<le> length (ds @ rest)"
  proof (cases ds')
    case Nil
    with that assms(5) show ?thesis by (cases rest) (auto simp: ds)
  next
    case (Cons c cs)
    then have "isxdigit c" using assms(2) ds by simp
    then show ?thesis using nx Cons ds by auto
  qed
  then have rp: "radix_prefix 16 (ds @ rest) = (16, 0)"
    by (auto simp: radix_prefix_def)
  have tw: "takeWhile isxdigit (ds @ rest) = ds"
    using assms(2,4) by (cases rest) (auto simp: takeWhile_append2)
  have fun16: "digit_in 16 = isxdigit" by (rule ext) simp
  have "digits_value 16 ds < 16 ^ length ds"
    using assms(2) by (intro digits_value_bound) simp
  also have "(16::nat) ^ length ds \<le> 16 ^ 16"
    using assms(3) by (intro power_increasing) auto
  finally have "digits_value 16 ds < 2 ^ 64" by simp
  then show ?thesis
    using assms(1) by (simp add: strtoull_def ws sg rp tw fun16)
qed

section \<open>printf conversions\<close>

definition hex_digit :: "nat \<Rightarrow> char" where
  "hex_digit d = char_of (if d < 10 then 48 + d else 55 + d)"

fun hex_digits :: "nat \<Rightarrow> string" where
  "hex_digits n = (if n < 16 then [hex_digit n] else hex_digits (n div 16) @ [hex_digit (n mod 16)])"

declare hex_digits.simps [simp del]

text \<open>\<open>%p.pX\<close>: upper-case hexadecimal, at least \<open>p\<close> digits. (\<open>%p\<close> widths equal the precisions.)\<close>

definition fmt_X :: "nat \<Rightarrow> nat \<Rightarrow> string" where
  "fmt_X prec v =
     (let s = (if prec = 0 \<and> v = 0 then [] else hex_digits v)
      in replicate (prec - length s) (CHR ''0'') @ s)"

lemma length_hex_digits: "v < 16 ^ Suc k \<Longrightarrow> length (hex_digits v) \<le> Suc k"
proof (induction k arbitrary: v)
  case 0
  then show ?case by (simp add: hex_digits.simps)
next
  case (Suc k)
  from Suc.prems have "v div 16 < 16 ^ Suc k" by (simp add: less_mult_imp_div_less)
  with Suc.IH [of "v div 16"] show ?case by (simp add: hex_digits.simps [of v])
qed

lemma length_fmt_X: "v < 16 ^ p \<Longrightarrow> 0 < p \<Longrightarrow> length (fmt_X p v) = p"
  using length_hex_digits [of v "p - 1"] by (simp add: fmt_X_def Let_def)

lemma length_hex_digits_ge: "16 ^ k \<le> v \<Longrightarrow> k < length (hex_digits v)"
proof (induction k arbitrary: v)
  case 0
  then show ?case by (simp add: hex_digits.simps [of v])
next
  case (Suc k)
  from Suc.prems have "16 ^ k \<le> v div 16" by (simp add: less_eq_div_iff_mult_less_eq mult.commute)
  moreover have "(16::nat) \<le> 16 * 16 ^ k" by simp
  then have "16 \<le> v" using Suc.prems unfolding power_Suc by (rule le_trans)
  ultimately show ?case using Suc.IH [of "v div 16"] by (simp add: hex_digits.simps [of v])
qed

lemma digit_val_hex_digit: "d < 16 \<Longrightarrow> digit_val (hex_digit d) = Some d"
  by (auto simp: hex_digit_def digit_val_def isdigit_def char_in_def)

lemma isxdigit_hex_digit: "d < 16 \<Longrightarrow> isxdigit (hex_digit d)"
  using digit_val_hex_digit [of d] by (simp add: digit_in_def flip: digit_in_16)

lemma hex_digits_value:
  "digits_value 16 (hex_digits n) = n \<and> (\<forall>c \<in> set (hex_digits n). isxdigit c) \<and> hex_digits n \<noteq> []"
proof (induction n rule: hex_digits.induct)
  case (1 n)
  show ?case
  proof (cases "n < 16")
    case True
    then show ?thesis
      by (simp add: hex_digits.simps [of n] digits_value_def digit_val_hex_digit isxdigit_hex_digit)
  next
    case False
    with 1 show ?thesis
      by (simp add: hex_digits.simps [of n] digits_value_snoc digit_val_hex_digit
          isxdigit_hex_digit)
  qed
qed

text \<open>\<open>%x\<close> is the same in lower case.\<close>

definition tolower :: "char \<Rightarrow> char" where
  "tolower c = (if char_in c 65 90 then char_of ((of_char c :: nat) + 32) else c)"

definition fmt_x :: "nat \<Rightarrow> nat \<Rightarrow> string" where
  "fmt_x prec v = map tolower (fmt_X prec v)"

lemma digit_val_tolower: "isxdigit c \<Longrightarrow> digit_val (tolower c) = digit_val c"
  by (auto simp: tolower_def digit_val_def isxdigit_def isdigit_def char_in_def)

lemma isxdigit_tolower: "isxdigit c \<Longrightarrow> isxdigit (tolower c)"
  by (auto simp: tolower_def isxdigit_def isdigit_def char_in_def)

lemma digits_value_zeros: "digits_value base (replicate k (CHR ''0'') @ ds) = digits_value base ds"
proof -
  have "digit_val (CHR ''0'') = Some 0" by (simp add: digit_val_def isdigit_def char_in_def)
  then have "foldl (\<lambda>n c. n * base + the (digit_val c)) 0 (replicate k (CHR ''0'')) = 0"
    by (induction k) auto
  then show ?thesis by (simp add: digits_value_def)
qed

lemma digits_value_cong:
  "list_all2 (\<lambda>c d. digit_val c = digit_val d) cs ds \<Longrightarrow> digits_value base cs = digits_value base ds"
proof -
  have "foldl (\<lambda>n c. n * base + the (digit_val c)) a cs = foldl (\<lambda>n c. n * base + the (digit_val c)) a ds"
    if "list_all2 (\<lambda>c d. digit_val c = digit_val d) cs ds" for a
    using that by (induction cs ds arbitrary: a rule: list_all2_induct) auto
  then show "list_all2 (\<lambda>c d. digit_val c = digit_val d) cs ds \<Longrightarrow> ?thesis"
    by (simp add: digits_value_def)
qed

lemma fmt_X_digits:
  assumes "0 < p"
  shows "digits_value 16 (fmt_X p v) = v \<and> (\<forall>c \<in> set (fmt_X p v). isxdigit c) \<and> fmt_X p v \<noteq> []"
proof -
  have "isxdigit (CHR ''0'')" by (simp add: isxdigit_def isdigit_def char_in_def)
  then show ?thesis
    using hex_digits_value [of v] assms by (auto simp: fmt_X_def digits_value_zeros Let_def)
qed

lemma fmt_x_digits:
  assumes "0 < p"
  shows "digits_value 16 (fmt_x p v) = v \<and> (\<forall>c \<in> set (fmt_x p v). isxdigit c) \<and> fmt_x p v \<noteq> []"
proof -
  note d = fmt_X_digits [OF assms, of v]
  then have "list_all2 (\<lambda>c d. digit_val c = digit_val d) (fmt_x p v) (fmt_X p v)"
    by (simp add: fmt_x_def list_all2_map1 list_all2_same digit_val_tolower)
  then have "digits_value 16 (fmt_x p v) = digits_value 16 (fmt_X p v)" by (rule digits_value_cong)
  with d show ?thesis by (auto simp: fmt_x_def isxdigit_tolower)
qed

section \<open>sscanf\<close>

definition starts_with :: "string \<Rightarrow> string \<Rightarrow> bool" where
  "starts_with p s \<longleftrightarrow> take (length p) s = p"

text \<open>
  The \<open>%x\<close> conversion of \<open>sscanf\<close>: white space, a sign, \<open>0x\<close>, then at least one digit. The value is
  converted like \<open>strtoul\<close> and stored as an \<open>unsigned int\<close>; the unread text is returned with it.
\<close>

definition scan_x :: "string \<Rightarrow> (u32 \<times> string) option" where
  "scan_x s =
     (let s1 = dropWhile isspace s;
          (neg, k) = sign_prefix s1;
          s2 = drop k s1;
          s3 = (if starts_with ''0x'' s2 \<or> starts_with ''0X'' s2 then drop 2 s2 else s2);
          ds = takeWhile isxdigit s3;
          n = digits_value 16 ds;
          v = (if 2 ^ 64 \<le> n then - 1 else if neg then - word_of_nat n else word_of_nat n) :: u64
      in if ds = [] then None else Some (ucast v, drop (length ds) s3))"

text \<open>An ordinary character of the format must be the next one of the text.\<close>

fun scan_lit :: "char \<Rightarrow> string \<Rightarrow> string option" where
  "scan_lit c [] = None"
| "scan_lit c (d # ds) = (if d = c then Some ds else None)"

lemma scan_x_fmt_x:
  assumes "0 < p" and "rest = [] \<or> \<not> isxdigit (hd rest) \<and> hd rest \<noteq> CHR ''x'' \<and> hd rest \<noteq> CHR ''X''"
  shows "scan_x (fmt_x p (unat v) @ rest) = Some (v, rest)"
proof -
  let ?ds = "fmt_x p (unat v)"
  note ds = fmt_x_digits [OF assms(1), of "unat v"]
  have nx: "\<not> isxdigit (CHR ''x'')" "\<not> isxdigit (CHR ''X'')"
    by (simp_all add: isxdigit_def isdigit_def char_in_def)
  obtain d ds' where e: "?ds = d # ds'" using ds by (cases ?ds) auto
  have d: "isxdigit d" using ds e by simp
  then have sp: "\<not> isspace d" by (auto simp: isxdigit_def isspace_def isdigit_def char_in_def)
  have dw: "dropWhile isspace (?ds @ rest) = ?ds @ rest" using sp by (simp add: e)
  have sg: "sign_prefix (?ds @ rest) = (False, 0)"
    using d by (auto simp: sign_prefix_def e isxdigit_def isdigit_def char_in_def)
  have px: "\<not> starts_with ''0x'' (?ds @ rest) \<and> \<not> starts_with ''0X'' (?ds @ rest)"
  proof (cases ds')
    case Nil
    with assms(2) e show ?thesis by (cases rest) (auto simp: starts_with_def)
  next
    case (Cons c cs)
    then have "isxdigit c" using ds e by simp
    with nx Cons e show ?thesis by (auto simp: starts_with_def)
  qed
  have tw: "takeWhile isxdigit (?ds @ rest) = ?ds"
    using ds assms(2) by (cases rest) (auto simp: takeWhile_append2)
  have "unat v < 2 ^ 64" using unsigned_less [of v, where ?'a = nat] by simp
  moreover have "ucast (word_of_nat (unat v) :: u64) = v"
    by simp (rule ucast_up_ucast_id, simp add: is_up)
  ultimately show ?thesis
    using ds dw by (simp add: scan_x_def Let_def sg px tw)
qed

text \<open>\<open>snprintf (buf, len, ...)\<close> stores at most \<open>len - 1\<close> characters.\<close>

definition snprintf_text :: "nat \<Rightarrow> string \<Rightarrow> string" where
  "snprintf_text len s = take (len - 1) s"

text \<open>\<open>atoi\<close>: white space, a sign and decimal digits.\<close>

definition atoi :: "string \<Rightarrow> s32" where
  "atoi s =
     (let s1 = dropWhile isspace s;
          (neg, k) = sign_prefix s1;
          v = int (digits_value 10 (takeWhile isdigit (drop k s1)))
      in if neg then - v else v)"

section \<open>String comparison and search\<close>

fun strcmp :: "string \<Rightarrow> string \<Rightarrow> s32" where
  "strcmp [] [] = 0"
| "strcmp [] (c # cs) = - 1"
| "strcmp (c # cs) [] = 1"
| "strcmp (c # cs) (d # ds) =
     (if (of_char c :: nat) < of_char d then - 1
      else if (of_char d :: nat) < of_char c then 1 else strcmp cs ds)"

lemma strcmp_refl [simp]: "strcmp s s = 0"
  by (induction s) auto

lemma strcmp_eq_0 [simp]: "strcmp s t = 0 \<longleftrightarrow> s = t"
  by (induction s t rule: strcmp.induct) auto

lemma strcmp_trans: "strcmp a b < 0 \<Longrightarrow> strcmp b c < 0 \<Longrightarrow> strcmp a c < 0"
proof (induction a c arbitrary: b rule: strcmp.induct)
  case (1 b)
  then show ?case by (cases b) auto
next
  case (2 c cs)
  then show ?case by simp
next
  case (3 c cs)
  then show ?case by (cases b) auto
next
  case (4 c cs d ds)
  then show ?case by (cases b) (auto split: if_splits)
qed

lemma strcmp_swap: "strcmp a b < 0 \<longleftrightarrow> 0 < strcmp b a"
  by (induction a b rule: strcmp.induct) auto

text \<open>\<open>strstr\<close>: the text from the first occurrence on.\<close>

fun strstr :: "string \<Rightarrow> string \<Rightarrow> string option" where
  "strstr [] p = (if p = [] then Some [] else None)"
| "strstr (c # cs) p = (if starts_with p (c # cs) then Some (c # cs) else strstr cs p)"

definition strcspn :: "string \<Rightarrow> string \<Rightarrow> nat" where
  "strcspn s reject = length (takeWhile (\<lambda>c. c \<notin> set reject) s)"

section \<open>fgets\<close>

text \<open>
  \<open>fgets (line, n, fp)\<close> on the unread text of a file: at most \<open>n - 1\<close> characters, up to and
  including the first newline; \<open>None\<close> at the end of the file.
\<close>

definition fgets :: "nat \<Rightarrow> string \<Rightarrow> (string \<times> string) option" where
  "fgets n txt =
     (if txt = [] then None
      else let pre = takeWhile (\<lambda>c. c \<noteq> CHR 0x0A) txt;
               l = take (n - 1) (take (Suc (length pre)) txt)
           in Some (l, drop (length l) txt))"

end
