(* ===== verification/Lib_Disk.thy ===== *)
theory Lib_Disk
  imports Hw_Access Sim_Machine C_Text
begin

text \<open>
  Disk access, \<open>src_fdkd/linux/libdisk.c\<close>: choosing the default disk from \<open>/sys/block\<close>, and reading
  and writing byte ranges of a block device.
\<close>

section \<open>The default disk\<close>

definition FDK_SYSFS_BLOCK :: string where "FDK_SYSFS_BLOCK = ''/sys/block''"

text \<open>
  One round of the directory loop. The first test looks at the first character, which of an empty
  name is the NUL; the buffers \<open>link\<close> and \<open>best\<close> hold 511 and 255 characters.
\<close>

definition consider_disk :: "'w os \<Rightarrow> 'w \<Rightarrow> string \<Rightarrow> string \<Rightarrow> string" where
  "consider_disk K e best name =
     (if name \<noteq> [] \<and> hd name = CHR ''.'' then best
      else if \<not> os_access K (snprintf_text 512 (FDK_SYSFS_BLOCK @ ''/'' @ name @ ''/device'')) e then best
      else if take 2 name = ''sr'' \<or> take 2 name = ''fd'' then best
      else if best = [] \<or> strcmp name best < 0 then snprintf_text 256 name
      else best)"

definition diskFindDefault :: "'w os \<Rightarrow> nat \<Rightarrow> 'w sys \<Rightarrow> string option" where
  "diskFindDefault K len s =
     (case os_dir K FDK_SYSFS_BLOCK (env s) of
        None \<Rightarrow> None
      | Some ents \<Rightarrow>
          (let best = foldl (consider_disk K (env s)) [] ents
           in if best = [] then None else Some (snprintf_text len (''/dev/'' @ best))))"

section \<open>Reading and writing\<close>

definition diskRead ::
  "'w os \<Rightarrow> string option \<Rightarrow> u64 \<Rightarrow> u32 \<Rightarrow> u8 list \<Rightarrow> 'w sys \<Rightarrow> (s32 \<times> u8 list) \<times> 'w sys" where
  "diskRead K dev addr len buf s =
     (let buf0 = blit 0 (replicate (unat len) 255) buf
      in case dev of
          None \<Rightarrow> ((- 1, buf0), s)
        | Some path \<Rightarrow>
            (if len = 0 then ((- 1, buf0), s)
             else
               let (fd, s1) = sys_open K path O_RDONLY s
               in if fd < 0 then ((- 1, buf0), s1)
                  else
                    let ((n, buf1), s2) = sys_pread K fd (unat len) addr buf0 s1;
                        s3 = sys_close K fd s2
                    in ((if n = int (unat len) then 0 else - 1, buf1), s3)))"

definition diskWrite ::
  "'w os \<Rightarrow> string option \<Rightarrow> u64 \<Rightarrow> u32 \<Rightarrow> u8 list \<Rightarrow> 'w sys \<Rightarrow> s32 \<times> 'w sys" where
  "diskWrite K dev addr len buf s =
     (case dev of
        None \<Rightarrow> (- 1, s)
      | Some path \<Rightarrow>
          (if len = 0 then (- 1, s)
           else
             let (fd, s1) = sys_open K path O_WRONLY s
             in if fd < 0 then (- 1, s1)
                else
                  let (n, s2) = sys_pwrite K fd (take (unat len) buf) addr s1;
                      (n', s3) = (if n = int (unat len)
                        then (let (r, s3) = sys_fsync K fd s2 in (if r \<noteq> 0 then - 1 else n, s3))
                        else (n, s2));
                      s4 = sys_close K fd s3
                  in (if n' = int (unat len) then 0 else - 1, s4)))"

section \<open>The contracts\<close>

text \<open>A read request never writes and opens the device read-only.\<close>

definition disk_read_ev :: "sysev \<Rightarrow> bool" where
  "disk_read_ev ev \<longleftrightarrow> \<not> hw_write ev \<and> (\<forall>p f fd. ev = EvOpen p f fd \<longrightarrow> f = O_RDONLY)"

lemma diskRead_cases:
  obtains (refused) s1 where "logs disk_read_ev s s1"
    and "\<And>buf. length buf = unat len \<Longrightarrow>
      diskRead K dev addr len buf s = ((- 1, replicate (unat len) 255), s1)"
  | (opened) path fd s1 where "dev = Some path" and "sys_open K path O_RDONLY s = (fd, s1)" and "0 \<le> fd"
    and "\<And>buf. length buf = unat len \<Longrightarrow> diskRead K dev addr len buf s =
      (let ((n, buf1), s2) = sys_pread K fd (unat len) addr (replicate (unat len) 255) s1
       in ((if n = int (unat len) then 0 else - 1, buf1), sys_close K fd s2))"
proof (cases "dev = None \<or> len = 0")
  case True
  then show thesis
    by (intro refused [of s]) (auto simp: diskRead_def blit_full Let_def split: option.split)
next
  case False
  then obtain path where dev: "dev = Some path" by auto
  obtain fd s1 where op: "sys_open K path O_RDONLY s = (fd, s1)" by fastforce
  show thesis
  proof (cases "fd < 0")
    case True
    have "logs disk_read_ev s s1"
      by (rule logs_open_failed [OF op True]) (simp add: disk_read_ev_def)
    then show thesis
      by (rule refused) (use False True in \<open>auto simp: diskRead_def blit_full Let_def dev op\<close>)
  next
    case fd: False
    show thesis
      by (rule opened [OF dev op]) (use False fd in \<open>auto simp: diskRead_def blit_full Let_def dev op\<close>)
  qed
qed

interpretation disk_reader: byte_reader "diskRead K dev" disk_read_ev for K dev
proof
  fix a and n :: u32 and s and buf buf' :: "u8 list"
  assume len: "length buf = unat n"
  show "length (snd (fst (diskRead K dev a n buf s))) = unat n"
    by (rule diskRead_cases [of s n K dev a]) (simp_all add: len split_def Let_def length_pread)
  show "diskRead K dev a n buf s = diskRead K dev a n buf' s" if "length buf' = unat n"
    by (rule diskRead_cases [of s n K dev a]) (simp_all add: len that)
  show "logs disk_read_ev s (snd (diskRead K dev a n buf s))"
  proof (rule diskRead_cases [of s n K dev a])
    fix path fd s1 assume op: "sys_open K path O_RDONLY s = (fd, s1)" "0 \<le> fd"
      and eq: "\<And>buf. length buf = unat n \<Longrightarrow> diskRead K dev a n buf s =
        (let ((m, buf1), s2) = sys_pread K fd (unat n) a (replicate (unat n) 255) s1
         in ((if m = int (unat n) then 0 else - 1, buf1), sys_close K fd s2))"
    have "logs disk_read_ev s1 (snd (sys_pread K fd (unat n) a (replicate (unat n) 255) s1))"
      by (rule logs_call) (simp add: disk_read_ev_def)
    from logs_open_close [OF op this] show ?thesis
      unfolding eq [OF len] by (simp add: split_def Let_def disk_read_ev_def)
  qed (simp add: len)
qed

interpretation disk_writer: byte_writer "diskWrite K dev" "\<lambda>_. True" for K dev
proof
  fix a and n :: u32 and s and buf :: "u8 list"
  show "logs (\<lambda>_. True) s (snd (diskWrite K dev a n buf s))"
  proof (cases "dev = None \<or> n = 0")
    case True
    then show ?thesis by (auto simp: diskWrite_def split: option.split)
  next
    case False
    then obtain path where dev: "dev = Some path" by auto
    obtain fd s1 where op: "sys_open K path O_WRONLY s = (fd, s1)" by fastforce
    let ?w = "sys_pwrite K fd (take (unat n) buf) a s1"
    have w: "logs (\<lambda>_. True) s1 (snd ?w)" by (rule logs_call) simp
    have f: "logs (\<lambda>_. True) s1 (snd (sys_fsync K fd (snd ?w)))"
      by (rule logs_trans [OF w logs_call(3)]) simp
    show ?thesis
    proof (cases "fd < 0")
      case True
      then show ?thesis
        using logs_open_failed [OF op] False by (simp add: diskWrite_def dev op)
    next
      case fd: False
      then show ?thesis
        using logs_open_close [OF op _ w] logs_open_close [OF op _ f] False
        by (simp add: diskWrite_def dev op split_def Let_def)
    qed
  qed
qed

section \<open>Properties\<close>

text \<open>
  C25: a disk write reports success only after the whole range has been written and flushed: the
  calls made are then exactly open for writing, write all bytes at the offset, \<open>fsync\<close>, close, and
  the kernel confirmed each of them.
\<close>

theorem diskWrite_success_is_durable:
  assumes "fst (diskWrite K dev addr len buf s) = 0" and "length buf = unat len"
  shows "\<exists>path fd. dev = Some path \<and> 0 \<le> fd \<and> 0 < len \<and>
    emitted s (snd (diskWrite K dev addr len buf s))
      [EvOpen path O_WRONLY fd, EvPwrite fd buf addr, EvFsync fd, EvClose fd] \<and>
    (let e = snd (os_open K path O_WRONLY (env s))
     in fst (os_pwrite K fd buf addr e) = int (unat len) \<and>
        fst (os_fsync K fd (snd (os_pwrite K fd buf addr e))) = 0)"
proof -
  from assms(1) obtain path where dev: "dev = Some path" and n0: "len \<noteq> 0"
    by (auto simp: diskWrite_def split: option.splits if_splits)
  obtain fd s1 where op: "sys_open K path O_WRONLY s = (fd, s1)" by fastforce
  obtain n s2 where pw: "sys_pwrite K fd buf addr s1 = (n, s2)" by fastforce
  obtain r s3 where fs: "sys_fsync K fd s2 = (r, s3)" by fastforce
  have pos: "- 1 \<noteq> uint len" "uint len \<noteq> - 1" using uint_ge_0 [of len] by linarith+
  from assms n0 op pw fs pos have fd: "0 \<le> fd" and n: "n = int (unat len)" and r: "r = 0"
    and res: "snd (diskWrite K dev addr len buf s) = sys_close K fd s3"
    by (auto simp: diskWrite_def dev split: if_splits)
  have "emitted s (sys_close K fd s3)
      [EvOpen path O_WRONLY fd, EvPwrite fd buf addr, EvFsync fd, EvClose fd]"
    using op pw fs by (auto simp: sys_defs emitted_def split: prod.splits)
  moreover have "env s1 = snd (os_open K path O_WRONLY (env s))"
    using op by (auto simp: sys_open_def split: prod.splits)
  moreover have "fst (os_pwrite K fd buf addr (env s1)) = int (unat len)"
    and "env s2 = snd (os_pwrite K fd buf addr (env s1))"
    using pw n by (auto simp: sys_pwrite_def split: prod.splits)
  moreover have "fst (os_fsync K fd (env s2)) = 0"
    using fs r by (auto simp: sys_fsync_def split: prod.splits)
  moreover have "0 < len" using n0 by (simp add: word_gt_0)
  ultimately show ?thesis using dev fd res by auto
qed

theorem diskWrite_success_is_durable_witness:
  "\<exists>path fd. Some ''/dev/sda'' = Some path \<and> 0 \<le> fd \<and> 0 < (2 :: u32) \<and>
    emitted sim_start (snd (diskWrite sim_os (Some ''/dev/sda'') 1 2 [7, 8] sim_start))
      [EvOpen path O_WRONLY fd, EvPwrite fd [7, 8] 1, EvFsync fd, EvClose fd] \<and>
    (let e = snd (os_open sim_os path O_WRONLY (env sim_start))
     in fst (os_pwrite sim_os fd [7, 8] 1 e) = int (unat (2 :: u32)) \<and>
        fst (os_fsync sim_os fd (snd (os_pwrite sim_os fd [7, 8] 1 e))) = 0)"
  by (rule diskWrite_success_is_durable) (simp_all add: diskWrite_def sys_defs sim_defs)

text \<open>An entry that may be the default disk: a block device with a \<open>device\<close> link, not removable.\<close>

definition eligible_disk :: "'w os \<Rightarrow> 'w \<Rightarrow> string \<Rightarrow> bool" where
  "eligible_disk K e name \<longleftrightarrow> (name = [] \<or> hd name \<noteq> CHR ''.'') \<and>
     os_access K (snprintf_text 512 (FDK_SYSFS_BLOCK @ ''/'' @ name @ ''/device'')) e \<and>
     take 2 name \<noteq> ''sr'' \<and> take 2 name \<noteq> ''fd''"

lemma consider_disk_eq:
  "length name < 256 \<Longrightarrow> consider_disk K e best name =
    (if eligible_disk K e name \<and> (best = [] \<or> strcmp name best < 0) then name else best)"
  by (auto simp: consider_disk_def eligible_disk_def snprintf_text_def)

lemma best_disk:
  assumes "\<forall>d \<in> set ents. d \<noteq> [] \<and> length d < 256" and "b = foldl (consider_disk K e) [] ents"
  shows "(b = [] \<longleftrightarrow> (\<forall>d \<in> set ents. \<not> eligible_disk K e d)) \<and>
    (b \<noteq> [] \<longrightarrow> b \<in> set ents \<and> eligible_disk K e b \<and>
      (\<forall>d \<in> set ents. eligible_disk K e d \<longrightarrow> \<not> strcmp d b < 0))"
  using assms(1) unfolding assms(2)
proof (induction ents rule: rev_induct)
  case Nil
  show ?case by simp
next
  case (snoc d ents)
  let ?b = "foldl (consider_disk K e) [] ents"
  from snoc have ih: "(?b = [] \<longleftrightarrow> (\<forall>d \<in> set ents. \<not> eligible_disk K e d)) \<and>
    (?b \<noteq> [] \<longrightarrow> ?b \<in> set ents \<and> eligible_disk K e ?b \<and>
      (\<forall>d \<in> set ents. eligible_disk K e d \<longrightarrow> \<not> strcmp d ?b < 0))" and d: "d \<noteq> []" "length d < 256"
    by auto
  show ?case
  proof (cases "eligible_disk K e d \<and> (?b = [] \<or> strcmp d ?b < 0)")
    case True
    have "\<not> strcmp x d < 0" if "x \<in> set ents" "eligible_disk K e x" for x
    proof
      assume "strcmp x d < 0"
      moreover from that ih True have "strcmp d ?b < 0" by auto
      ultimately have "strcmp x ?b < 0" by (rule strcmp_trans)
      with that ih show False by auto
    qed
    with True d show ?thesis by (auto simp: consider_disk_eq)
  next
    case False
    with ih d show ?thesis by (auto simp: consider_disk_eq)
  qed
qed

text \<open>
  \<open>diskFindDefault\<close> answers the alphabetically first eligible entry of \<open>/sys/block\<close>, as a path
  under \<open>/dev\<close>, and fails exactly when no entry is eligible.
\<close>

theorem diskFindDefault_first:
  assumes "os_dir K FDK_SYSFS_BLOCK (env s) = Some ents"
    and "\<forall>d \<in> set ents. d \<noteq> [] \<and> length d < 256 \<and> length d + 5 < len"
  shows "(diskFindDefault K len s = None \<longleftrightarrow> (\<forall>d \<in> set ents. \<not> eligible_disk K (env s) d)) \<and>
    (\<forall>p. diskFindDefault K len s = Some p \<longrightarrow> (\<exists>b \<in> set ents. p = ''/dev/'' @ b \<and>
      eligible_disk K (env s) b \<and>
      (\<forall>d \<in> set ents. eligible_disk K (env s) d \<longrightarrow> \<not> strcmp d b < 0)))"
proof -
  let ?b = "foldl (consider_disk K (env s)) [] ents"
  have bd: "(?b = [] \<longleftrightarrow> (\<forall>d \<in> set ents. \<not> eligible_disk K (env s) d)) \<and>
    (?b \<noteq> [] \<longrightarrow> ?b \<in> set ents \<and> eligible_disk K (env s) ?b \<and>
      (\<forall>d \<in> set ents. eligible_disk K (env s) d \<longrightarrow> \<not> strcmp d ?b < 0))"
    using assms(2) by (intro best_disk [OF _ refl]) auto
  moreover from bd assms(2) have "snprintf_text len (''/dev/'' @ ?b) = ''/dev/'' @ ?b" if "?b \<noteq> []"
    using that by (auto simp: snprintf_text_def)
  ultimately show ?thesis using assms(1) by (auto simp: diskFindDefault_def Let_def)
qed

text \<open>A machine with three block devices, one of them virtual and one optical.\<close>

definition block_os :: "sim os" where
  "block_os = sim_os\<lparr>os_dir := (\<lambda>path e. Some [''sr0'', ''vda'', ''loop0'', ''sda'']),
     os_access := (\<lambda>path e. path \<noteq> ''/sys/block/loop0/device'')\<rparr>"

theorem diskFindDefault_first_witness: "diskFindDefault block_os 256 sim_start = Some ''/dev/sda''"
proof -
  have "os_dir block_os FDK_SYSFS_BLOCK (env sim_start) = Some [''sr0'', ''vda'', ''loop0'', ''sda'']"
    by (simp add: block_os_def)
  from diskFindDefault_first [OF this, of 256]
  have "(diskFindDefault block_os 256 sim_start = None \<longleftrightarrow>
      (\<forall>d \<in> {''sr0'', ''vda'', ''loop0'', ''sda''}. \<not> eligible_disk block_os (env sim_start) d))" by simp
  moreover have "diskFindDefault block_os 256 sim_start = Some ''/dev/sda''"
    by (simp add: diskFindDefault_def block_os_def consider_disk_def FDK_SYSFS_BLOCK_def snprintf_text_def)
  ultimately show ?thesis by simp
qed

end
