(* ===== verification/C_Sort.thy ===== *)
theory C_Sort
  imports Fdk_Prelude
begin

text \<open>
  The contract of \<open>qsort\<close> from \<open><stdlib.h>\<close>, which the two listing back-ends rely on, and a
  stable sort that meets it. The C standard leaves the order of elements that compare equal
  open; the contract says nothing about it, and \<open>result_unique\<close> shows that it does not matter
  where the compared keys are distinct.
\<close>

definition comparator :: "('a \<Rightarrow> 'a \<Rightarrow> s32) \<Rightarrow> bool" where
  "comparator cmp \<longleftrightarrow>
     (\<forall>x y. cmp x y \<le> 0 \<or> cmp y x \<le> 0) \<and> (\<forall>x y z. cmp x y \<le> 0 \<longrightarrow> cmp y z \<le> 0 \<longrightarrow> cmp x z \<le> 0)"

text \<open>The idiom \<open>(x > y) - (x < y)\<close> of both comparison functions.\<close>

definition cmp_key :: "('a \<Rightarrow> 'k::linorder) \<Rightarrow> 'a \<Rightarrow> 'a \<Rightarrow> s32" where
  "cmp_key f x y = of_bool (f x > f y) - of_bool (f x < f y)"

lemma cmp_key_le [simp]: "cmp_key f x y \<le> 0 \<longleftrightarrow> f x \<le> f y"
  by (auto simp: cmp_key_def)

lemma comparator_cmp_key: "comparator (cmp_key f)"
  by (auto simp: comparator_def)

section \<open>The contract\<close>

locale qsort_contract =
  fixes qs :: "('a \<Rightarrow> 'a \<Rightarrow> s32) \<Rightarrow> 'a list \<Rightarrow> 'a list"
  assumes qs_mset: "mset (qs cmp xs) = mset xs"
    and qs_sorted: "comparator cmp \<Longrightarrow> sorted_wrt (\<lambda>x y. cmp x y \<le> 0) (qs cmp xs)"
begin

lemma qs_set: "set (qs cmp xs) = set xs"
  by (metis qs_mset set_mset_mset)

lemma qs_length: "length (qs cmp xs) = length xs"
  by (metis qs_mset size_mset)

lemma qs_distinct: "distinct (qs cmp xs) \<longleftrightarrow> distinct xs"
  by (metis qs_mset mset_eq_imp_distinct_iff)

lemma qs_key_sorted: "sorted (map f (qs (cmp_key f) xs))"
  using qs_sorted [OF comparator_cmp_key] by (simp add: sorted_map)

lemma result_unique:
  assumes "inj_on f (set xs)" and "mset ys = mset xs" and "sorted (map f ys)"
  shows "qs (cmp_key f) xs = ys"
proof -
  have "mset (map f (qs (cmp_key f) xs)) = mset (map f ys)"
    by (simp add: qs_mset assms(2))
  then have "map f (qs (cmp_key f) xs) = map f ys"
    by (metis assms(3) qs_key_sorted properties_for_sort)
  moreover have "set ys = set xs" by (metis assms(2) set_mset_mset)
  ultimately show ?thesis
    using assms(1) by (metis inj_on_map_eq_map qs_set Un_absorb)
qed

end

section \<open>An implementation\<close>

fun insert_by :: "('a \<Rightarrow> 'a \<Rightarrow> s32) \<Rightarrow> 'a \<Rightarrow> 'a list \<Rightarrow> 'a list" where
  "insert_by cmp x [] = [x]"
| "insert_by cmp x (y # ys) = (if cmp x y \<le> 0 then x # y # ys else y # insert_by cmp x ys)"

fun qsort :: "('a \<Rightarrow> 'a \<Rightarrow> s32) \<Rightarrow> 'a list \<Rightarrow> 'a list" where
  "qsort cmp [] = []"
| "qsort cmp (x # xs) = insert_by cmp x (qsort cmp xs)"

lemma mset_insert_by: "mset (insert_by cmp x xs) = add_mset x (mset xs)"
  by (induction xs) auto

lemma set_insert_by: "set (insert_by cmp x xs) = insert x (set xs)"
  by (induction xs) auto

lemma sorted_insert_by:
  assumes "comparator cmp" and "sorted_wrt (\<lambda>x y. cmp x y \<le> 0) xs"
  shows "sorted_wrt (\<lambda>x y. cmp x y \<le> 0) (insert_by cmp x xs)"
  using assms(2)
proof (induction xs)
  case Nil
  show ?case by simp
next
  case (Cons y ys)
  then show ?case
    using assms(1) by (auto simp: set_insert_by comparator_def)
qed

interpretation sorting: qsort_contract qsort
proof
  fix cmp :: "'a \<Rightarrow> 'a \<Rightarrow> s32" and xs
  show "mset (qsort cmp xs) = mset xs"
    by (induction xs) (auto simp: mset_insert_by)
  show "sorted_wrt (\<lambda>x y. cmp x y \<le> 0) (qsort cmp xs)" if "comparator cmp"
    by (induction xs) (auto simp: sorted_insert_by that)
qed

end
