(* ===== verification/Lib_E820.thy ===== *)
theory Lib_E820
  imports Hw_Access Packet_Format C_Sort C_Text Sim_Machine
begin

text \<open>
  The firmware memory map, \<open>src_fdkd/linux/libe820.c\<close>: the entries of \<open>/sys/firmware/memmap\<close> are
  read one attribute file at a time, turned into E820 records and sorted by base address.
\<close>

section \<open>Reading one entry\<close>

definition FDK_FIRMWARE_MEMMAP :: string where "FDK_FIRMWARE_MEMMAP = ''/sys/firmware/memmap''"

definition FDK_E820_RAM :: u32 where "FDK_E820_RAM = 1"
definition FDK_E820_RESERVED :: u32 where "FDK_E820_RESERVED = 2"
definition FDK_E820_ACPI :: u32 where "FDK_E820_ACPI = 3"
definition FDK_E820_NVS :: u32 where "FDK_E820_NVS = 4"
definition FDK_E820_UNUSABLE :: u32 where "FDK_E820_UNUSABLE = 5"
definition FDK_E820_PMEM :: u32 where "FDK_E820_PMEM = 7"
definition FDK_E820_SOFT_RESERVED :: u32 where "FDK_E820_SOFT_RESERVED = 0xEFFFFFFF"

definition kE820Types :: "(string \<times> u32) list" where
  "kE820Types =
     [(''System RAM'', FDK_E820_RAM),
      (''Reserved'', FDK_E820_RESERVED),
      (''ACPI Tables'', FDK_E820_ACPI),
      (''ACPI Non-volatile Storage'', FDK_E820_NVS),
      (''Unusable memory'', FDK_E820_UNUSABLE),
      (''Persistent Memory'', FDK_E820_PMEM),
      (''Soft Reserved'', FDK_E820_SOFT_RESERVED)]"

definition readAttr :: "'w os \<Rightarrow> 'w \<Rightarrow> string \<Rightarrow> string \<Rightarrow> nat \<Rightarrow> string option" where
  "readAttr K e entry attr len =
     (let path = snprintf_text 256 (FDK_FIRMWARE_MEMMAP @ ''/'' @ entry @ ''/'' @ attr)
      in case os_file K path e of
          None \<Rightarrow> None
        | Some txt \<Rightarrow>
            (case fgets len txt of
               None \<Rightarrow> None
             | Some (buf, rest) \<Rightarrow> Some (take (strcspn buf [CHR 0x0A]) buf)))"

definition typeFromName :: "string \<Rightarrow> u32" where
  "typeFromName name =
     (case map_of kE820Types name of Some t \<Rightarrow> t | None \<Rightarrow> FDK_E820_RESERVED)"

definition compareRecord :: "fdkE820record_t \<Rightarrow> fdkE820record_t \<Rightarrow> s32" where
  "compareRecord = cmp_key er_baseAddr"

text \<open>The body of the directory loop: the record of an entry, or nothing when it is skipped.\<close>

definition e820_entry :: "'w os \<Rightarrow> 'w \<Rightarrow> string \<Rightarrow> fdkE820record_t option" where
  "e820_entry K e name =
     (if name \<noteq> [] \<and> hd name = CHR ''.'' then None
      else case readAttr K e name ''start'' 32 of
          None \<Rightarrow> None
        | Some start \<Rightarrow>
            (case readAttr K e name ''end'' 32 of
               None \<Rightarrow> None
             | Some en \<Rightarrow>
                 (case readAttr K e name ''type'' 64 of
                    None \<Rightarrow> None
                  | Some ty \<Rightarrow>
                      (let s = fst (strtoull start 0); t = fst (strtoull en 0)
                       in if t < s then None
                          else Some \<lparr>er_baseAddr = s, er_length = t - s + 1,
                                 er_type = typeFromName ty, er_attr = 0\<rparr>))))"

text \<open>The loop: it stops at the end of the directory, or before the next entry once \<open>limit\<close> records are stored.\<close>

fun e820_loop :: "'w os \<Rightarrow> 'w \<Rightarrow> nat \<Rightarrow> fdkE820record_t list \<Rightarrow> string list \<Rightarrow> fdkE820record_t list" where
  "e820_loop K e limit recs [] = recs"
| "e820_loop K e limit recs (name # names) =
     (if length recs < limit then
        (case e820_entry K e name of
           None \<Rightarrow> e820_loop K e limit recs names
         | Some r \<Rightarrow> e820_loop K e limit (recs @ [r]) names)
      else recs)"

definition e820ReadMap :: "'w os \<Rightarrow> u32 \<Rightarrow> 'w sys \<Rightarrow> fdkE820record_t list" where
  "e820ReadMap K limit s =
     (case os_dir K FDK_FIRMWARE_MEMMAP (env s) of
        None \<Rightarrow> []
      | Some names \<Rightarrow> qsort compareRecord (e820_loop K (env s) (unat limit) [] names))"

section \<open>The loop collects the first valid entries\<close>

definition e820_valid :: "'w os \<Rightarrow> 'w \<Rightarrow> string list \<Rightarrow> fdkE820record_t list" where
  "e820_valid K e names = List.map_filter (e820_entry K e) names"

lemma e820_valid_simps [simp]:
  "e820_valid K e [] = []"
  "e820_valid K e (name # names) =
     (case e820_entry K e name of None \<Rightarrow> e820_valid K e names | Some r \<Rightarrow> r # e820_valid K e names)"
  by (simp_all add: e820_valid_def map_filter_simps split: option.split)

lemma e820_loop_eq:
  "length recs \<le> limit \<Longrightarrow> e820_loop K e limit recs names = recs @ take (limit - length recs) (e820_valid K e names)"
proof (induction names arbitrary: recs)
  case Nil
  show ?case by simp
next
  case (Cons name names)
  show ?case
  proof (cases "length recs < limit")
    case True
    then obtain d where "limit - length recs = Suc d" "limit - Suc (length recs) = d"
      by (metis Suc_diff_Suc)
    with True Cons.IH show ?thesis by (auto split: option.split)
  next
    case False
    with Cons.prems show ?thesis by simp
  qed
qed

lemma length_e820ReadMap: "length (e820ReadMap K limit s) \<le> unat limit"
  by (auto simp: e820ReadMap_def sorting.qs_length e820_loop_eq split: option.split)

text \<open>The interval of a stored record: non-empty, and the inclusive end did not wrap.\<close>

lemma e820_entry_interval:
  assumes "e820_entry K e name = Some r"
  shows "\<exists>t. er_baseAddr r \<le> t \<and> er_length r = t - er_baseAddr r + 1"
  using assms
  by (auto simp: e820_entry_def Let_def linorder_not_less split: option.splits if_splits)

section \<open>Properties\<close>

text \<open>
  C28: the memory map answered is sorted by base address, is a permutation of the first \<open>limit\<close> valid
  entries of the directory, and has at most \<open>limit\<close> records.
\<close>

theorem e820ReadMap_sorted:
  "case os_dir K FDK_FIRMWARE_MEMMAP (env s) of
     None \<Rightarrow> e820ReadMap K limit s = []
   | Some names \<Rightarrow> sorted (map er_baseAddr (e820ReadMap K limit s)) \<and>
       mset (e820ReadMap K limit s) = mset (take (unat limit) (e820_valid K (env s) names)) \<and>
       length (e820ReadMap K limit s) \<le> unat limit"
  by (simp add: e820ReadMap_def compareRecord_def sorting.qs_key_sorted sorting.qs_mset
      sorting.qs_length e820_loop_eq split: option.split)

text \<open>
  The answer does not depend on the order in which the directory is read: two kernels that list
  the same entries in different orders get the same map, when no entry is cut off by \<open>limit\<close> and the
  bases differ.
\<close>

theorem e820ReadMap_order_independent:
  assumes "os_dir K FDK_FIRMWARE_MEMMAP (env s) = Some names"
    and "os_dir K' FDK_FIRMWARE_MEMMAP (env s) = Some names'"
    and "mset names = mset names'" and "os_file K = os_file K'"
    and "length (e820_valid K (env s) names) \<le> unat limit"
    and "inj_on er_baseAddr (set (e820_valid K (env s) names))"
  shows "e820ReadMap K limit s = e820ReadMap K' limit s"
proof -
  let ?xs = "e820_valid K (env s) names" and ?ys = "e820_valid K' (env s) names'"
  have "readAttr K = readAttr K'"
    using assms(4) by (intro ext) (simp add: readAttr_def)
  then have "e820_entry K = e820_entry K'"
    by (intro ext) (simp only: e820_entry_def)
  then have m: "mset ?ys = mset ?xs"
    using assms(3) by (simp add: e820_valid_def map_filter_def mset_map mset_filter)
  have K: "e820ReadMap K limit s = qsort (cmp_key er_baseAddr) ?xs"
    using assms(1,5) by (simp add: e820ReadMap_def compareRecord_def e820_loop_eq)
  have "length ?ys \<le> unat limit" using assms(5) m by (metis size_mset)
  then have K': "e820ReadMap K' limit s = qsort (cmp_key er_baseAddr) ?ys"
    using assms(2) by (simp add: e820ReadMap_def compareRecord_def e820_loop_eq)
  show ?thesis unfolding K K'
    using assms(6) by (rule sorting.result_unique) (simp_all add: sorting.qs_mset m sorting.qs_key_sorted)
qed

text \<open>A machine with two memory map entries, listed in either order.\<close>

definition memmap_os :: "string list \<Rightarrow> sim os" where
  "memmap_os names = sim_os\<lparr>os_dir := (\<lambda>path e. Some names),
     os_file := (\<lambda>path e. map_of
       [(''/sys/firmware/memmap/0/start'', ''0x0''), (''/sys/firmware/memmap/0/end'', ''0x9ffff''),
        (''/sys/firmware/memmap/0/type'', ''System RAM''),
        (''/sys/firmware/memmap/1/start'', ''0xf0000''), (''/sys/firmware/memmap/1/end'', ''0xfffff''),
        (''/sys/firmware/memmap/1/type'', ''Reserved'')] path)\<rparr>"

lemma memmap_os_attrs:
  "readAttr (memmap_os names) e ''0'' ''start'' 32 = Some ''0x0''"
  "readAttr (memmap_os names) e ''0'' ''end'' 32 = Some ''0x9ffff''"
  "readAttr (memmap_os names) e ''0'' ''type'' 64 = Some ''System RAM''"
  "readAttr (memmap_os names) e ''1'' ''start'' 32 = Some ''0xf0000''"
  "readAttr (memmap_os names) e ''1'' ''end'' 32 = Some ''0xfffff''"
  "readAttr (memmap_os names) e ''1'' ''type'' 64 = Some ''Reserved''"
  by (simp_all add: readAttr_def memmap_os_def snprintf_text_def FDK_FIRMWARE_MEMMAP_def fgets_def
      strcspn_def Let_def)

lemma memmap_numbers:
  "fst (strtoull ''0x0'' 0) = 0" "fst (strtoull ''0x9ffff'' 0) = 0x9ffff"
  "fst (strtoull ''0xf0000'' 0) = 0xf0000" "fst (strtoull ''0xfffff'' 0) = 0xfffff"
  by (simp_all add: strtoull_def isspace_def char_in_def sign_prefix_def radix_prefix_def isxdigit_def
      isdigit_def digits_value_def digit_val_def split_def Let_def)

lemma memmap_os_entries:
  "e820_entry (memmap_os names) e ''0'' =
     Some \<lparr>er_baseAddr = 0, er_length = 0xA0000, er_type = 1, er_attr = 0\<rparr>"
  "e820_entry (memmap_os names) e ''1'' =
     Some \<lparr>er_baseAddr = 0xF0000, er_length = 0x10000, er_type = 2, er_attr = 0\<rparr>"
  "e820_entry (memmap_os names) e ''.'' = None"
  by (simp_all add: e820_entry_def memmap_os_attrs memmap_numbers typeFromName_def kE820Types_def
      FDK_E820_RAM_def FDK_E820_RESERVED_def)

theorem e820ReadMap_order_independent_witness:
  "e820ReadMap (memmap_os [''.'', ''0'', ''1'']) 340 sim_start =
   e820ReadMap (memmap_os [''1'', ''.'', ''0'']) 340 sim_start"
proof (rule e820ReadMap_order_independent)
  have v: "e820_valid (memmap_os names) e [''.'', ''0'', ''1''] =
    [\<lparr>er_baseAddr = 0, er_length = 0xA0000, er_type = 1, er_attr = 0\<rparr>,
     \<lparr>er_baseAddr = 0xF0000, er_length = 0x10000, er_type = 2, er_attr = 0\<rparr>]" for names e
    by (simp add: memmap_os_entries)
  show "length (e820_valid (memmap_os [''.'', ''0'', ''1'']) (env sim_start) [''.'', ''0'', ''1''])
      \<le> unat (340 :: u32)"
    by (simp only: v) simp
  show "inj_on er_baseAddr (set (e820_valid (memmap_os [''.'', ''0'', ''1'']) (env sim_start)
      [''.'', ''0'', ''1'']))"
    by (simp only: v) simp
  show "mset [''.'', ''0'', ''1''] = mset [''1'', ''.'', ''0'']"
    by (simp only: mset.simps) (metis add_mset_commute)
qed (simp_all add: memmap_os_def)

end
