(* ===== verification/Lib_Pci.thy ===== *)
theory Lib_Pci
  imports Hw_Access Packet_Format C_Sort C_Text Sim_Machine "HOL-Library.Monad_Syntax" "HOL-Library.Sublist"
begin

unbundle bit_operations_syntax

text \<open>
  PCI configuration space, \<open>src_fdkd/linux/libpci.c\<close>: through sysfs when the kernel has it, else
  through the legacy mechanism at ports CF8h and CFCh.
\<close>

section \<open>Configuration addresses\<close>

definition PCI_ADDR_ENABLE :: u32 where "PCI_ADDR_ENABLE = 0x80000000"
definition PCI_SEG_MASK :: u32 where "PCI_SEG_MASK = 0x7F"
definition PCI_BUS_MASK :: u32 where "PCI_BUS_MASK = 0xFF"
definition PCI_DEV_MASK :: u32 where "PCI_DEV_MASK = 0x1F"
definition PCI_FUNC_MASK :: u32 where "PCI_FUNC_MASK = 0x07"
definition PCI_REG_MASK :: u32 where "PCI_REG_MASK = 0xFF"
definition PCI_SEG_OFFSET :: nat where "PCI_SEG_OFFSET = 24"
definition PCI_BUS_OFFSET :: nat where "PCI_BUS_OFFSET = 16"
definition PCI_DEV_OFFSET :: nat where "PCI_DEV_OFFSET = 11"
definition PCI_FUNC_OFFSET :: nat where "PCI_FUNC_OFFSET = 8"
definition PCI_SYSFS_DEVICES :: string where "PCI_SYSFS_DEVICES = ''/sys/bus/pci/devices''"
definition PCI_LEGACY_ADDR_PORT :: u16 where "PCI_LEGACY_ADDR_PORT = 0xCF8"
definition PCI_LEGACY_DATA_PORT :: u16 where "PCI_LEGACY_DATA_PORT = 0xCFC"
definition PCI_LEGACY_NPORTS :: u32 where "PCI_LEGACY_NPORTS = 8"

definition PCI_SEG :: "u32 \<Rightarrow> u32" where "PCI_SEG a = drop_bit PCI_SEG_OFFSET a AND PCI_SEG_MASK"
definition PCI_BUS :: "u32 \<Rightarrow> u32" where "PCI_BUS a = drop_bit PCI_BUS_OFFSET a AND PCI_BUS_MASK"
definition PCI_DEV :: "u32 \<Rightarrow> u32" where "PCI_DEV a = drop_bit PCI_DEV_OFFSET a AND PCI_DEV_MASK"
definition PCI_FUNC :: "u32 \<Rightarrow> u32" where "PCI_FUNC a = drop_bit PCI_FUNC_OFFSET a AND PCI_FUNC_MASK"
definition PCI_REG :: "u32 \<Rightarrow> u32" where "PCI_REG a = a AND PCI_REG_MASK"

lemmas pci_consts = PCI_ADDR_ENABLE_def PCI_SEG_MASK_def PCI_BUS_MASK_def PCI_DEV_MASK_def
  PCI_FUNC_MASK_def PCI_REG_MASK_def PCI_SEG_OFFSET_def PCI_BUS_OFFSET_def PCI_DEV_OFFSET_def
  PCI_FUNC_OFFSET_def

lemmas pci_fields = PCI_SEG_def PCI_BUS_def PCI_DEV_def PCI_FUNC_def PCI_REG_def

lemmas pci_ports = PCI_LEGACY_ADDR_PORT_def PCI_LEGACY_DATA_PORT_def PCI_LEGACY_NPORTS_def

definition pciHaveSysfs :: "'w os \<Rightarrow> 'w sys \<Rightarrow> bool" where
  "pciHaveSysfs K s = os_access K PCI_SYSFS_DEVICES (env s)"

text \<open>The name sysfs gives a function, \<open>%04x:%02x:%02x.%x\<close>, and the path of its configuration file.\<close>

definition pci_slot_name :: "u32 \<Rightarrow> string" where
  "pci_slot_name addr =
     fmt_x 4 (unat (PCI_SEG addr)) @ '':'' @ fmt_x 2 (unat (PCI_BUS addr)) @ '':'' @
     fmt_x 2 (unat (PCI_DEV addr)) @ ''.'' @ fmt_x 1 (unat (PCI_FUNC addr))"

definition pciSysfsConfigPath :: "u32 \<Rightarrow> nat \<Rightarrow> string" where
  "pciSysfsConfigPath addr len =
     snprintf_text len (PCI_SYSFS_DEVICES @ ''/'' @ pci_slot_name addr @ ''/config'')"

section \<open>Listing\<close>

definition pci_key :: "fdkPciDev_t \<Rightarrow> u32" where
  "pci_key d = push_bit 8 (ucast (pd_bus d)) OR push_bit 3 (ucast (pd_dev d)) OR ucast (pd_fun d)"

definition pciComparePciDev :: "fdkPciDev_t \<Rightarrow> fdkPciDev_t \<Rightarrow> s32" where
  "pciComparePciDev = cmp_key pci_key"

text \<open>\<open>sscanf (name, "%x:%x:%x.%x", ...) == 4\<close>; what follows the last number is ignored.\<close>

definition pci_scan_name :: "string \<Rightarrow> (u32 \<times> u32 \<times> u32 \<times> u32) option" where
  "pci_scan_name name =
     do {
       (seg, r) \<leftarrow> scan_x name; r \<leftarrow> scan_lit (CHR '':'') r;
       (bus, r) \<leftarrow> scan_x r; r \<leftarrow> scan_lit (CHR '':'') r;
       (dev, r) \<leftarrow> scan_x r; r \<leftarrow> scan_lit (CHR ''.'') r;
       (fun', r) \<leftarrow> scan_x r;
       Some (seg, bus, dev, fun')
     }"

text \<open>The record stored for a function with the two identifiers read from its registers.\<close>

definition pci_record :: "u16 \<Rightarrow> u32 \<Rightarrow> u32 \<Rightarrow> u8 list \<Rightarrow> fdkPciDev_t" where
  "pci_record bus dev fun' ids =
     \<lparr>pd_bus = bus, pd_dev = ucast dev, pd_fun = ucast fun', pd_vendorId = get16 0 ids,
      pd_deviceId = get16 2 ids\<rparr>"

text \<open>The body of the directory loop of \<open>pciListSysfs\<close>: a record, or nothing when the entry is skipped.\<close>

definition pci_sysfs_entry :: "'w os \<Rightarrow> string \<Rightarrow> 'w sys \<Rightarrow> fdkPciDev_t option \<times> 'w sys" where
  "pci_sysfs_entry K name s =
     (case pci_scan_name name of
        None \<Rightarrow> (None, s)
      | Some (seg, bus, dev, fun') \<Rightarrow>
          if seg > PCI_SEG_MASK \<or> bus > PCI_BUS_MASK \<or> dev > PCI_DEV_MASK \<or> fun' > PCI_FUNC_MASK
          then (None, s)
          else
            let (fd, s1) = sys_open K
                  (snprintf_text 512 (PCI_SYSFS_DEVICES @ ''/'' @ name @ ''/config'')) O_RDONLY s
            in if fd < 0 then (None, s1)
               else
                 let ((n, ids), s2) = sys_pread K fd 4 0 (replicate 4 0) s1; s3 = sys_close K fd s2
                 in (if n \<noteq> 4 then None
                     else Some (pci_record (ucast (push_bit 8 seg OR bus)) dev fun' ids), s3))"

fun pci_sysfs_loop ::
  "'w os \<Rightarrow> nat \<Rightarrow> fdkPciDev_t list \<Rightarrow> string list \<Rightarrow> 'w sys \<Rightarrow> fdkPciDev_t list \<times> 'w sys" where
  "pci_sysfs_loop K limit recs [] s = (recs, s)"
| "pci_sysfs_loop K limit recs (name # names) s =
     (if length recs < limit then
        (case pci_sysfs_entry K name s of
           (None, s1) \<Rightarrow> pci_sysfs_loop K limit recs names s1
         | (Some d, s1) \<Rightarrow> pci_sysfs_loop K limit (recs @ [d]) names s1)
      else (recs, s))"

definition pciListSysfs :: "'w os \<Rightarrow> u32 \<Rightarrow> 'w sys \<Rightarrow> fdkPciDev_t list \<times> 'w sys" where
  "pciListSysfs K limit s =
     (case os_dir K PCI_SYSFS_DEVICES (env s) of
        None \<Rightarrow> ([], s)
      | Some names \<Rightarrow>
          (let (recs, s1) = pci_sysfs_loop K (unat limit) [] names s
           in (qsort pciComparePciDev recs, s1)))"

section \<open>Configuration accesses\<close>

definition pciSysfsAccess ::
  "'w os \<Rightarrow> u32 \<Rightarrow> u32 \<Rightarrow> u8 list \<Rightarrow> bool \<Rightarrow> 'w sys \<Rightarrow> (s32 \<times> u8 list) \<times> 'w sys" where
  "pciSysfsAccess K addr len buf isWrite s =
     (let (fd, s1) = sys_open K (pciSysfsConfigPath addr 256) (if isWrite then O_WRONLY else O_RDONLY) s
      in if fd < 0 then ((- 1, buf), s1)
         else
           let ((n, buf1), s2) =
                 (if isWrite then
                    (let (n, s2) = sys_pwrite K fd (take (unat len) buf) (ucast (PCI_REG addr)) s1
                     in ((n, buf), s2))
                  else sys_pread K fd (unat len) (ucast (PCI_REG addr)) buf s1);
               s3 = sys_close K fd s2
           in ((if n = int (unat len) then 0 else - 1, buf1), s3))"

text \<open>
  The loop of \<open>pciLegacyAccess\<close>, on the bytes from index \<open>i\<close> on. It ends at the last register of
  the function; the result is the index it stopped at.
\<close>

fun pci_legacy_bytes ::
  "'w os \<Rightarrow> u32 \<Rightarrow> u32 \<Rightarrow> u8 list \<Rightarrow> bool \<Rightarrow> 'w sys \<Rightarrow> (u32 \<times> u8 list) \<times> 'w sys" where
  "pci_legacy_bytes K addr i [] isWrite s = ((i, []), s)"
| "pci_legacy_bytes K addr i (b # bs) isWrite s =
     (if PCI_REG addr + i \<le> PCI_REG_MASK then
        let reg = addr + i;
            port = PCI_LEGACY_DATA_PORT + ucast (reg AND 3);
            s1 = sys_outl K (PCI_ADDR_ENABLE OR (reg AND 0x00FFFFFC)) PCI_LEGACY_ADDR_PORT s;
            (v, s2) = (if isWrite then (b, sys_outb K b port s1) else sys_inb K port s1);
            ((i', vs), s3) = pci_legacy_bytes K addr (i + 1) bs isWrite s2
        in ((i', v # vs), s3)
      else ((i, b # bs), s))"

definition pciLegacyAccess ::
  "'w os \<Rightarrow> u32 \<Rightarrow> u32 \<Rightarrow> u8 list \<Rightarrow> bool \<Rightarrow> 'w sys \<Rightarrow> (s32 \<times> u8 list) \<times> 'w sys" where
  "pciLegacyAccess K addr len buf isWrite s =
     (if PCI_SEG addr \<noteq> 0 then ((- 1, buf), s)
      else
        let (r, s1) = sys_ioperm K PCI_LEGACY_ADDR_PORT PCI_LEGACY_NPORTS True s
        in if r \<noteq> 0 then ((- 1, buf), s1)
           else
             let ((i, vs), s2) = pci_legacy_bytes K addr 0 (take (unat len) buf) isWrite s1;
                 (r', s3) = sys_ioperm K PCI_LEGACY_ADDR_PORT PCI_LEGACY_NPORTS False s2
             in ((if i = len then 0 else - 1, blit 0 vs buf), s3))"

text \<open>The scan of all functions of segment 0, in the order of the three nested loops.\<close>

definition pci_slots :: "(u32 \<times> u32 \<times> u32) list" where
  "pci_slots = concat (map (\<lambda>bus. concat (map (\<lambda>dev. map (\<lambda>fun'.
     (word_of_nat bus, word_of_nat dev, word_of_nat fun')) [0..<8]) [0..<32])) [0..<256])"

fun pci_legacy_loop ::
  "'w os \<Rightarrow> nat \<Rightarrow> fdkPciDev_t list \<Rightarrow> (u32 \<times> u32 \<times> u32) list \<Rightarrow> 'w sys \<Rightarrow> fdkPciDev_t list \<times> 'w sys" where
  "pci_legacy_loop K limit recs [] s = (recs, s)"
| "pci_legacy_loop K limit recs ((bus, dev, fun') # slots) s =
     (if length recs < limit then
        let addr = PCI_ADDR_ENABLE OR push_bit PCI_BUS_OFFSET bus OR push_bit PCI_DEV_OFFSET dev OR
                   push_bit PCI_FUNC_OFFSET fun';
            ((r, ids), s1) = pciLegacyAccess K addr 4 (replicate 4 0) False s
        in if r \<noteq> 0 then (recs, s1)
           else if get16 0 ids = 0xFFFF then pci_legacy_loop K limit recs slots s1
           else pci_legacy_loop K limit (recs @ [pci_record (ucast bus) dev fun' ids]) slots s1
      else pci_legacy_loop K limit recs slots s)"

definition pciListLegacy :: "'w os \<Rightarrow> u32 \<Rightarrow> 'w sys \<Rightarrow> fdkPciDev_t list \<times> 'w sys" where
  "pciListLegacy K limit s = pci_legacy_loop K (unat limit) [] pci_slots s"

definition pciListDevices :: "'w os \<Rightarrow> u32 \<Rightarrow> 'w sys \<Rightarrow> fdkPciDev_t list \<times> 'w sys" where
  "pciListDevices K limit s =
     (if pciHaveSysfs K s then pciListSysfs K limit s
      else if os_port_insn K then pciListLegacy K limit s
      else ([], s))"

definition pciAccess ::
  "'w os \<Rightarrow> u32 \<Rightarrow> u32 \<Rightarrow> u8 list \<Rightarrow> bool \<Rightarrow> 'w sys \<Rightarrow> (s32 \<times> u8 list) \<times> 'w sys" where
  "pciAccess K addr len buf isWrite s =
     (if pciHaveSysfs K s then pciSysfsAccess K addr len buf isWrite s
      else if os_port_insn K then pciLegacyAccess K addr len buf isWrite s
      else ((- 1, buf), s))"

definition pciReadConfig ::
  "'w os \<Rightarrow> u32 \<Rightarrow> u32 \<Rightarrow> u8 list \<Rightarrow> 'w sys \<Rightarrow> (s32 \<times> u8 list) \<times> 'w sys" where
  "pciReadConfig K addr len buf s =
     pciAccess K addr len (blit 0 (replicate (unat len) 255) buf) False s"

definition pciWriteConfig :: "'w os \<Rightarrow> u32 \<Rightarrow> u32 \<Rightarrow> u8 list \<Rightarrow> 'w sys \<Rightarrow> s32 \<times> 'w sys" where
  "pciWriteConfig K addr len buf s =
     (let ((r, buf1), s1) = pciAccess K addr len buf True s in (r, s1))"

section \<open>Keys and slots\<close>

lemma subseq_sorted_wrt: "subseq xs ys \<Longrightarrow> sorted_wrt R ys \<Longrightarrow> sorted_wrt R xs"
proof (induction rule: list_emb.induct)
  case (list_emb_Cons2 x y xs ys)
  then have "x = y" "set xs \<subseteq> set ys" by (auto elim: list_emb_set)
  with list_emb_Cons2 show ?case by auto
qed auto

lemma or_shift_nat: "b < 2 ^ n \<Longrightarrow> push_bit n a OR b = a * 2 ^ n + (b :: nat)"
proof -
  assume "b < 2 ^ n"
  then have "take_bit n b = b" by (simp add: take_bit_nat_eq_self_iff)
  moreover have "push_bit n a AND take_bit n b = 0" by (rule bit_eqI) (auto simp: bit_simps)
  then have "push_bit n a OR take_bit n b = push_bit n a + take_bit n b"
    by (simp add: disjunctive_add_eq_or)
  ultimately show ?thesis by (simp add: push_bit_eq_mult)
qed

lemma unat_pci_key:
  assumes "unat (pd_dev d) < 32" and "unat (pd_fun d) < 8"
  shows "unat (pci_key d) = unat (pd_bus d) * 256 + unat (pd_dev d) * 8 + unat (pd_fun d)"
proof -
  have b: "unat (pd_bus d) < 65536" using unsigned_less [of "pd_bus d", where ?'a = nat] by simp
  have 1: "push_bit 3 (unat (pd_dev d)) OR unat (pd_fun d) = unat (pd_dev d) * 8 + unat (pd_fun d)"
    using or_shift_nat [of "unat (pd_fun d)" 3] assms(2) by simp
  have 2: "push_bit 8 (unat (pd_bus d)) OR (unat (pd_dev d) * 8 + unat (pd_fun d)) =
    unat (pd_bus d) * 256 + (unat (pd_dev d) * 8 + unat (pd_fun d))"
    using or_shift_nat [of "unat (pd_dev d) * 8 + unat (pd_fun d)" 8] assms by simp
  have t: "take_bit 32 (push_bit 8 (unat (pd_bus d))) = push_bit 8 (unat (pd_bus d))"
    "take_bit 32 (push_bit 3 (unat (pd_dev d))) = push_bit 3 (unat (pd_dev d))"
    "take_bit 32 (unat (pd_bus d)) = unat (pd_bus d)" "take_bit 32 (unat (pd_dev d)) = unat (pd_dev d)"
    "take_bit 32 (unat (pd_fun d)) = unat (pd_fun d)"
    using b assms by (simp_all add: take_bit_nat_eq_self_iff push_bit_eq_mult)
  show ?thesis
    by (simp add: pci_key_def unsigned_or_eq unsigned_push_bit_eq unsigned_ucast_eq t or.assoc 1 2)
qed

lemma nested_upt: "concat (map (\<lambda>b. map (\<lambda>r. b * n + r) [0..<n]) [0..<m]) = [0..<m * n]"
proof (induction m)
  case 0
  show ?case by simp
next
  case (Suc m)
  have "[0..<Suc m * n] = [0..<m * n] @ [m * n..<m * n + n]"
    by (metis add.commute le_add1 mult_Suc upt_add_eq_append zero_le)
  moreover have "map (\<lambda>r. m * n + r) [0..<n] = [m * n..<m * n + n]"
    by (simp only: add.commute [of "m * n"] map_add_upt)
  ultimately show ?case using Suc by simp
qed

lemma concat_map_concat: "concat (map (\<lambda>x. concat (f x)) xs) = concat (concat (map f xs))"
  by (induction xs) simp_all

definition slot_record :: "u32 \<times> u32 \<times> u32 \<Rightarrow> u8 list \<Rightarrow> fdkPciDev_t" where
  "slot_record t ids = (case t of (bus, dev, fun') \<Rightarrow> pci_record (ucast bus) dev fun' ids)"

lemma key_slot:
  "b < 256 \<Longrightarrow> d < 32 \<Longrightarrow> f < 8 \<Longrightarrow>
    unat (pci_key (slot_record (word_of_nat b, word_of_nat d, word_of_nat f) ids)) = (b * 32 + d) * 8 + f"
  by (subst unat_pci_key)
    (simp_all add: slot_record_def pci_record_def unat_of_nat take_bit_nat_eq_self unsigned_ucast_eq)

lemma keys_of_slots: "map (\<lambda>t. unat (pci_key (slot_record t ids))) pci_slots = [0..<65536]"
proof -
  have "map (\<lambda>t. unat (pci_key (slot_record t ids))) pci_slots =
    concat (map (\<lambda>b. concat (map (\<lambda>d. map (\<lambda>f. (b * 32 + d) * 8 + f) [0..<8]) [0..<32])) [0..<256])"
    unfolding pci_slots_def map_concat map_map comp_def
    by (intro arg_cong [where f = concat] map_cong refl) (simp add: key_slot)
  also have "\<dots> = concat (map (\<lambda>e. map (\<lambda>f. e * 8 + f) [0..<8]) [0..<256 * 32])"
    unfolding nested_upt [symmetric] map_concat map_map comp_def
    by (simp add: concat_map_concat del: upt_rec_numeral)
  also have "\<dots> = [0..<65536]" unfolding nested_upt by simp
  finally show ?thesis .
qed

section \<open>The listings are in order\<close>

lemma legacy_loop_slots:
  "\<exists>used idss. length idss = length used \<and> subseq used slots \<and>
    fst (pci_legacy_loop K limit recs slots s) = recs @ map2 slot_record used idss"
proof (induction slots arbitrary: recs s)
  case Nil
  show ?case by (intro exI [of _ "[]"]) simp
next
  case (Cons t slots)
  obtain bus dev fun' where t: "t = (bus, dev, fun')" by (cases t) auto
  let ?a = "PCI_ADDR_ENABLE OR push_bit PCI_BUS_OFFSET bus OR push_bit PCI_DEV_OFFSET dev OR
    push_bit PCI_FUNC_OFFSET fun'"
  obtain r ids s1 where a: "pciLegacyAccess K ?a 4 (replicate 4 0) False s = ((r, ids), s1)"
    by (metis prod.collapse)
  have skip: "\<exists>used idss. length idss = length used \<and> subseq used (t # slots) \<and>
    fst (pci_legacy_loop K limit recs slots s') = recs @ map2 slot_record used idss" for s'
    using Cons.IH [of recs s'] by (blast intro: list_emb_Cons)
  consider (full) "\<not> length recs < limit" | (err) "length recs < limit" "r \<noteq> 0"
    | (none) "length recs < limit" "r = 0" "get16 0 ids = 0xFFFF"
    | (dev) "length recs < limit" "r = 0" "get16 0 ids \<noteq> 0xFFFF" by blast
  then show ?case
  proof cases
    case full
    then show ?thesis using skip by (simp add: t)
  next
    case err
    then show ?thesis by (intro exI [of _ "[]"]) (simp add: t a)
  next
    case none
    then show ?thesis using skip [of s1] by (simp add: t a)
  next
    case dev
    from Cons.IH [of "recs @ [slot_record t ids]" s1] obtain used idss where
      "length idss = length used" "subseq used slots"
      "fst (pci_legacy_loop K limit (recs @ [slot_record t ids]) slots s1) =
        (recs @ [slot_record t ids]) @ map2 slot_record used idss" by blast
    then show ?thesis
      using dev by (intro exI [of _ "t # used"] exI [of _ "ids # idss"]) (simp add: t a slot_record_def)
  qed
qed

lemma length_legacy_loop:
  "length recs \<le> limit \<Longrightarrow> length (fst (pci_legacy_loop K limit recs slots s)) \<le> limit"
proof (induction slots arbitrary: recs s)
  case Nil
  then show ?case by simp
next
  case (Cons t slots)
  then show ?case
    by (cases t) (auto simp: split_def Let_def intro!: Cons.IH)
qed

lemma legacy_keys_strict: "sorted_wrt (<) (map pci_key (fst (pciListLegacy K limit s)))"
proof -
  obtain used idss where len: "length idss = length used" and sub: "subseq used pci_slots"
    and res: "fst (pciListLegacy K limit s) = map2 slot_record used idss"
    using legacy_loop_slots [of pci_slots K "unat limit" "[]" s] by (auto simp: pciListLegacy_def)
  have k: "pci_key (slot_record t ids) = pci_key (slot_record t [])" for t ids
    by (simp add: slot_record_def pci_record_def pci_key_def split: prod.split)
  have "map unat (map pci_key (map2 slot_record used idss)) = map (\<lambda>t. unat (pci_key (slot_record t []))) used"
    using len by (induction idss used rule: list_induct2) (auto intro: arg_cong [OF k])
  moreover have "subseq (map (\<lambda>t. unat (pci_key (slot_record t []))) used) [0..<65536]"
    using subseq_map [OF sub, of "\<lambda>t. unat (pci_key (slot_record t []))"] by (simp only: keys_of_slots)
  then have "sorted_wrt (<) (map (\<lambda>t. unat (pci_key (slot_record t []))) used)"
    by (rule subseq_sorted_wrt) simp
  ultimately have "sorted_wrt (<) (map unat (map pci_key (fst (pciListLegacy K limit s))))"
    by (simp only: res)
  then show ?thesis by (simp add: sorted_wrt_map word_less_nat_alt)
qed

lemma length_sysfs_loop:
  "length recs \<le> limit \<Longrightarrow> length (fst (pci_sysfs_loop K limit recs names s)) \<le> limit"
  by (induction K limit recs names s rule: pci_sysfs_loop.induct) (auto split: prod.split option.split)

section \<open>Which registers are reached\<close>

text \<open>
  What a legacy access may do. Every port it touches needs the function of \<open>addr\<close> to lie in segment 0, the
  only one the ports reach: the address port gets the enable bit and a register of that function, the
  data ports are read, and get bytes only when writing.
\<close>

definition pci_confined :: "u32 \<Rightarrow> bool \<Rightarrow> sysev \<Rightarrow> bool" where
  "pci_confined addr w ev \<longleftrightarrow>
     (case ev of
        EvOutl v p \<Rightarrow> PCI_SEG addr = 0 \<and> p = 0xCF8 \<and> drop_bit 8 v = 0x800000 OR (drop_bit 8 addr AND 0xFFFF)
      | EvOutb v p \<Rightarrow> PCI_SEG addr = 0 \<and> w \<and> 0xCFC \<le> p \<and> p \<le> 0xCFF
      | EvInb p \<Rightarrow> PCI_SEG addr = 0 \<and> 0xCFC \<le> p \<and> p \<le> 0xCFF
      | _ \<Rightarrow> \<not> hw_write ev)"

lemma pci_confined_ioperm [simp]: "pci_confined addr w (EvIoperm p n on r)"
  by (simp add: pci_confined_def)

lemma unat_reg_sum:
  assumes "i \<le> 0x100"
  shows "unat (PCI_REG addr + i) = unat addr mod 256 + unat i"
proof -
  have "addr AND 0xFF = take_bit 8 addr" by (simp add: take_bit_eq_mask mask_eq_exp_minus_1)
  then have "unat (addr AND 0xFF) = unat addr mod 256"
    by (simp only: unsigned_take_bit_eq) (simp add: take_bit_eq_mod)
  moreover have "unat i \<le> 256" using assms by (simp add: word_le_nat_alt)
  ultimately show ?thesis by (simp add: pci_fields pci_consts unat_word_ariths)
qed

lemma same_function:
  assumes "PCI_REG addr + i \<le> PCI_REG_MASK" and "i \<le> 0x100"
  shows "drop_bit 8 (addr + i) = drop_bit 8 addr"
proof -
  have le: "unat addr mod 256 + unat i \<le> 255"
    using assms(1) unat_reg_sum [OF assms(2), of addr] by (simp add: word_le_nat_alt pci_consts)
  have "unat addr div 256 < 16777216"
    using unsigned_less [of addr, where ?'a = nat] by (intro less_mult_imp_div_less) simp
  moreover have "unat addr = unat addr div 256 * 256 + unat addr mod 256" by simp
  ultimately have "unat addr + unat i < 4294967296" using le by linarith
  then have "unat (addr + i) = unat addr + unat i" by (simp add: unat_word_ariths)
  moreover have "(unat addr + unat i) div 256 = unat addr div 256"
  proof -
    have "unat addr + unat i = (unat addr mod 256 + unat i) + unat addr div 256 * 256" by simp
    then have "(unat addr + unat i) div 256 = ((unat addr mod 256 + unat i) + unat addr div 256 * 256) div 256"
      by (rule arg_cong)
    also have "\<dots> = unat addr div 256" using le by (subst div_mult_self1) simp_all
    finally show ?thesis .
  qed
  ultimately have "unat (drop_bit 8 (addr + i)) = unat (drop_bit 8 addr)"
    by (simp only: unat_drop_bit_eq) (simp add: drop_bit_eq_div)
  then show ?thesis by (rule unsigned_word_eqI)
qed

lemma data_port:
  "0xCFC \<le> PCI_LEGACY_DATA_PORT + ucast (reg AND 3 :: u32) \<and>
   PCI_LEGACY_DATA_PORT + ucast (reg AND 3 :: u32) \<le> 0xCFF"
proof -
  have "reg AND 3 = take_bit 2 reg" by (simp add: take_bit_eq_mask mask_eq_exp_minus_1)
  then have "unat (reg AND 3) < 4"
    by (simp only: unsigned_take_bit_eq) (simp add: take_bit_eq_mod)
  then have "unat (ucast (reg AND 3) :: u16) \<le> 3"
    by (simp add: unsigned_ucast_eq take_bit_nat_eq_self)
  then show ?thesis by (simp add: word_le_nat_alt pci_ports unat_word_ariths)
qed

lemma outl_confined:
  assumes "PCI_REG addr + i \<le> PCI_REG_MASK" and "i \<le> 0x100" and "PCI_SEG addr = 0"
  shows "pci_confined addr w
    (EvOutl (PCI_ADDR_ENABLE OR ((addr + i) AND 0x00FFFFFC)) PCI_LEGACY_ADDR_PORT)"
  using same_function [OF assms(1,2)] assms(3) by (simp add: pci_confined_def pci_consts pci_ports)

lemma logs_legacy_bytes:
  assumes seg: "PCI_SEG addr = 0"
  shows "i \<le> 0x100 \<Longrightarrow> logs (pci_confined addr w) s (snd (pci_legacy_bytes K addr i bs w s))"
proof (induction bs arbitrary: i s)
  case Nil
  show ?case by simp
next
  case (Cons b bs)
  show ?case
  proof (cases "PCI_REG addr + i \<le> PCI_REG_MASK")
    case False
    then show ?thesis by simp
  next
    case True
    let ?P = "pci_confined addr w"
    let ?port = "PCI_LEGACY_DATA_PORT + ucast ((addr + i) AND 3)"
    define s1 where "s1 = sys_outl K (PCI_ADDR_ENABLE OR ((addr + i) AND 0x00FFFFFC)) PCI_LEGACY_ADDR_PORT s"
    define x where "x = (if w then (b, sys_outb K b ?port s1) else sys_inb K ?port s1)"
    have 1: "logs ?P s s1" unfolding s1_def
      using outl_confined [OF True Cons.prems seg] by (rule logs_call)
    have 2: "logs ?P s1 (snd x)"
      using data_port [of "addr + i"] seg by (auto simp: x_def pci_confined_def intro!: logs_call)
    have "i \<noteq> 0x100"
      using True unat_reg_sum [of "0x100" addr] by (auto simp: word_le_nat_alt pci_consts)
    then have "i + 1 \<le> 0x100" using Cons.prems by (intro inc_le) (simp add: order_less_le)
    then have "logs ?P (snd x) (snd (pci_legacy_bytes K addr (i + 1) bs w (snd x)))" by (rule Cons.IH)
    then show ?thesis
      using logs_trans [OF logs_trans [OF 1 2]] True
      by (cases w) (simp_all add: Let_def split_def x_def flip: s1_def)
  qed
qed

lemma length_legacy_bytes [simp]: "length (snd (fst (pci_legacy_bytes K addr i bs w s))) = length bs"
  by (induction bs arbitrary: i s) (auto simp: split_def Let_def)

section \<open>The contracts\<close>

lemma pciLegacyAccess_cases:
  obtains (refused) s1 where "\<And>P. (\<And>p n on r. P (EvIoperm p n on r)) \<Longrightarrow> logs P s s1"
    and "\<And>buf w. pciLegacyAccess K addr len buf w s = ((- 1, buf), s1)"
  | (opened) s1 where "PCI_SEG addr = 0" and "sys_ioperm K PCI_LEGACY_ADDR_PORT PCI_LEGACY_NPORTS True s = (0, s1)"
    and "\<And>buf w. length buf = unat len \<Longrightarrow> pciLegacyAccess K addr len buf w s =
      (let ((i, vs), s2) = pci_legacy_bytes K addr 0 buf w s1
       in ((if i = len then 0 else - 1, vs),
           snd (sys_ioperm K PCI_LEGACY_ADDR_PORT PCI_LEGACY_NPORTS False s2)))"
proof (cases "PCI_SEG addr = 0")
  case False
  then show thesis by (intro refused [of s]) (auto simp: pciLegacyAccess_def)
next
  case True
  obtain r s1 where io: "sys_ioperm K PCI_LEGACY_ADDR_PORT PCI_LEGACY_NPORTS True s = (r, s1)" by fastforce
  show thesis
  proof (cases "r = 0")
    case False
    show thesis
    proof (rule refused [of s1])
      show "logs P s s1" if "\<And>p n on r. P (EvIoperm p n on r)" for P
        by (rule logs_ioperm_failed [OF io False]) (simp add: that)
      show "pciLegacyAccess K addr len buf w s = ((- 1, buf), s1)" for buf w
        using True False by (simp add: pciLegacyAccess_def io)
    qed
  next
    case z: True
    show thesis
      by (rule opened [of s1])
        (use True io z in \<open>auto simp: pciLegacyAccess_def split_def Let_def blit_full prod_eq_iff\<close>)
  qed
qed

lemma logs_pciLegacyAccess:
  assumes len: "length buf = unat n"
  shows "logs (pci_confined a w) s (snd (pciLegacyAccess K a n buf w s))"
proof (rule pciLegacyAccess_cases [of s K a n])
  fix s1 assume "\<And>P. (\<And>p n on r. P (EvIoperm p n on r)) \<Longrightarrow> logs P s s1"
    and "\<And>buf w. pciLegacyAccess K a n buf w s = ((- 1, buf), s1)"
  then show ?thesis by simp
next
  fix s1 assume seg: "PCI_SEG a = 0"
    and io: "sys_ioperm K PCI_LEGACY_ADDR_PORT PCI_LEGACY_NPORTS True s = (0, s1)"
    and eq: "\<And>buf w. length buf = unat n \<Longrightarrow> pciLegacyAccess K a n buf w s =
      (let ((i, vs), s2) = pci_legacy_bytes K a 0 buf w s1
       in ((if i = n then 0 else - 1, vs),
           snd (sys_ioperm K PCI_LEGACY_ADDR_PORT PCI_LEGACY_NPORTS False s2)))"
  have "logs (pci_confined a w) s1 (snd (pci_legacy_bytes K a 0 buf w s1))"
    by (rule logs_legacy_bytes [OF seg]) simp
  then show ?thesis
    using logs_ioperm [OF io] by (simp add: eq [OF len] split_def Let_def)
qed

text \<open>What a configuration access may do, by either way of access.\<close>

definition pci_ev :: "bool \<Rightarrow> sysev \<Rightarrow> bool" where
  "pci_ev w ev \<longleftrightarrow> hw_write ev \<longrightarrow> w \<or> (\<exists>v. ev = EvOutl v 0xCF8)"

lemma pci_confined_ev: "pci_confined a w ev \<Longrightarrow> pci_ev w ev"
  by (cases ev) (auto simp: pci_confined_def pci_ev_def)

lemma logs_pciSysfsAccess:
  assumes len: "length buf = unat n"
  shows "logs (pci_ev w) s (snd (pciSysfsAccess K a n buf w s))"
proof -
  let ?fl = "if w then O_WRONLY else O_RDONLY"
  obtain fd s1 where op: "sys_open K (pciSysfsConfigPath a 256) ?fl s = (fd, s1)" by fastforce
  show ?thesis
  proof (cases "fd < 0")
    case True
    then show ?thesis
      using logs_open_failed [OF op True, of "pci_ev w"] op by (simp add: pciSysfsAccess_def pci_ev_def)
  next
    case False
    then have fd: "0 \<le> fd" by simp
    have p: "logs (pci_ev True) s1 (snd (sys_pwrite K fd bs off s1))" for bs off
      by (rule logs_call) (simp add: pci_ev_def)
    have r: "logs (pci_ev w) s1 (snd (sys_pread K fd len off bs s1))" for len off bs
      by (rule logs_call) (simp add: pci_ev_def)
    show ?thesis
      using logs_open_close [OF op fd r] logs_open_close [OF op fd, of "pci_ev True"] p False op
      by (cases w) (simp_all add: pciSysfsAccess_def pci_ev_def split_def Let_def)
  qed
qed

lemma logs_pciAccess:
  "length buf = unat n \<Longrightarrow> logs (pci_ev w) s (snd (pciAccess K a n buf w s))"
  using logs_pciSysfsAccess logs_mono [OF logs_pciLegacyAccess pci_confined_ev]
  by (auto simp: pciAccess_def)

lemma length_pciAccess:
  "length buf = unat n \<Longrightarrow> length (snd (fst (pciAccess K a n buf w s))) = unat n"
  by (auto simp: pciAccess_def pciSysfsAccess_def pciLegacyAccess_def split_def Let_def length_pread)

interpretation pci_reader: byte_reader "pciReadConfig K" "pci_ev False" for K
proof
  fix a and n :: u32 and buf buf' :: "u8 list" and s
  assume len: "length buf = unat n"
  show "length (snd (fst (pciReadConfig K a n buf s))) = unat n"
    using len by (simp add: pciReadConfig_def length_pciAccess)
  show "pciReadConfig K a n buf s = pciReadConfig K a n buf' s" if "length buf' = unat n"
    using len that by (simp add: pciReadConfig_def blit_full)
  show "logs (pci_ev False) s (snd (pciReadConfig K a n buf s))"
    using len by (simp add: pciReadConfig_def logs_pciAccess)
qed

interpretation pci_writer: byte_writer "pciWriteConfig K" "pci_ev True" for K
proof
  fix a and n :: u32 and buf :: "u8 list" and s
  assume "length buf = unat n"
  then show "logs (pci_ev True) s (snd (pciWriteConfig K a n buf s))"
    using logs_pciAccess [of buf n True] by (simp add: pciWriteConfig_def split_def Let_def)
qed

lemma logs_pci_sysfs_entry: "logs (pci_ev False) s (snd (pci_sysfs_entry K name s))"
proof (cases "pci_scan_name name")
  case None
  then show ?thesis by (simp add: pci_sysfs_entry_def)
next
  case (Some t)
  obtain seg bus dev fun' where t: "t = (seg, bus, dev, fun')" by (metis prod_cases4)
  obtain fd s1 where op: "sys_open K
      (snprintf_text 512 (PCI_SYSFS_DEVICES @ ''/'' @ name @ ''/config'')) O_RDONLY s = (fd, s1)" by fastforce
  have q: "pci_ev False ev" if "\<not> hw_write ev" for ev using that by (simp add: pci_ev_def)
  have rd: "logs (pci_ev False) s1 (snd (sys_pread K fd 4 0 (replicate 4 0) s1))"
    by (rule logs_call) (simp add: q)
  show ?thesis
  proof (cases "fd < 0")
    case True
    then show ?thesis
      using logs_open_failed [OF op True, of "pci_ev False"] q
      by (simp add: pci_sysfs_entry_def Some t op [simplified])
  next
    case False
    then show ?thesis
      using logs_open_close [OF op _ rd] q
      by (simp add: pci_sysfs_entry_def Some t op [simplified] split_def Let_def)
  qed
qed

lemma logs_pci_sysfs_loop: "logs (pci_ev False) s (snd (pci_sysfs_loop K limit recs names s))"
proof (induction names arbitrary: recs s)
  case Nil
  show ?case by simp
next
  case (Cons name names)
  have "logs (pci_ev False) s (snd (pci_sysfs_entry K name s))" by (rule logs_pci_sysfs_entry)
  from logs_trans [OF this Cons.IH] show ?case
    by (simp split: prod.split option.split) (metis snd_conv)
qed

lemma logs_pci_legacy_loop: "logs (pci_ev False) s (snd (pci_legacy_loop K limit recs slots s))"
proof (induction slots arbitrary: recs s)
  case Nil
  show ?case by simp
next
  case (Cons t slots)
  obtain bus dev fun' where t: "t = (bus, dev, fun')" by (metis prod_cases3)
  let ?a = "PCI_ADDR_ENABLE OR push_bit PCI_BUS_OFFSET bus OR push_bit PCI_DEV_OFFSET dev OR
    push_bit PCI_FUNC_OFFSET fun'"
  have a: "logs (pci_ev False) s (snd (pciLegacyAccess K ?a 4 (replicate 4 0) False s))"
    using logs_mono [OF logs_pciLegacyAccess pci_confined_ev, of "replicate 4 0" 4] by simp
  from logs_trans [OF a Cons.IH] a Cons.IH [of s] show ?case
    by (simp add: t split_def Let_def)
qed

lemma logs_pciListDevices: "logs (pci_ev False) s (snd (pciListDevices K limit s))"
  using logs_pci_sysfs_loop [of s K] logs_pci_legacy_loop [of s K]
  by (simp add: pciListDevices_def pciListSysfs_def pciListLegacy_def split_def Let_def split: option.split)

lemma length_pciListDevices: "length (fst (pciListDevices K limit s)) \<le> unat limit"
  using length_sysfs_loop [of "[]" "unat limit" K _ s] length_legacy_loop [of "[]" "unat limit" K pci_slots s]
  by (auto simp: pciListDevices_def pciListSysfs_def pciListLegacy_def pciComparePciDev_def
      sorting.qs_length split_def Let_def split: option.split)

section \<open>Properties\<close>

text \<open>
  C27: both ways of listing give at most \<open>limit\<close> devices, in the order of segment and bus, device and
  function.
\<close>

theorem pciListDevices_sorted:
  "length (fst (pciListDevices K limit s)) \<le> unat limit \<and>
   sorted (map pci_key (fst (pciListDevices K limit s)))"
proof -
  have "sorted (map pci_key (fst (pciListSysfs K limit s)))"
    by (auto simp: pciListSysfs_def pciComparePciDev_def sorting.qs_key_sorted
        split_def Let_def split: option.split)
  moreover have "sorted (map pci_key (fst (pciListLegacy K limit s)))"
    using legacy_keys_strict [of K limit s] by (rule strict_sorted_imp_sorted)
  ultimately show ?thesis using length_pciListDevices [of K limit s] by (simp add: pciListDevices_def)
qed









text \<open>
  The name formatted for a configuration address and the parser of directory names are inverse:
  what \<open>pciListSysfs\<close> reads from the name of the directory whose file \<open>pciSysfsConfigPath\<close> opens is
  the segment, bus, device and function of the address.
\<close>

theorem pci_name_round_trip:
  "pci_scan_name (pci_slot_name addr) = Some (PCI_SEG addr, PCI_BUS addr, PCI_DEV addr, PCI_FUNC addr)"
proof -
  have nx: "\<not> isxdigit (CHR '':'')" "\<not> isxdigit (CHR ''.'')"
    by (simp_all add: isxdigit_def isdigit_def char_in_def)
  show ?thesis
    using scan_x_fmt_x [of 1 "[]" "PCI_FUNC addr"] nx
    by (simp add: pci_scan_name_def pci_slot_name_def scan_x_fmt_x)
qed

lemma legacy_bytes_prefix:
  "i \<le> 0x100 \<Longrightarrow> \<exists>k \<le> length bs. drop k (snd (fst (pci_legacy_bytes K a i bs w s))) = drop k bs \<and>
    unat (fst (fst (pci_legacy_bytes K a i bs w s))) = unat i + k"
proof (induction bs arbitrary: i s)
  case Nil
  show ?case by simp
next
  case (Cons b bs)
  show ?case
  proof (cases "PCI_REG a + i \<le> PCI_REG_MASK")
    case False
    then show ?thesis by (intro exI [of _ 0]) simp
  next
    case True
    let ?port = "PCI_LEGACY_DATA_PORT + ucast ((a + i) AND 3)"
    define s1 where "s1 = sys_outl K (PCI_ADDR_ENABLE OR ((a + i) AND 0x00FFFFFC)) PCI_LEGACY_ADDR_PORT s"
    define x where "x = (if w then (b, sys_outb K b ?port s1) else sys_inb K ?port s1)"
    have "i \<noteq> 0x100"
      using True unat_reg_sum [of "0x100" a] by (auto simp: word_le_nat_alt pci_consts)
    then have i: "i + 1 \<le> 0x100" using Cons.prems by (intro inc_le) (simp add: order_less_le)
    have "unat i \<le> 256" using Cons.prems by (simp add: word_le_nat_alt)
    then have "unat (i + 1) = Suc (unat i)" by (simp add: unat_word_ariths)
    with Cons.IH [OF i, of "snd x"] obtain k where "k \<le> length bs"
      "drop k (snd (fst (pci_legacy_bytes K a (i + 1) bs w (snd x)))) = drop k bs"
      "unat (fst (fst (pci_legacy_bytes K a (i + 1) bs w (snd x)))) = Suc (unat i) + k" by auto
    then show ?thesis
      using True
      by (intro exI [of _ "Suc k"], cases w) (simp_all add: Let_def split_def x_def flip: s1_def)
  qed
qed

lemma pciAccess_fill:
  assumes len: "length buf = unat n"
  shows "\<exists>k. drop k (snd (fst (pciAccess K a n buf False s))) = drop k buf \<and>
    k \<le> unat n \<and> (fst (fst (pciAccess K a n buf False s)) = 0 \<longrightarrow> k = unat n)"
proof -
  have sysfs: "\<exists>k. drop k (snd (fst (pciSysfsAccess K a n buf False s))) = drop k buf \<and>
    k \<le> unat n \<and> (fst (fst (pciSysfsAccess K a n buf False s)) = 0 \<longrightarrow> k = unat n)"
  proof -
    obtain fd s1 where op: "sys_open K (pciSysfsConfigPath a 256) O_RDONLY s = (fd, s1)" by fastforce
    obtain m buf1 s2 where rd: "sys_pread K fd (unat n) (ucast (PCI_REG a)) buf s1 = ((m, buf1), s2)"
      by (metis prod.collapse)
    then have m: "m = - 1 \<and> buf1 = buf \<or> (\<exists>got. m = int (length got) \<and> length got \<le> unat n \<and> buf1 = blit 0 got buf)"
      by (auto simp: sys_pread_def Let_def split: prod.splits option.splits)
        (metis length_take min.cobounded2)
    have pos: "- 1 \<noteq> uint n" using uint_ge_0 [of n] by linarith
    show ?thesis
    proof (cases "fd < 0 \<or> m = - 1")
      case True
      with m len show ?thesis
        using pos by (intro exI [of _ 0]) (auto simp: pciSysfsAccess_def op rd)
    next
      case False
      with m obtain got where "m = int (length got)" "length got \<le> unat n" "buf1 = blit 0 got buf" by auto
      then show ?thesis
        using False len by (intro exI [of _ "length got"]) (auto simp: pciSysfsAccess_def op rd blit_def dest: arg_cong [of _ _ nat])
    qed
  qed
  have legacy: "\<exists>k. drop k (snd (fst (pciLegacyAccess K a n buf False s))) = drop k buf \<and>
    k \<le> unat n \<and> (fst (fst (pciLegacyAccess K a n buf False s)) = 0 \<longrightarrow> k = unat n)"
  proof (rule pciLegacyAccess_cases [of s K a n])
    fix s1 assume "\<And>buf w. pciLegacyAccess K a n buf w s = ((- 1, buf), s1)"
    then show ?thesis by (intro exI [of _ 0]) simp
  next
    fix s1 assume eq: "\<And>buf w. length buf = unat n \<Longrightarrow> pciLegacyAccess K a n buf w s =
      (let ((i, vs), s2) = pci_legacy_bytes K a 0 buf w s1
       in ((if i = n then 0 else - 1, vs),
           snd (sys_ioperm K PCI_LEGACY_ADDR_PORT PCI_LEGACY_NPORTS False s2)))"
    show ?thesis
      using legacy_bytes_prefix [of 0 buf K a False s1] len
      by (auto simp: eq [OF len] split_def Let_def)
  qed
  show ?thesis
    using sysfs legacy len by (auto simp: pciAccess_def intro: exI [of _ 0])
qed

text \<open>
  A configuration read of \<open>len\<close> bytes answers some first part read from the function, then \<open>FFh\<close>
  to the end, like a master abort; it reports success only when the whole range was read.
\<close>

theorem pciReadConfig_master_abort:
  assumes "length buf = unat len"
  shows "\<exists>got. length got \<le> unat len \<and>
    snd (fst (pciReadConfig K addr len buf s)) = got @ replicate (unat len - length got) 255 \<and>
    (fst (fst (pciReadConfig K addr len buf s)) = 0 \<longrightarrow> length got = unat len)"
proof -
  let ?ff = "replicate (unat len) (255 :: u8)"
  obtain k where k: "drop k (snd (fst (pciAccess K addr len ?ff False s))) = drop k ?ff" "k \<le> unat len"
    "fst (fst (pciAccess K addr len ?ff False s)) = 0 \<longrightarrow> k = unat len"
    using pciAccess_fill [of ?ff len K addr s] by auto
  have "length (snd (fst (pciAccess K addr len ?ff False s))) = unat len"
    by (rule length_pciAccess) simp
  then show ?thesis
    using k assms append_take_drop_id [of k "snd (fst (pciAccess K addr len ?ff False s))"]
    by (intro exI [of _ "take k (snd (fst (pciAccess K addr len ?ff False s)))"])
      (simp add: pciReadConfig_def blit_full)
qed

theorem pciReadConfig_master_abort_witness:
  "\<exists>got. length got \<le> unat (2 :: u32) \<and>
    snd (fst (pciReadConfig sim_os 0x800000FF 2 [1, 2] sim_start)) =
      got @ replicate (unat (2 :: u32) - length got) 255 \<and>
    (fst (fst (pciReadConfig sim_os 0x800000FF 2 [1, 2] sim_start)) = 0 \<longrightarrow> length got = unat (2 :: u32))"
  by (rule pciReadConfig_master_abort) simp

end
