(* ===== verification/Packet_Transport.thy ===== *)
theory Packet_Transport
  imports Packet_Format "HOL-Library.Sublist"
begin

text \<open>
  Packet framing, \<open>lib/packet.c\<close>: \<open>transferAll\<close>, \<open>readPacket\<close> and \<open>writePacket\<close>. A descriptor is
  seen through the outcomes of the \<open>read\<close> and \<open>write\<close> calls on it, in order. Any finite behaviour
  of the peer and of the kernel is such a script: fragments of any size, \<open>EINTR\<close>, errors, the end
  of the stream. The specification below knows only the byte stream; the refinement lemmas show
  that fragmentation and interruptions never matter.
\<close>

section \<open>Descriptors\<close>

datatype rx_event = Chunk "u8 list" | RxIntr | RxErr

datatype wr_event = Accept nat | WrIntr | WrErr | WrPipe

text \<open>
  \<open>WrPipe\<close> is \<open>EPIPE\<close>, the peer has closed the connection. \<open>SIGPIPE\<close> comes with it: \<open>fdkd\<close> ignores the signal
  and sees an error; a client, which does not, ends in the call (\<open>sigpipe\<close> of \<open>Request_Exec\<close>).
\<close>

text \<open>
  One \<open>read\<close> of at most \<open>n\<close> bytes: the bytes read (none at the end of the stream), \<open>EINTR\<close>, or
  another error. The rest of a fragment stays for the next call.
\<close>

datatype io_result = Got "u8 list" | Intr | Fail

fun sock_read :: "nat \<Rightarrow> rx_event list \<Rightarrow> io_result \<times> rx_event list" where
  "sock_read n [] = (Got [], [])"
| "sock_read n (RxIntr # r) = (Intr, r)"
| "sock_read n (RxErr # r) = (Fail, r)"
| "sock_read n (Chunk bs # r) = (Got (take n bs), if length bs \<le> n then r else Chunk (drop n bs) # r)"

text \<open>One \<open>write\<close>: the bytes the kernel takes; a script that has run out takes everything.\<close>

fun sock_write :: "u8 list \<Rightarrow> wr_event list \<Rightarrow> io_result \<times> wr_event list" where
  "sock_write bs [] = (Got bs, [])"
| "sock_write bs (WrIntr # r) = (Intr, r)"
| "sock_write bs (WrErr # r) = (Fail, r)"
| "sock_write bs (WrPipe # r) = (Fail, r)"
| "sock_write bs (Accept k # r) = (Got (take k bs), r)"

section \<open>transferAll\<close>

text \<open>
  \<open>transferAll (fd, buf, len, false)\<close>: the bytes stored, in order; the C result is their number.
\<close>

function transferAll_read :: "nat \<Rightarrow> rx_event list \<Rightarrow> u8 list \<times> rx_event list" where
  "transferAll_read len rx =
     (if len = 0 then ([], rx)
      else case sock_read len rx of
          (Intr, rx') \<Rightarrow> transferAll_read len rx'
        | (Fail, rx') \<Rightarrow> ([], rx')
        | (Got bs, rx') \<Rightarrow>
            (if bs = [] then ([], rx')
             else let (cs, rx'') = transferAll_read (len - length bs) rx' in (bs @ cs, rx'')))"
  by pat_completeness auto

text \<open>An interrupted call and a fragment read each use something up.\<close>

lemma sock_read_Intr: "sock_read n rx = (Intr, rx') \<Longrightarrow> length rx' < length rx"
  by (cases "(n, rx)" rule: sock_read.cases) auto

lemma sock_read_Got:
  "sock_read n rx = (Got bs, rx') \<Longrightarrow> length rx' \<le> length rx \<and> length bs \<le> n"
  by (cases "(n, rx)" rule: sock_read.cases) (auto split: if_splits)

lemma sock_read_progress:
  assumes "(Got bs, rx') = sock_read n rx" and "bs \<noteq> []" and "0 < n"
  shows "n - length bs + length rx' < n + length rx"
proof -
  have "length rx' \<le> length rx" and "0 < length bs"
    using sock_read_Got [OF assms(1) [symmetric]] assms(2) by simp_all
  then show ?thesis using assms(3) by linarith
qed

termination transferAll_read
proof (relation "measure (\<lambda>(len, rx). len + length rx)", goal_cases)
  case 1
  show ?case by simp
next
  case 2
  then show ?case by (auto intro: sock_read_progress)
next
  case 3
  then show ?case by (auto dest: sock_read_Intr [OF sym])
qed

declare transferAll_read.simps [simp del]

text \<open>\<open>transferAll (fd, buf, len, true)\<close>: the bytes the peer gets.\<close>

function transferAll_write :: "u8 list \<Rightarrow> wr_event list \<Rightarrow> u8 list \<times> wr_event list" where
  "transferAll_write buf wr =
     (if buf = [] then ([], wr)
      else case sock_write buf wr of
          (Intr, wr') \<Rightarrow> transferAll_write buf wr'
        | (Fail, wr') \<Rightarrow> ([], wr')
        | (Got bs, wr') \<Rightarrow>
            (if bs = [] then ([], wr')
             else let (cs, wr'') = transferAll_write (drop (length bs) buf) wr' in (bs @ cs, wr'')))"
  by pat_completeness auto

lemma sock_write_Intr: "sock_write bs wr = (Intr, wr') \<Longrightarrow> length wr' < length wr"
  by (cases "(bs, wr)" rule: sock_write.cases) auto

lemma sock_write_Got:
  "sock_write bs wr = (Got cs, wr') \<Longrightarrow> length wr' \<le> length wr \<and> (\<exists>k. cs = take k bs)"
  by (cases "(bs, wr)" rule: sock_write.cases) (auto intro: exI [of _ "length bs"])

lemma sock_write_progress:
  assumes "(Got cs, wr') = sock_write bs wr" and "cs \<noteq> []" and "bs \<noteq> []"
  shows "length bs - length cs + length wr' < length bs + length wr"
proof -
  have "length wr' \<le> length wr" and "0 < length cs" and "0 < length bs"
    using sock_write_Got [OF assms(1) [symmetric]] assms(2,3) by simp_all
  then show ?thesis by linarith
qed

termination transferAll_write
proof (relation "measure (\<lambda>(buf, wr). length buf + length wr)", goal_cases)
  case 1
  show ?case by simp
next
  case 2
  then show ?case by (auto intro: sock_write_progress)
next
  case 3
  then show ?case by (auto dest: sock_write_Intr [OF sym])
qed

declare transferAll_write.simps [simp del]

section \<open>readPacket and writePacket\<close>

text \<open>
  \<open>readPacket (fd, pktBuf, lenPktBuf)\<close>: the C result, the buffer afterwards and the rest of the
  script. A failed transfer leaves the bytes it got in the buffer.
\<close>

definition readPacket :: "u8 list \<Rightarrow> nat \<Rightarrow> rx_event list \<Rightarrow> s32 \<times> u8 list \<times> rx_event list" where
  "readPacket pktBuf lenPktBuf rx =
     (if lenPktBuf < sizeof fdkCommHdr_t then (- 1, pktBuf, rx)
      else
        let (hd_bytes, rx1) = transferAll_read (sizeof fdkCommHdr_t) rx;
            buf1 = blit 0 hd_bytes pktBuf;
            n = length hd_bytes;
            pktLen = unat (hdr_pktLen buf1)
        in if n = 0 then (0, buf1, rx1)
           else if n \<noteq> sizeof fdkCommHdr_t then (- 1, buf1, rx1)
           else if pktLen < sizeof fdkCommHdr_t \<or> lenPktBuf < pktLen then (- 1, buf1, rx1)
           else
             let (body, rx2) = transferAll_read (pktLen - sizeof fdkCommHdr_t) rx1;
                 buf2 = blit (sizeof fdkCommHdr_t) body buf1
             in if length body \<noteq> pktLen - sizeof fdkCommHdr_t then (- 1, buf2, rx2)
                else (int pktLen, buf2, rx2))"

text \<open>\<open>writePacket (fd, pktBuf)\<close>: the C result, the bytes sent and the rest of the script.\<close>

definition writePacket :: "u8 list \<Rightarrow> wr_event list \<Rightarrow> s32 \<times> u8 list \<times> wr_event list" where
  "writePacket pktBuf wr =
     (let len = unat (hdr_pktLen pktBuf);
          (sent, wr') = transferAll_write (take len pktBuf) wr
      in (if length sent = len then 0 else - 1, sent, wr'))"

section \<open>The byte stream\<close>

text \<open>What a reader gets from a script before the stream ends or fails.\<close>

fun rx_flat :: "rx_event list \<Rightarrow> u8 list" where
  "rx_flat [] = []"
| "rx_flat (RxIntr # r) = rx_flat r"
| "rx_flat (RxErr # r) = []"
| "rx_flat (Chunk bs # r) = (if bs = [] then [] else bs @ rx_flat r)"

text \<open>How it stops: at the end of the stream, an orderly shutdown, or by an error.\<close>

datatype stream_end = Orderly | Broken

fun rx_end :: "rx_event list \<Rightarrow> stream_end" where
  "rx_end [] = Orderly"
| "rx_end (RxIntr # r) = rx_end r"
| "rx_end (RxErr # r) = Broken"
| "rx_end (Chunk bs # r) = (if bs = [] then Orderly else rx_end r)"

lemma sock_read_end:
  assumes "0 < n"
  shows "sock_read n rx = (Intr, rx') \<Longrightarrow> rx_end rx' = rx_end rx"
    and "sock_read n rx = (Got bs, rx') \<Longrightarrow> bs \<noteq> [] \<Longrightarrow> rx_end rx' = rx_end rx"
  using assms by (cases "(n, rx)" rule: sock_read.cases; auto split: if_splits)+

lemma transferAll_read_end:
  "transferAll_read len rx = (bs, rx') \<Longrightarrow> length bs = len \<Longrightarrow> rx_end rx' = rx_end rx"
proof (induction len rx arbitrary: bs rx' rule: transferAll_read.induct)
  case (1 len rx)
  show ?case
  proof (cases "len = 0")
    case True
    with "1.prems" show ?thesis by (simp add: transferAll_read.simps)
  next
    case False
    then have pos: "0 < len" by simp
    obtain r rx1 where sr: "sock_read len rx = (r, rx1)" by fastforce
    show ?thesis
    proof (cases r)
      case (Got cs)
      with "1.prems" False sr have ne: "cs \<noteq> []" by (auto simp: transferAll_read.simps [of len])
      obtain ds rx2 where rest: "transferAll_read (len - length cs) rx1 = (ds, rx2)" by fastforce
      have "bs = cs @ ds" "rx' = rx2"
        using "1.prems"(1) False sr Got ne rest by (simp_all add: transferAll_read.simps [of len])
      then show ?thesis
        using "1.IH"(1) [OF False sr [symmetric] Got ne rest] sock_read_end(2) [OF pos] sr Got ne "1.prems"(2) by auto
    next
      case Intr
      then show ?thesis
        using "1.IH"(2) [OF False sr [symmetric] Intr] sock_read_end(1) [OF pos] sr "1.prems" False
        by (simp add: transferAll_read.simps [of len rx])
    next
      case Fail
      with "1.prems" False sr show ?thesis by (simp add: transferAll_read.simps [of len])
    qed
  qed
qed

lemma sock_read_flat:
  assumes "0 < n"
  shows "sock_read n rx = (Intr, rx') \<Longrightarrow> rx_flat rx' = rx_flat rx"
    and "sock_read n rx = (Fail, rx') \<Longrightarrow> rx_flat rx = []"
    and "sock_read n rx = (Got [], rx') \<Longrightarrow> rx_flat rx = []"
    and "sock_read n rx = (Got bs, rx') \<Longrightarrow> bs \<noteq> [] \<Longrightarrow> rx_flat rx = bs @ rx_flat rx'"
  using assms by (cases "(n, rx)" rule: sock_read.cases; auto split: if_splits)+

lemma transferAll_read_flat:
  "transferAll_read len rx = (bs, rx') \<Longrightarrow>
     bs = take len (rx_flat rx) \<and>
     (len \<le> length (rx_flat rx) \<longrightarrow> rx_flat rx' = drop len (rx_flat rx))"
proof (induction len rx arbitrary: bs rx' rule: transferAll_read.induct)
  case (1 len rx)
  show ?case
  proof (cases "len = 0")
    case True
    with "1.prems" show ?thesis by (simp add: transferAll_read.simps)
  next
    case False
    then have pos: "0 < len" by simp
    obtain r rx1 where sr: "sock_read len rx = (r, rx1)" by fastforce
    show ?thesis
    proof (cases r)
      case (Got cs)
      show ?thesis
      proof (cases "cs = []")
        case True
        with sr Got have "rx_flat rx = []" by (auto intro: sock_read_flat(3) [OF pos])
        with "1.prems" False sr Got True show ?thesis by (simp add: transferAll_read.simps [of len])
      next
        case ne: False
        have flat: "rx_flat rx = cs @ rx_flat rx1"
          using sock_read_flat(4) [OF pos] sr Got ne by blast
        have le: "length cs \<le> len" using sock_read_Got [of len rx cs rx1] sr Got by simp
        obtain ds rx2 where rest: "transferAll_read (len - length cs) rx1 = (ds, rx2)" by fastforce
        from "1.IH"(1) [OF False sr [symmetric] Got ne rest]
        have "ds = take (len - length cs) (rx_flat rx1) \<and>
          (len - length cs \<le> length (rx_flat rx1) \<longrightarrow> rx_flat rx2 = drop (len - length cs) (rx_flat rx1))" .
        moreover have "bs = cs @ ds" "rx' = rx2"
          using "1.prems" False sr Got ne rest by (simp_all add: transferAll_read.simps [of len])
        ultimately show ?thesis using le flat by auto
      qed
    next
      case Intr
      have "transferAll_read len rx1 = (bs, rx')"
        using "1.prems" False sr Intr by (simp add: transferAll_read.simps [of len rx])
      from "1.IH"(2) [OF False sr [symmetric] Intr this] sock_read_flat(1) [OF pos] sr Intr
      show ?thesis by metis
    next
      case Fail
      with sr have "rx_flat rx = []" by (auto intro: sock_read_flat(2) [OF pos])
      with "1.prems" False sr Fail show ?thesis by (simp add: transferAll_read.simps [of len])
    qed
  qed
qed

text \<open>A write transfer sends a prefix, and all of it when no call fails or takes nothing.\<close>

fun wr_ok :: "wr_event \<Rightarrow> bool" where
  "wr_ok (Accept k) = (0 < k)"
| "wr_ok WrIntr = True"
| "wr_ok WrErr = False"
| "wr_ok WrPipe = False"

lemma transferAll_write_prefix:
  "\<exists>n. fst (transferAll_write buf wr) = take n buf"
proof (induction buf wr rule: transferAll_write.induct)
  case (1 buf wr)
  obtain r wr1 where sw: "sock_write buf wr = (r, wr1)" by fastforce
  show ?case
  proof (cases "buf = [] \<or> r = Fail \<or> r = Got []")
    case True
    with sw show ?thesis
      by (auto simp: transferAll_write.simps [of buf] intro: exI [of _ 0])
  next
    case False
    then show ?thesis
    proof (cases r)
      case (Got bs)
      with False have ne: "buf \<noteq> []" "bs \<noteq> []" by auto
      from sock_write_Got [of buf wr bs wr1] sw Got obtain k where k: "bs = take k buf" by auto
      from "1.IH"(1) [OF ne(1) sw [symmetric] Got ne(2)] obtain n where
        "fst (transferAll_write (drop (length bs) buf) wr1) = take n (drop (length bs) buf)" by blast
      then have "fst (transferAll_write buf wr) = bs @ take n (drop (length bs) buf)"
        using ne sw Got
        by (cases "transferAll_write (drop (length bs) buf) wr1")
          (simp add: transferAll_write.simps [of buf])
      also have "\<dots> = take (length bs + n) buf"
        using k by (metis length_take min.cobounded1 take_add append_take_drop_id append_eq_conv_conj)
      finally show ?thesis ..
    next
      case Intr
      with False sw "1.IH"(2) [OF _ sw [symmetric] Intr] show ?thesis
        by (simp add: transferAll_write.simps [of buf wr])
    qed simp
  qed
qed

lemma transferAll_write_all:
  "list_all wr_ok wr \<Longrightarrow> fst (transferAll_write buf wr) = buf \<and>
     list_all wr_ok (snd (transferAll_write buf wr))"
proof (induction buf wr rule: transferAll_write.induct)
  case (1 buf wr)
  show ?case
  proof (cases "buf = []")
    case True
    with "1.prems" show ?thesis by (simp add: transferAll_write.simps)
  next
    case False
    show ?thesis
    proof (cases wr)
      case Nil
      with False show ?thesis
        by (simp add: transferAll_write.simps [of buf] transferAll_write.simps [of "[]"])
    next
      case (Cons e r)
      show ?thesis
      proof (cases e)
        case (Accept k)
        with Cons "1.prems" have k: "0 < k" "list_all wr_ok r" by auto
        then have ne: "take k buf \<noteq> []" using False by simp
        have sw: "sock_write buf wr = (Got (take k buf), r)" by (simp add: Cons Accept)
        from "1.IH"(1) [OF False sw [symmetric] refl ne k(2)]
        show ?thesis using False ne sw
          by (auto simp: transferAll_write.simps [of buf] min_def split: prod.split)
      next
        case WrIntr
        have sw: "sock_write buf wr = (Intr, r)" by (simp add: Cons WrIntr)
        with "1.IH"(2) [OF False sw [symmetric] refl] "1.prems" Cons False show ?thesis
          by (simp add: transferAll_write.simps [of buf "e # r"])
      next
        case WrErr
        with Cons "1.prems" show ?thesis by simp
      next
        case WrPipe
        with Cons "1.prems" show ?thesis by simp
      qed
    qed
  qed
qed

text \<open>A write transfer uses up outcomes from the front of the script.\<close>

lemma sock_write_suffix: "suffix (snd (sock_write bs wr)) wr"
  by (cases "(bs, wr)" rule: sock_write.cases) (auto simp: suffix_def)

lemma transferAll_write_suffix: "suffix (snd (transferAll_write buf wr)) wr"
proof (induction buf wr rule: transferAll_write.induct)
  case (1 buf wr)
  obtain r wr1 where sw: "sock_write buf wr = (r, wr1)" by fastforce
  then have 2: "suffix wr1 wr" using sock_write_suffix [of buf wr] by simp
  show ?case
  proof (cases "buf = [] \<or> r = Fail \<or> r = Got []")
    case True
    with sw 2 show ?thesis by (auto simp: transferAll_write.simps [of buf])
  next
    case False
    then show ?thesis
    proof (cases r)
      case (Got bs)
      with False have ne: "buf \<noteq> []" "bs \<noteq> []" by auto
      have "suffix (snd (transferAll_write (drop (length bs) buf) wr1)) wr1"
        by (rule "1.IH"(1) [OF ne(1) sw [symmetric] Got ne(2)])
      with ne sw Got 2 show ?thesis
        by (auto simp: transferAll_write.simps [of buf] split: prod.split intro: suffix_order.trans)
    next
      case Intr
      with False sw 2 "1.IH"(2) [OF _ sw [symmetric] Intr] show ?thesis
        by (auto simp: transferAll_write.simps [of buf wr] intro: suffix_order.trans)
    qed simp
  qed
qed

lemma writePacket_suffix: "writePacket pktBuf wr = (e, sent, wr') \<Longrightarrow> suffix wr' wr"
  using transferAll_write_suffix [of "take (unat (hdr_pktLen pktBuf)) pktBuf" wr]
  by (auto simp: writePacket_def Let_def split: prod.splits)

section \<open>Framing: the specification\<close>

text \<open>
  The next packet of a stream: the connection is over at the end of the stream; a truncated or
  ill-sized packet is malformed; otherwise the first \<open>pktLen\<close> bytes are the packet.
\<close>

datatype frame = Closed | Malformed | Frame "u8 list"

definition next_frame :: "nat \<Rightarrow> u8 list \<Rightarrow> frame" where
  "next_frame maxLen st =
     (let len = unat (hdr_pktLen st)
      in if st = [] then Closed
         else if length st < 8 then Malformed
         else if len < 8 \<or> maxLen < len then Malformed
         else if length st < len then Malformed
         else Frame (take len st))"

text \<open>A packet that can be sent: its own length field is right and in range.\<close>

definition packet_ok :: "u8 list \<Rightarrow> bool" where
  "packet_ok p \<longleftrightarrow> 8 \<le> length p \<and> length p \<le> FDK_MAXSZ_PKT \<and> unat (hdr_pktLen p) = length p"

lemma hdr_pktLen_append: "8 \<le> length p \<Longrightarrow> hdr_pktLen (p @ q) = hdr_pktLen p"
  by (simp add: hdr_pktLen_def layout get_append)

lemma next_frame_append:
  "packet_ok p \<Longrightarrow> next_frame FDK_MAXSZ_PKT (p @ rest) = Frame p"
  by (auto simp: next_frame_def packet_ok_def hdr_pktLen_append Let_def)

lemma next_frame_Frame:
  assumes "next_frame maxLen st = Frame p"
  shows "p = take (length p) st \<and> 8 \<le> length p \<and> length p \<le> maxLen \<and> unat (hdr_pktLen p) = length p"
proof -
  let ?len = "unat (hdr_pktLen st)"
  from assms have len: "8 \<le> ?len" "?len \<le> maxLen" "?len \<le> length st" and p: "p = take ?len st"
    by (auto simp: next_frame_def Let_def split: if_splits)
  then have "hdr_pktLen p = hdr_pktLen st"
    by (intro hdr_cong_take(3) [of ?len]) auto
  with len p show ?thesis by simp
qed

section \<open>readPacket meets the specification\<close>

lemma readPacket_unfold:
  assumes "length pktBuf = lenPktBuf" and "8 \<le> lenPktBuf"
    and "readPacket pktBuf lenPktBuf rx = (n, buf', rx')"
  shows "length buf' = lenPktBuf \<and>
    (case next_frame lenPktBuf (rx_flat rx) of
       Closed \<Rightarrow> n = 0 \<and> buf' = pktBuf
     | Malformed \<Rightarrow> n = - 1 \<and>
         buf' = blit 0 (take (if length (rx_flat rx) < 8 \<or> unat (hdr_pktLen (rx_flat rx)) < 8 \<or>
            lenPktBuf < unat (hdr_pktLen (rx_flat rx)) then 8 else unat (hdr_pktLen (rx_flat rx)))
            (rx_flat rx)) pktBuf
     | Frame p \<Rightarrow> n = int (length p) \<and> buf' = blit 0 p pktBuf \<and>
         rx_flat rx' = drop (length p) (rx_flat rx))"
proof -
  let ?st = "rx_flat rx"
  obtain h rx1 where h: "transferAll_read 8 rx = (h, rx1)" by fastforce
  from transferAll_read_flat [OF h] have hs: "h = take 8 ?st"
    and flat1: "8 \<le> length ?st \<longrightarrow> rx_flat rx1 = drop 8 ?st" by auto
  let ?buf1 = "blit 0 h pktBuf"
  have len1: "length ?buf1 = lenPktBuf" using assms(1,2) hs by (intro trans [OF length_blit]) auto
  show ?thesis
  proof (cases "length ?st < 8")
    case True
    then have "length h < 8" using hs by simp
    then show ?thesis
      using assms(3) h hs True len1 assms(2)
      by (auto simp: readPacket_def layout next_frame_def Let_def split: if_splits)
  next
    case False
    then have h8: "length h = 8" using hs by simp
    have "take 8 ?buf1 = take 8 ?st"
      using h8 hs by (simp add: blit_def)
    then have pl: "hdr_pktLen ?buf1 = hdr_pktLen ?st"
      by (rule hdr_cong_take(3)) simp
    let ?len = "unat (hdr_pktLen ?st)"
    show ?thesis
    proof (cases "?len < 8 \<or> lenPktBuf < ?len")
      case True
      then show ?thesis
        using assms(2,3) h h8 pl False len1 hs
        by (auto simp: readPacket_def layout next_frame_def Let_def split: if_splits)
    next
      case ok: False
      obtain b rx2 where b: "transferAll_read (?len - 8) rx1 = (b, rx2)" by fastforce
      from transferAll_read_flat [OF b] flat1 False
      have bs: "b = take (?len - 8) (drop 8 ?st)"
        and flat2: "?len \<le> length ?st \<longrightarrow> rx_flat rx2 = drop (?len - 8) (drop 8 ?st)" by auto
      have hb: "h @ b = take ?len ?st"
        using ok hs bs by (metis le_add_diff_inverse not_less take_add)
      have "blit 8 b ?buf1 = blit 0 (h @ b) pktBuf"
        using h8 assms(1,2) by (simp add: blit_def add.commute)
      moreover have "length (blit 8 b ?buf1) = lenPktBuf"
      proof -
        have "length b \<le> ?len - 8" by (simp add: bs)
        then have "8 + length b \<le> length ?buf1" using len1 ok by linarith
        then show ?thesis using len1 by simp
      qed
      moreover have "readPacket pktBuf lenPktBuf rx =
          (if length b \<noteq> ?len - 8 then (- 1, blit 8 b ?buf1, rx2) else (int ?len, blit 8 b ?buf1, rx2))"
        using assms(2) ok h8 by (auto simp: readPacket_def layout h pl b Let_def)
      moreover have "length b = ?len - 8 \<longleftrightarrow> ?len \<le> length ?st"
        using False ok bs by auto
      moreover have "next_frame lenPktBuf ?st =
          (if length ?st < ?len then Malformed else Frame (take ?len ?st))"
        using False ok by (auto simp: next_frame_def Let_def)
      ultimately show ?thesis
        using assms(3) False ok hb flat2 by (cases "?len \<le> length ?st") auto
    qed
  qed
qed

text \<open>The size of a script, which every read of a packet makes smaller.\<close>

fun rx_size :: "rx_event list \<Rightarrow> nat" where
  "rx_size [] = 0"
| "rx_size (Chunk bs # r) = Suc (length bs + rx_size r)"
| "rx_size (e # r) = Suc (rx_size r)"

lemma sock_read_size:
  "sock_read n rx = (Got bs, rx') \<Longrightarrow> rx_size rx' + length bs \<le> rx_size rx"
  "sock_read n rx = (Intr, rx') \<Longrightarrow> rx_size rx' \<le> rx_size rx"
  "sock_read n rx = (Fail, rx') \<Longrightarrow> rx_size rx' \<le> rx_size rx"
  by (cases "(n, rx)" rule: sock_read.cases; auto split: if_splits)+

lemma transferAll_read_size:
  "transferAll_read len rx = (bs, rx') \<Longrightarrow> rx_size rx' + length bs \<le> rx_size rx"
proof (induction len rx arbitrary: bs rx' rule: transferAll_read.induct)
  case (1 len rx)
  show ?case
  proof (cases "len = 0")
    case True
    with "1.prems" show ?thesis by (simp add: transferAll_read.simps)
  next
    case False
    obtain r rx1 where sr: "sock_read len rx = (r, rx1)" by fastforce
    show ?thesis
    proof (cases r)
      case (Got cs)
      obtain ds rx2 where rest: "transferAll_read (len - length cs) rx1 = (ds, rx2)" by fastforce
      have "rx_size rx1 + length cs \<le> rx_size rx" using sock_read_size(1) sr Got by blast
      moreover have "rx_size rx2 + length ds \<le> rx_size rx1" if "cs \<noteq> []"
        using "1.IH"(1) [OF False sr [symmetric] Got that rest] .
      ultimately show ?thesis
        using "1.prems" False sr Got rest
        by (cases "cs = []") (auto simp: transferAll_read.simps [of len])
    next
      case Intr
      have "transferAll_read len rx1 = (bs, rx')"
        using "1.prems" False sr Intr by (simp add: transferAll_read.simps [of len rx])
      from "1.IH"(2) [OF False sr [symmetric] Intr this] sock_read_size(2) sr Intr
      show ?thesis by (meson le_trans)
    next
      case Fail
      with "1.prems" False sr have "bs = []" "rx' = rx1"
        by (simp_all add: transferAll_read.simps [of len])
      then show ?thesis using sock_read_size(3) sr Fail by simp
    qed
  qed
qed

lemma readPacket_size:
  assumes "readPacket pktBuf lenPktBuf rx = (n, buf', rx')"
  shows "rx_size rx' \<le> rx_size rx" and "0 < n \<Longrightarrow> rx_size rx' < rx_size rx"
proof -
  obtain h rx1 where h: "transferAll_read 8 rx = (h, rx1)" by fastforce
  let ?len = "unat (hdr_pktLen (blit 0 h pktBuf))"
  obtain b rx2 where b: "transferAll_read (?len - 8) rx1 = (b, rx2)" by fastforce
  from transferAll_read_size [OF h] transferAll_read_size [OF b]
  have "rx_size rx1 + length h \<le> rx_size rx" "rx_size rx2 + length b \<le> rx_size rx1" .
  with assms h b show "rx_size rx' \<le> rx_size rx" "0 < n \<Longrightarrow> rx_size rx' < rx_size rx"
    by (auto simp: readPacket_def layout Let_def split: if_splits)
qed

section \<open>The contract of a packet reader\<close>

text \<open>
  What the server loop and the request client rely on: a reader of a connection \<open>c\<close> yields the
  frames of the stream of \<open>c\<close>, whatever else the connection does.
\<close>

locale packet_reader =
  fixes rd :: "u8 list \<Rightarrow> nat \<Rightarrow> 'c \<Rightarrow> s32 \<times> u8 list \<times> 'c"
    and stream :: "'c \<Rightarrow> u8 list"
  assumes rd_frame: "length buf = maxLen \<Longrightarrow> 8 \<le> maxLen \<Longrightarrow> next_frame maxLen (stream c) = Frame p \<Longrightarrow>
      \<exists>c'. rd buf maxLen c = (int (length p), blit 0 p buf, c') \<and> stream c' = drop (length p) (stream c)"
    and rd_stop: "length buf = maxLen \<Longrightarrow> 8 \<le> maxLen \<Longrightarrow> \<nexists>p. next_frame maxLen (stream c) = Frame p \<Longrightarrow>
      fst (rd buf maxLen c) \<le> 0"
begin

lemma rd_packet:
  assumes "length buf = FDK_MAXSZ_PKT" and "packet_ok p" and "stream c = p @ rest"
  shows "\<exists>c'. rd buf FDK_MAXSZ_PKT c = (int (length p), p @ drop (length p) buf, c') \<and> stream c' = rest"
proof -
  have "next_frame FDK_MAXSZ_PKT (stream c) = Frame p"
    using next_frame_append [OF assms(2)] assms(3) by simp
  from rd_frame [OF assms(1) _ this] assms(3) show ?thesis
    by (auto simp: blit_def)
qed

lemma rd_end:
  assumes "length buf = FDK_MAXSZ_PKT" and "stream c = []"
  shows "fst (rd buf FDK_MAXSZ_PKT c) \<le> 0"
  using rd_stop [OF assms(1), of c] assms(2) by (simp add: next_frame_def)

end

interpretation framing: packet_reader readPacket rx_flat
proof
  fix buf :: "u8 list" and maxLen c p
  assume len: "length buf = maxLen" "8 \<le> maxLen"
  obtain n buf' c' where r: "readPacket buf maxLen c = (n, buf', c')" by (metis prod_cases3)
  note u = readPacket_unfold [OF len r]
  show "\<exists>c'. readPacket buf maxLen c = (int (length p), blit 0 p buf, c') \<and>
      rx_flat c' = drop (length p) (rx_flat c)" if "next_frame maxLen (rx_flat c) = Frame p"
    using u r that by simp
  show "fst (readPacket buf maxLen c) \<le> 0" if "\<nexists>p. next_frame maxLen (rx_flat c) = Frame p"
    using u r that by (cases "next_frame maxLen (rx_flat c)") auto
qed

section \<open>Properties\<close>

text \<open>A packet read leaves the rest of the stream, with its ending.\<close>

lemma readPacket_end:
  assumes "readPacket pktBuf lenPktBuf rx = (n, buf', rx')" and "0 < n"
  shows "rx_end rx' = rx_end rx"
proof -
  obtain h rx1 where h: "transferAll_read 8 rx = (h, rx1)" by fastforce
  let ?len = "unat (hdr_pktLen (blit 0 h pktBuf))"
  obtain b rx2 where b: "transferAll_read (?len - 8) rx1 = (b, rx2)" by fastforce
  have "length h = 8" "length b = ?len - 8" "rx' = rx2"
    using assms h b by (auto simp: readPacket_def layout Let_def split: if_splits)
  then show ?thesis using transferAll_read_end [OF h] transferAll_read_end [OF b] by simp
qed

text \<open>
  What \<open>packet.h\<close> promises of \<open>readPacket\<close>: the length of the packet, 0 on an orderly shutdown, -1 on an
  error or a malformed packet.
\<close>

definition documented_result :: "nat \<Rightarrow> rx_event list \<Rightarrow> s32" where
  "documented_result maxLen rx =
     (case next_frame maxLen (rx_flat rx) of
        Frame p \<Rightarrow> int (length p)
      | Malformed \<Rightarrow> - 1
      | Closed \<Rightarrow> (case rx_end rx of Orderly \<Rightarrow> 0 | Broken \<Rightarrow> - 1))"

text \<open>
  C17: fragmentation and interrupted system calls are invisible. Two connections that carry the
  same byte stream and end alike, by a shutdown or by an error, give \<open>readPacket\<close> the same result and
  leave the same packet buffer, and after a packet the same stream with the same ending, however the
  stream is cut into fragments and however often \<open>read\<close> is interrupted. The result is the documented one,
  but for an error that strikes before the first byte of a packet.
\<close>

theorem readPacket_fragmentation:
  assumes "rx_flat rx1 = rx_flat rx2" and "rx_end rx1 = rx_end rx2" and "length pktBuf = lenPktBuf" and "8 \<le> lenPktBuf"
    and "readPacket pktBuf lenPktBuf rx1 = (n1, buf1, rest1)" and "readPacket pktBuf lenPktBuf rx2 = (n2, buf2, rest2)"
  shows "n1 = n2 \<and> buf1 = buf2 \<and> (0 < n1 \<longrightarrow> rx_flat rest1 = rx_flat rest2 \<and> rx_end rest1 = rx_end rest2) \<and>
    (rx_flat rx1 \<noteq> [] \<or> rx_end rx1 = Orderly \<longrightarrow> n1 = documented_result lenPktBuf rx1)"
proof -
  note r = readPacket_unfold [OF assms(3,4,5)] readPacket_unfold [OF assms(3,4,6)]
  have "n1 = n2 \<and> buf1 = buf2 \<and> (0 < n1 \<longrightarrow> rx_flat rest1 = rx_flat rest2)"
    using r assms(1) by (cases "next_frame lenPktBuf (rx_flat rx2)") auto
  moreover have "0 < n1 \<longrightarrow> rx_end rest1 = rx_end rest2"
    using readPacket_end [OF assms(5)] readPacket_end [OF assms(6)] assms(2) calculation by simp
  moreover have "rx_flat rx1 = [] \<longrightarrow> next_frame lenPktBuf (rx_flat rx1) = Closed"
    "next_frame lenPktBuf (rx_flat rx1) = Closed \<longrightarrow> rx_flat rx1 = []"
    by (auto simp: next_frame_def Let_def split: if_splits)
  then have "rx_flat rx1 \<noteq> [] \<or> rx_end rx1 = Orderly \<longrightarrow> n1 = documented_result lenPktBuf rx1"
    using r(1) by (cases "next_frame lenPktBuf (rx_flat rx1)") (auto simp: documented_result_def)
  ultimately show ?thesis by blast
qed

theorem readPacket_fragmentation_witness:
  "let r1 = readPacket (replicate 16 0) 16 [Chunk [1, 0], RxIntr, Chunk [0, 0, 9, 0, 0, 0, 7, 5], RxErr];
       r2 = readPacket (replicate 16 0) 16 [Chunk [1, 0, 0, 0, 9, 0, 0, 0, 7], Chunk [5], RxIntr, RxErr]
   in fst r1 = 9 \<and> fst r1 = fst r2 \<and> fst (snd r1) = fst (snd r2) \<and> rx_flat (snd (snd r1)) = rx_flat (snd (snd r2)) \<and>
     rx_end (snd (snd r1)) = rx_end (snd (snd r2))"
proof -
  let ?rx1 = "[Chunk [1, 0], RxIntr, Chunk [0, 0, 9, 0, 0, 0, 7, 5], RxErr]"
  let ?rx2 = "[Chunk [1, 0, 0, 0, 9, 0, 0, 0, 7], Chunk [5], RxIntr, RxErr]"
  obtain n1 b1 r1 n2 b2 r2 where r: "readPacket (replicate 16 0) 16 ?rx1 = (n1, b1, r1)"
    "readPacket (replicate 16 0) 16 ?rx2 = (n2, b2, r2)" by (metis prod_cases3)
  have d: "documented_result 16 ?rx1 = 9"
    by (simp add: documented_result_def next_frame_def hdr_pktLen_def layout get_defs bytes_at_def)
  have "n1 = n2 \<and> b1 = b2 \<and> (0 < n1 \<longrightarrow> rx_flat r1 = rx_flat r2 \<and> rx_end r1 = rx_end r2) \<and>
      (rx_flat ?rx1 \<noteq> [] \<or> rx_end ?rx1 = Orderly \<longrightarrow> n1 = documented_result 16 ?rx1)"
    by (rule readPacket_fragmentation [OF _ _ _ _ r]) simp_all
  then show ?thesis using d by (simp add: r Let_def)
qed

text \<open>
  The case the documentation has otherwise: an error before the first byte of a packet is reported as an
  orderly shutdown.
\<close>

lemma readPacket_error_as_shutdown:
  assumes "rx_flat rx = []" and "rx_end rx = Broken" and "length pktBuf = lenPktBuf" and "8 \<le> lenPktBuf"
  shows "fst (readPacket pktBuf lenPktBuf rx) = 0" "documented_result lenPktBuf rx = - 1"
proof -
  obtain n buf' rx' where r: "readPacket pktBuf lenPktBuf rx = (n, buf', rx')" by (metis prod_cases3)
  have c: "next_frame lenPktBuf (rx_flat rx) = Closed" using assms(1) by (simp add: next_frame_def)
  then show "fst (readPacket pktBuf lenPktBuf rx) = 0" using readPacket_unfold [OF assms(3,4) r] by (simp add: r)
  show "documented_result lenPktBuf rx = - 1" using c assms(2) by (simp add: documented_result_def)
qed

end
