(* ===== verification/Fdkd_Handler.thy ===== *)
theory Fdkd_Handler
  imports Lib_Mem Lib_Port Lib_Disk Lib_E820 Lib_Pci Packet_Transport
begin

text \<open>
  The request handler of the server, \<open>src_fdkd/handler.c\<close>. One definition per request: its guard,
  the hardware access, and the response written over the request in the connection's packet buffer.
  A request whose guard fails answers \<open>None\<close>, the \<open>break\<close> of the C code, which becomes a NACK.
\<close>

section \<open>State\<close>

record fdkdConnection_t =
  cn_cfd :: s32
  cn_memfd :: s32
  cn_diskPath :: "string option"
  cn_packet :: "u8 list"

definition FDKD_REPLY :: s32 where "FDKD_REPLY = 0"

definition FDKD_REPLY_AND_CLOSE :: s32 where "FDKD_REPLY_AND_CLOSE = 1"

definition CMOS_REQ_SIZE :: "u8 \<Rightarrow> u32" where
  "CMOS_REQ_SIZE sz = (if sz \<noteq> 0 then ucast sz else FDK_CMOS_SIZE)"

definition setResponse :: "fdkOpCode_t \<Rightarrow> nat \<Rightarrow> bool \<Rightarrow> u8 list \<Rightarrow> u8 list" where
  "setResponse op len success pkt =
     put32 (offsetof fdkCommHdr_t ''pktLen'') (word_of_nat len)
       (put16 (offsetof fdkCommHdr_t ''errorCode'') (if success then FDK_SUCCESS else FDK_FAILURE)
         (put16 (offsetof fdkCommHdr_t ''opCode'') (op_code op) pkt))"

section \<open>Requests\<close>

text \<open>
  The common tail of a read request: the back-end fills the content of the response in place, and
  the header is written over the request's. The tail of a write request passes the content on.
\<close>

definition answer_read ::
  "('a \<Rightarrow> u32 \<Rightarrow> u8 list \<Rightarrow> 'w sys \<Rightarrow> (s32 \<times> u8 list) \<times> 'w sys) \<Rightarrow> 'a \<Rightarrow> u32 \<Rightarrow> fdkOpCode_t \<Rightarrow>
   layout \<Rightarrow> string \<Rightarrow> u8 list \<Rightarrow> 'w sys \<Rightarrow> u8 list \<times> 'w sys" where
  "answer_read rd addr sz op t f pkt s =
     (let ((err, data), s1) = rd addr sz (bytes_at (offsetof t f) (unat sz) pkt) s
      in (setResponse op (FDK_PKT_LEN t f (unat sz)) (err = 0) (blit (offsetof t f) data pkt), s1))"

definition answer_write ::
  "('a \<Rightarrow> u32 \<Rightarrow> u8 list \<Rightarrow> 'w sys \<Rightarrow> s32 \<times> 'w sys) \<Rightarrow> 'a \<Rightarrow> u32 \<Rightarrow> fdkOpCode_t \<Rightarrow> layout \<Rightarrow>
   layout \<Rightarrow> string \<Rightarrow> u8 list \<Rightarrow> 'w sys \<Rightarrow> u8 list \<times> 'w sys" where
  "answer_write wr addr sz op rsp t f pkt s =
     (let (err, s1) = wr addr sz (bytes_at (offsetof t f) (unat sz) pkt) s
      in (setResponse op (sizeof rsp) (err = 0) pkt, s1))"

definition req_mem_read ::
  "'w os \<Rightarrow> s32 \<Rightarrow> nat \<Rightarrow> u8 list \<Rightarrow> 'w sys \<Rightarrow> (u8 list \<times> 'w sys) option" where
  "req_mem_read K memfd rByte pkt s =
     (let addr = get64 (offsetof fdkReqMemReadPkt_t ''address'') pkt;
          sz = get32 (offsetof fdkReqMemReadPkt_t ''size'') pkt
      in if rByte < sizeof fdkReqMemReadPkt_t \<or>
            unat sz > FDK_PKT_MAX_PAYLOAD fdkRspMemReadPkt_t ''memContent'' then None
         else Some (answer_read (memReadBuffer K memfd) addr sz FDK_RSP_MEM_READ
                fdkRspMemReadPkt_t ''memContent'' pkt s))"

definition req_mem_write ::
  "'w os \<Rightarrow> s32 \<Rightarrow> nat \<Rightarrow> u8 list \<Rightarrow> 'w sys \<Rightarrow> (u8 list \<times> 'w sys) option" where
  "req_mem_write K memfd rByte pkt s =
     (let addr = get64 (offsetof fdkReqMemWritePkt_t ''address'') pkt;
          sz = get32 (offsetof fdkReqMemWritePkt_t ''size'') pkt
      in if unat sz > FDK_PKT_MAX_PAYLOAD fdkReqMemWritePkt_t ''memContent'' \<or>
            rByte < FDK_PKT_LEN fdkReqMemWritePkt_t ''memContent'' (unat sz) then None
         else Some (answer_write (memWriteBuffer K memfd) addr sz FDK_RSP_MEM_WRITE
                fdkRspMemWritePkt_t fdkReqMemWritePkt_t ''memContent'' pkt s))"

definition req_io_read :: "'w os \<Rightarrow> nat \<Rightarrow> u8 list \<Rightarrow> 'w sys \<Rightarrow> (u8 list \<times> 'w sys) option" where
  "req_io_read K rByte pkt s =
     (let addr = ucast (get16 (offsetof fdkReqIoReadPkt_t ''address'') pkt) :: u64;
          sz = get32 (offsetof fdkReqIoReadPkt_t ''size'') pkt
      in if rByte < sizeof fdkReqIoReadPkt_t \<or>
            unat sz > FDK_PKT_MAX_PAYLOAD fdkRspIoReadPkt_t ''ioContent'' then None
         else Some (answer_read (portRead K) (ucast addr) sz FDK_RSP_IO_READ
                fdkRspIoReadPkt_t ''ioContent'' pkt s))"

definition req_io_write :: "'w os \<Rightarrow> nat \<Rightarrow> u8 list \<Rightarrow> 'w sys \<Rightarrow> (u8 list \<times> 'w sys) option" where
  "req_io_write K rByte pkt s =
     (let addr = ucast (get16 (offsetof fdkReqIoWritePkt_t ''address'') pkt) :: u64;
          sz = get32 (offsetof fdkReqIoWritePkt_t ''size'') pkt
      in if unat sz > FDK_PKT_MAX_PAYLOAD fdkReqIoWritePkt_t ''ioContent'' \<or>
            rByte < FDK_PKT_LEN fdkReqIoWritePkt_t ''ioContent'' (unat sz) then None
         else Some (answer_write (portWrite K) (ucast addr) sz FDK_RSP_IO_WRITE
                fdkRspIoWritePkt_t fdkReqIoWritePkt_t ''ioContent'' pkt s))"

definition req_pci_read :: "'w os \<Rightarrow> nat \<Rightarrow> u8 list \<Rightarrow> 'w sys \<Rightarrow> (u8 list \<times> 'w sys) option" where
  "req_pci_read K rByte pkt s =
     (let addr = ucast (get32 (offsetof fdkReqPciReadPkt_t ''address'') pkt) :: u64;
          sz = ucast (get16 (offsetof fdkReqPciReadPkt_t ''size'') pkt) :: u32
      in if rByte < sizeof fdkReqPciReadPkt_t \<or>
            unat sz > FDK_PKT_MAX_PAYLOAD fdkRspPciReadPkt_t ''pciContent'' then None
         else Some (answer_read (pciReadConfig K) (ucast addr) sz FDK_RSP_PCI_READ
                fdkRspPciReadPkt_t ''pciContent'' pkt s))"

definition req_pci_write :: "'w os \<Rightarrow> nat \<Rightarrow> u8 list \<Rightarrow> 'w sys \<Rightarrow> (u8 list \<times> 'w sys) option" where
  "req_pci_write K rByte pkt s =
     (let addr = ucast (get32 (offsetof fdkReqPciWritePkt_t ''address'') pkt) :: u64;
          sz = ucast (get16 (offsetof fdkReqPciWritePkt_t ''size'') pkt) :: u32
      in if unat sz > FDK_PKT_MAX_PAYLOAD fdkReqPciWritePkt_t ''pciContent'' \<or>
            rByte < FDK_PKT_LEN fdkReqPciWritePkt_t ''pciContent'' (unat sz) then None
         else Some (answer_write (pciWriteConfig K) (ucast addr) sz FDK_RSP_PCI_WRITE
                fdkRspPciWritePkt_t fdkReqPciWritePkt_t ''pciContent'' pkt s))"

definition req_ide_read ::
  "'w os \<Rightarrow> string option \<Rightarrow> nat \<Rightarrow> u8 list \<Rightarrow> 'w sys \<Rightarrow> (u8 list \<times> 'w sys) option" where
  "req_ide_read K dev rByte pkt s =
     (let addr = get64 (offsetof fdkReqIdeReadPkt_t ''address'') pkt;
          sz = get32 (offsetof fdkReqIdeReadPkt_t ''size'') pkt
      in if rByte < sizeof fdkReqIdeReadPkt_t \<or>
            unat sz > FDK_PKT_MAX_PAYLOAD fdkRspIdeReadPkt_t ''ideContent'' then None
         else Some (answer_read (diskRead K dev) addr sz FDK_RSP_IDE_READ
                fdkRspIdeReadPkt_t ''ideContent'' pkt s))"

definition req_ide_write ::
  "'w os \<Rightarrow> string option \<Rightarrow> nat \<Rightarrow> u8 list \<Rightarrow> 'w sys \<Rightarrow> (u8 list \<times> 'w sys) option" where
  "req_ide_write K dev rByte pkt s =
     (let addr = get64 (offsetof fdkReqIdeWritePkt_t ''address'') pkt;
          sz = get32 (offsetof fdkReqIdeWritePkt_t ''size'') pkt
      in if unat sz > FDK_PKT_MAX_PAYLOAD fdkReqIdeWritePkt_t ''ideContent'' \<or>
            rByte < FDK_PKT_LEN fdkReqIdeWritePkt_t ''ideContent'' (unat sz) then None
         else Some (answer_write (diskWrite K dev) addr sz FDK_RSP_IDE_WRITE
                fdkRspIdeWritePkt_t fdkReqIdeWritePkt_t ''ideContent'' pkt s))"

definition req_cmos_read :: "'w os \<Rightarrow> nat \<Rightarrow> u8 list \<Rightarrow> 'w sys \<Rightarrow> (u8 list \<times> 'w sys) option" where
  "req_cmos_read K rByte pkt s =
     (if rByte < sizeof fdkReqCmosReadPkt_t then None
      else
        let addr = ucast (get8 (offsetof fdkReqCmosReadPkt_t ''address'') pkt) :: u64;
            sz = CMOS_REQ_SIZE (get8 (offsetof fdkReqCmosReadPkt_t ''size'') pkt)
        in Some (answer_read (cmosRead K) (ucast addr) sz FDK_RSP_CMOS_READ
             fdkRspCmosReadPkt_t ''cmosContent'' pkt s))"

definition req_cmos_write :: "'w os \<Rightarrow> nat \<Rightarrow> u8 list \<Rightarrow> 'w sys \<Rightarrow> (u8 list \<times> 'w sys) option" where
  "req_cmos_write K rByte pkt s =
     (let addr = ucast (get8 (offsetof fdkReqCmosWritePkt_t ''address'') pkt) :: u64;
          sz = CMOS_REQ_SIZE (get8 (offsetof fdkReqCmosWritePkt_t ''size'') pkt)
      in if rByte < FDK_PKT_LEN fdkReqCmosWritePkt_t ''cmosContent'' (unat sz) then None
         else Some (answer_write (cmosWrite K) (ucast addr) sz FDK_RSP_CMOS_WRITE
                fdkRspCmosWritePkt_t fdkReqCmosWritePkt_t ''cmosContent'' pkt s))"

text \<open>The listings store their records behind the count.\<close>

definition req_pci_list :: "'w os \<Rightarrow> u8 list \<Rightarrow> 'w sys \<Rightarrow> u8 list \<times> 'w sys" where
  "req_pci_list K pkt s =
     (let off = offsetof fdkRspPciListPkt_t ''pciListContent'';
          (recs, s1) = pciListDevices K (word_of_nat
             (FDK_PKT_MAX_PAYLOAD fdkRspPciListPkt_t ''pciListContent'' div sizeof fdkPciDev_layout)) s;
          n = length recs;
          pkt1 = put32 (offsetof fdkRspPciListPkt_t ''numOfPciDevice'') (word_of_nat n)
                   (blit off (concat (map pciDev_bytes recs)) pkt)
      in (setResponse FDK_RSP_PCI_LIST
            (FDK_PKT_LEN fdkRspPciListPkt_t ''pciListContent'' (n * sizeof fdkPciDev_layout)) True pkt1, s1))"

definition req_e820_list :: "'w os \<Rightarrow> u8 list \<Rightarrow> 'w sys \<Rightarrow> u8 list \<times> 'w sys" where
  "req_e820_list K pkt s =
     (let off = offsetof fdkRspE820ListPkt_t ''e820ListContent'';
          recs = e820ReadMap K (word_of_nat
             (FDK_PKT_MAX_PAYLOAD fdkRspE820ListPkt_t ''e820ListContent'' div sizeof fdkE820record_layout)) s;
          n = length recs;
          pkt1 = put32 (offsetof fdkRspE820ListPkt_t ''numOfE820Record'') (word_of_nat n)
                   (blit off (concat (map e820_bytes recs)) pkt)
      in (setResponse FDK_RSP_E820_LIST
            (FDK_PKT_LEN fdkRspE820ListPkt_t ''e820ListContent'' (n * sizeof fdkE820record_layout)) True pkt1, s))"

section \<open>The handler\<close>

definition nack :: "u8 list \<Rightarrow> u8 list" where
  "nack pkt = setResponse FDK_RSP_NACK (sizeof fdkCommHdr_t) False pkt"

text \<open>
  The result code, the packet buffer with the response, and the machine. \<open>None\<close> of a request is the
  \<open>break\<close> out of the \<open>switch\<close>.
\<close>

definition handle_packet ::
  "'w os \<Rightarrow> s32 \<Rightarrow> string option \<Rightarrow> nat \<Rightarrow> u8 list \<Rightarrow> 'w sys \<Rightarrow> s32 \<times> u8 list \<times> 'w sys" where
  "handle_packet K memfd dev rByte pkt s =
     (let reply = (\<lambda>r. case r of
            None \<Rightarrow> (FDKD_REPLY, nack pkt, s)
          | Some (pkt1, s1) \<Rightarrow> (FDKD_REPLY, pkt1, s1))
      in case op_of_code (hdr_opCode pkt) of
          Some FDK_REQ_CONNECT \<Rightarrow>
            (FDKD_REPLY, setResponse FDK_RSP_CONNECT (sizeof fdkCommHdr_t) True pkt, s)
        | Some FDK_REQ_DISCONNECT \<Rightarrow>
            (FDKD_REPLY_AND_CLOSE, setResponse FDK_RSP_DISCONNECT (sizeof fdkCommHdr_t) True pkt, s)
        | Some FDK_REQ_MEM_READ \<Rightarrow> reply (req_mem_read K memfd rByte pkt s)
        | Some FDK_REQ_MEM_WRITE \<Rightarrow> reply (req_mem_write K memfd rByte pkt s)
        | Some FDK_REQ_IO_READ \<Rightarrow> reply (req_io_read K rByte pkt s)
        | Some FDK_REQ_IO_WRITE \<Rightarrow> reply (req_io_write K rByte pkt s)
        | Some FDK_REQ_PCI_READ \<Rightarrow> reply (req_pci_read K rByte pkt s)
        | Some FDK_REQ_PCI_WRITE \<Rightarrow> reply (req_pci_write K rByte pkt s)
        | Some FDK_REQ_IDE_READ \<Rightarrow> reply (req_ide_read K dev rByte pkt s)
        | Some FDK_REQ_IDE_WRITE \<Rightarrow> reply (req_ide_write K dev rByte pkt s)
        | Some FDK_REQ_CMOS_READ \<Rightarrow> reply (req_cmos_read K rByte pkt s)
        | Some FDK_REQ_CMOS_WRITE \<Rightarrow> reply (req_cmos_write K rByte pkt s)
        | Some FDK_REQ_PCI_LIST \<Rightarrow> reply (Some (req_pci_list K pkt s))
        | Some FDK_REQ_E820_LIST \<Rightarrow> reply (Some (req_e820_list K pkt s))
        | _ \<Rightarrow> reply None)"

definition handleRequestPacket ::
  "'w os \<Rightarrow> fdkdConnection_t \<Rightarrow> u32 \<Rightarrow> 'w sys \<Rightarrow> s32 \<times> fdkdConnection_t \<times> 'w sys" where
  "handleRequestPacket K c rByte s =
     (let (r, pkt, s1) = handle_packet K (cn_memfd c) (cn_diskPath c) (unat rByte) (cn_packet c) s
      in (r, c\<lparr>cn_packet := pkt\<rparr>, s1))"

end
