(* ===== verification/Handler_Contract.thy ===== *)
theory Handler_Contract
  imports Fdkd_Handler
begin

text \<open>
  What the server loop relies on: the contract of a request handler, proved once for every reader
  and every writer from the laws of the hardware back-ends, and interpreted on each request of
  \<open>handler.c\<close> and on the dispatcher.
\<close>

section \<open>Responses\<close>

definition hdr_bytes :: "fdkOpCode_t \<Rightarrow> u16 \<Rightarrow> nat \<Rightarrow> u8 list" where
  "hdr_bytes op err len =
     le_bytes 2 (unat (op_code op)) @ le_bytes 2 (unat err) @ le_bytes 4 (unat (word_of_nat len :: u32))"

lemma length_hdr_bytes [simp]: "length (hdr_bytes op err len) = 8"
  by (simp add: hdr_bytes_def del: le_bytes.simps)

lemma setResponse_eq:
  assumes "8 \<le> length pkt"
  shows "setResponse op len ok pkt =
    hdr_bytes op (if ok then FDK_SUCCESS else FDK_FAILURE) len @ drop 8 pkt"
  using assms
  by (simp add: setResponse_def hdr_bytes_def put_defs blit_def layout min_def numeral_2_eq_2
      del: le_bytes.simps)

lemma hdr_of_bytes:
  "hdr_opCode (hdr_bytes op err len @ r) = op_code op"
  "hdr_errorCode (hdr_bytes op err len @ r) = err"
  "hdr_pktLen (hdr_bytes op err len @ r) = word_of_nat len"
  by (simp_all add: hdr_defs hdr_bytes_def layout get_defs bytes_at_append_skip bytes_at_append_here
      word_of_le_bytes del: le_bytes.simps unat_op_code)

text \<open>The bytes of the packet buffer that \<open>writePacket\<close> sends.\<close>

definition response :: "u8 list \<Rightarrow> u8 list" where
  "response pkt = take (unat (hdr_pktLen pkt)) pkt"

lemma response_setResponse:
  assumes "length pkt = FDK_MAXSZ_PKT" and "8 \<le> len" and "len \<le> FDK_MAXSZ_PKT"
  shows "response (setResponse op len ok pkt) =
    hdr_bytes op (if ok then FDK_SUCCESS else FDK_FAILURE) len @ bytes_at 8 (len - 8) pkt"
proof -
  have "unat (word_of_nat len :: u32) = len"
    using assms(3) by (simp add: unat_of_nat take_bit_nat_eq_self FDK_MAXSZ_PKT_def)
  moreover have "8 \<le> length pkt" using assms(1) by (simp add: FDK_MAXSZ_PKT_def)
  ultimately show ?thesis
    using assms(2) by (simp add: response_def setResponse_eq hdr_of_bytes bytes_at_def)
qed

text \<open>A well-formed response to put on the wire.\<close>

definition valid_response :: "fdkOpCode_t \<Rightarrow> u8 list \<Rightarrow> bool" where
  "valid_response op pkt \<longleftrightarrow> length pkt = FDK_MAXSZ_PKT \<and> hdr_opCode pkt = op_code op \<and>
     hdr_errorCode pkt \<in> {FDK_SUCCESS, FDK_FAILURE} \<and>
     8 \<le> unat (hdr_pktLen pkt) \<and> unat (hdr_pktLen pkt) \<le> FDK_MAXSZ_PKT"

lemma valid_setResponse:
  assumes "length pkt = FDK_MAXSZ_PKT" and "8 \<le> len" and "len \<le> FDK_MAXSZ_PKT"
  shows "valid_response op (setResponse op len ok pkt)"
proof -
  have "unat (word_of_nat len :: u32) = len"
    using assms(3) by (simp add: unat_of_nat take_bit_nat_eq_self FDK_MAXSZ_PKT_def)
  moreover have "8 \<le> length pkt" using assms(1) by (simp add: FDK_MAXSZ_PKT_def)
  ultimately show ?thesis
    using assms by (simp add: valid_response_def setResponse_eq hdr_of_bytes)
qed

lemma valid_response_packet_ok: "valid_response op pkt \<Longrightarrow> packet_ok (response pkt)"
proof -
  assume v: "valid_response op pkt"
  then have "hdr_pktLen (response pkt) = hdr_pktLen pkt"
    unfolding response_def by (intro hdr_cong_take(3) [of 8]) (auto simp: valid_response_def min_def)
  with v show ?thesis by (simp add: packet_ok_def valid_response_def response_def)
qed

lemma writePacket_all:
  assumes "list_all wr_ok wr" and "unat (hdr_pktLen pkt) = length (response pkt)"
  shows "\<exists>wr'. writePacket pkt wr = (0, response pkt, wr') \<and> list_all wr_ok wr'"
proof -
  from transferAll_write_all [OF assms(1), of "response pkt"] obtain wr' where
    "transferAll_write (response pkt) wr = (response pkt, wr')" "list_all wr_ok wr'"
    by (metis prod.collapse)
  moreover have "take (unat (hdr_pktLen pkt)) pkt = response pkt" by (simp add: response_def)
  ultimately show ?thesis by (simp add: writePacket_def Let_def assms(2) [symmetric])
qed

section \<open>The contract\<close>

text \<open>Two packet buffers that hold the same request: their first \<open>n\<close> bytes agree.\<close>

definition agree :: "nat \<Rightarrow> u8 list \<Rightarrow> u8 list \<Rightarrow> bool" where
  "agree n p q \<longleftrightarrow> length p = FDK_MAXSZ_PKT \<and> length q = FDK_MAXSZ_PKT \<and> take n p = take n q"

definition same_answer :: "(u8 list \<times> 'w sys) option \<Rightarrow> (u8 list \<times> 'w sys) option \<Rightarrow> bool" where
  "same_answer = rel_option (\<lambda>(p, s) (q, t). response p = response q \<and> s = t)"

locale request_handler =
  fixes h :: "nat \<Rightarrow> u8 list \<Rightarrow> 'w sys \<Rightarrow> (u8 list \<times> 'w sys) option"
    and ok :: "sysev \<Rightarrow> bool"
    and rsp :: fdkOpCode_t
  assumes h_valid: "length pkt = FDK_MAXSZ_PKT \<Longrightarrow> 8 \<le> n \<Longrightarrow> n \<le> FDK_MAXSZ_PKT \<Longrightarrow>
      h n pkt s = Some (pkt', s') \<Longrightarrow> valid_response rsp pkt'"
    and h_logs: "length pkt = FDK_MAXSZ_PKT \<Longrightarrow> 8 \<le> n \<Longrightarrow> n \<le> FDK_MAXSZ_PKT \<Longrightarrow>
      h n pkt s = Some (pkt', s') \<Longrightarrow> logs ok s s'"
    and h_same: "agree n p q \<Longrightarrow> 8 \<le> n \<Longrightarrow> n \<le> FDK_MAXSZ_PKT \<Longrightarrow> same_answer (h n p s) (h n q s)"

section \<open>Read requests\<close>

context byte_reader
begin

lemma answer_read_valid:
  assumes "length pkt = FDK_MAXSZ_PKT" and "8 \<le> offsetof t f"
    and "offsetof t f + unat sz \<le> FDK_MAXSZ_PKT"
  shows "valid_response op (fst (answer_read rd a sz op t f pkt s)) \<and>
    logs ok s (snd (answer_read rd a sz op t f pkt s))"
proof -
  let ?reg = "bytes_at (offsetof t f) (unat sz) pkt"
  have len: "length ?reg = unat sz" using assms by simp
  have "length (blit (offsetof t f) (snd (fst (rd a sz ?reg s))) pkt) = FDK_MAXSZ_PKT"
    using assms by (subst rd_blit) simp_all
  then show ?thesis
    using assms rd_logs [OF len, where a = a and s = s] valid_setResponse
    by (simp add: answer_read_def split_def Let_def FDK_PKT_LEN_def)
qed

lemma answer_read_response:
  assumes "length pkt = FDK_MAXSZ_PKT" and "8 \<le> offsetof t f"
    and "offsetof t f + unat sz \<le> FDK_MAXSZ_PKT"
  shows "response (fst (answer_read rd a sz op t f pkt s)) =
    (let ((err, data), s1) = rd a sz (bytes_at (offsetof t f) (unat sz) pkt) s
     in hdr_bytes op (if err = 0 then FDK_SUCCESS else FDK_FAILURE) (offsetof t f + unat sz) @
        bytes_at 8 (offsetof t f - 8) pkt @ data)"
proof -
  let ?off = "offsetof t f"
  let ?reg = "bytes_at ?off (unat sz) pkt"
  let ?data = "snd (fst (rd a sz ?reg s))"
  have len: "length ?data = unat sz" using assms by (intro rd_length) simp
  have pkt: "length (blit ?off ?data pkt) = FDK_MAXSZ_PKT"
    using assms by (subst rd_blit) simp_all
  have "bytes_at 8 (?off + unat sz - 8) (blit ?off ?data pkt) = bytes_at 8 (?off - 8) pkt @ ?data"
    using assms len by (simp add: bytes_at_def blit_def drop_take)
  then show ?thesis
    using assms pkt by (simp add: answer_read_def split_def Let_def FDK_PKT_LEN_def response_setResponse)
qed

lemma answer_read_same:
  assumes "agree n p q" and "8 \<le> offsetof t f" and "offsetof t f \<le> n"
    and "offsetof t f + unat sz \<le> FDK_MAXSZ_PKT"
  shows "response (fst (answer_read rd a sz op t f p s)) = response (fst (answer_read rd a sz op t f q s)) \<and>
    snd (answer_read rd a sz op t f p s) = snd (answer_read rd a sz op t f q s)"
proof -
  have pq: "length p = FDK_MAXSZ_PKT" "length q = FDK_MAXSZ_PKT" and tk: "take n p = take n q"
    using assms(1) by (simp_all add: agree_def)
  have "rd a sz (bytes_at (offsetof t f) (unat sz) p) s = rd a sz (bytes_at (offsetof t f) (unat sz) q) s"
    using assms(4) by (intro rd_region) (simp_all add: pq)
  moreover have "bytes_at 8 (offsetof t f - 8) p = bytes_at 8 (offsetof t f - 8) q"
    using assms(2,3) by (intro bytes_at_cong_take [OF tk]) simp
  ultimately show ?thesis
    unfolding answer_read_response [OF pq(1) assms(2,4)] answer_read_response [OF pq(2) assms(2,4)]
    by (simp add: answer_read_def split_def Let_def)
qed

lemma read_request:
  assumes h: "\<And>n p s. h n p s = (if guard n p then None
      else Some (answer_read rd (A p) (N p) op t f p s))"
    and off: "8 \<le> offsetof t f"
    and small: "\<And>n p. guard n p \<longleftrightarrow> n < offsetof t f \<or> G (N p)"
    and room: "\<And>p. \<not> G (N p) \<Longrightarrow> offsetof t f + unat (N p) \<le> FDK_MAXSZ_PKT"
    and local: "\<And>n p q. agree n p q \<Longrightarrow> offsetof t f \<le> n \<Longrightarrow> A p = A q \<and> N p = N q"
  shows "request_handler h ok op"
proof -
  have guard: "offsetof t f \<le> n \<and> offsetof t f + unat (N p) \<le> FDK_MAXSZ_PKT" if "\<not> guard n p" for n p
    using that small room by (auto simp: not_less)
  have fields: "guard n p = guard n q \<and> (\<not> guard n p \<longrightarrow> A p = A q \<and> N p = N q)" if "agree n p q" for n p q
    using local [OF that] by (cases "offsetof t f \<le> n") (auto simp: small not_le)
  show ?thesis
  proof
    fix pkt pkt' n s s'
    assume len: "length pkt = FDK_MAXSZ_PKT" and r: "h n pkt s = Some (pkt', s')"
    then have g: "\<not> guard n pkt" and a: "answer_read rd (A pkt) (N pkt) op t f pkt s = (pkt', s')"
      by (auto simp: h split: if_splits)
    from answer_read_valid [OF len off conjunct2 [OF guard [OF g]], of op "A pkt" s] a
    show "valid_response op pkt'" "logs ok s s'" by simp_all
  next
    fix n p q s assume a: "agree n p q" and n: "8 \<le> n"
    show "same_answer (h n p s) (h n q s)"
    proof (cases "guard n p")
      case True
      then show ?thesis using fields [OF a] by (simp add: h same_answer_def)
    next
      case False
      then show ?thesis
        using fields [OF a] guard [OF False] answer_read_same [OF a off, of "N p" "A p" op s]
        by (auto simp: h same_answer_def split: prod.split)
    qed
  qed
qed

end

section \<open>Write requests\<close>

context byte_writer
begin

lemma write_request:
  assumes h: "\<And>n p s. h n p s = (if guard n p then None
      else Some (answer_write wr (A p) (N p) op rsp t f p s))"
    and off: "8 \<le> offsetof t f" and rsp: "sizeof rsp = offsetof t f"
    and short: "\<And>n p. guard n p \<longleftrightarrow> n < offsetof t f + unat (N p) \<or> G (N p)"
    and local: "\<And>n p q. agree n p q \<Longrightarrow> offsetof t f \<le> n \<Longrightarrow> A p = A q \<and> N p = N q"
  shows "request_handler h ok op"
proof -
  have guard: "offsetof t f + unat (N p) \<le> n" if "\<not> guard n p" for n p
    using that short by (auto simp: not_less)
  have fields: "guard n p = guard n q \<and> (\<not> guard n p \<longrightarrow> A p = A q \<and> N p = N q)" if "agree n p q" for n p q
    using local [OF that] by (cases "offsetof t f \<le> n") (auto simp: short not_le)
  show ?thesis
  proof
    fix pkt pkt' n s s'
    assume len: "length pkt = FDK_MAXSZ_PKT" and n: "n \<le> FDK_MAXSZ_PKT" and r: "h n pkt s = Some (pkt', s')"
    then have g: "\<not> guard n pkt" and a: "answer_write wr (A pkt) (N pkt) op rsp t f pkt s = (pkt', s')"
      by (auto simp: h split: if_splits)
    note le = guard [OF g]
    have "length (bytes_at (offsetof t f) (unat (N pkt)) pkt) = unat (N pkt)"
      using le n len by simp
    from wr_logs [OF this] a show "logs ok s s'"
      by (auto simp: answer_write_def split: prod.splits) (metis snd_conv)
    show "valid_response op pkt'"
      using a len le n off rsp valid_setResponse [of pkt "sizeof rsp"]
      by (auto simp: answer_write_def split: prod.splits)
  next
    fix n p q s assume a: "agree n p q" and n: "8 \<le> n" "n \<le> FDK_MAXSZ_PKT"
    show "same_answer (h n p s) (h n q s)"
    proof (cases "guard n p")
      case True
      then show ?thesis using fields [OF a] by (simp add: h same_answer_def)
    next
      case False
      note le = guard [OF False]
      from a have pq: "length p = FDK_MAXSZ_PKT" "length q = FDK_MAXSZ_PKT" and tk: "take n p = take n q"
        by (simp_all add: agree_def)
      have 1: "bytes_at (offsetof t f) (unat (N p)) p = bytes_at (offsetof t f) (unat (N p)) q"
        using le by (rule bytes_at_cong_take [OF tk])
      have 2: "bytes_at 8 (offsetof t f - 8) p = bytes_at 8 (offsetof t f - 8) q"
        using le off by (intro bytes_at_cong_take [OF tk]) simp
      show ?thesis
        using fields [OF a] False le off n pq 1 2
        by (auto simp: h same_answer_def answer_write_def rsp response_setResponse split: prod.splits)
    qed
  qed
qed

end

end
