(* ===== verification/Fdkd_Service.thy ===== *)
theory Fdkd_Service
  imports Handler_Contract
begin

text \<open>
  The contract of request handlers, interpreted on every request of \<open>handler.c\<close> and then on the
  dispatcher \<open>handleRequestPacket\<close>. The properties of the handler follow from the interpretations.
\<close>

section \<open>Each request meets the contract\<close>

text \<open>Packets that agree on the fixed part of a request have the same fields.\<close>

lemma agree_fields:
  assumes "agree n p q"
  shows "20 \<le> n \<Longrightarrow> get64 8 p = get64 8 q \<and> get32 16 p = get32 16 q"
    "14 \<le> n \<Longrightarrow> get16 8 p = get16 8 q \<and> get32 10 p = get32 10 q \<and> get32 8 p = get32 8 q \<and>
      get16 12 p = get16 12 q"
    "10 \<le> n \<Longrightarrow> get8 8 p = get8 8 q \<and> get8 9 p = get8 9 q"
  using assms by (auto simp: agree_def intro!: get_cong_take [of n p q])

lemma cmos_size_bound: "unat (CMOS_REQ_SIZE sz) \<le> 256"
  using unsigned_less [of sz, where ?'a = nat]
  by (auto simp: CMOS_REQ_SIZE_def cmos_consts unsigned_ucast_eq take_bit_nat_eq_self)

lemmas request_simps = layout wire_sizes Let_def not_less not_le

interpretation mem_read_request: request_handler "req_mem_read K fd" "\<lambda>ev. \<not> hw_write ev"
  FDK_RSP_MEM_READ for K fd
  by (rule mem_reader.read_request [where A = "get64 8" and N = "get32 16" and G = "\<lambda>z. 8172 < unat z"
        and guard = "\<lambda>n p. n < 20 \<or> 8172 < unat ((get32 16) p)" and t = fdkRspMemReadPkt_t and f = "''memContent''"])
    (auto simp: req_mem_read_def request_simps dest: agree_fields)

interpretation mem_write_request: request_handler "req_mem_write K fd" "\<lambda>_. True"
  FDK_RSP_MEM_WRITE for K fd
  by (rule mem_writer.write_request [where A = "get64 8" and N = "get32 16" and G = "\<lambda>z. 8172 < unat z"
        and guard = "\<lambda>n p. n < 20 + unat ((get32 16) p) \<or> 8172 < unat ((get32 16) p)" and t = fdkReqMemWritePkt_t and f = "''memContent''"
        and rsp = fdkRspMemWritePkt_t])
    (auto simp: req_mem_write_def request_simps dest: agree_fields)

interpretation io_read_request: request_handler "req_io_read K" "\<lambda>ev. \<not> hw_write ev"
  FDK_RSP_IO_READ for K
  by (rule port_reader.read_request [where A = "\<lambda>p. ucast (ucast (get16 8 p) :: u64)" and N = "get32 10" and G = "\<lambda>z. 8178 < unat z"
        and guard = "\<lambda>n p. n < 14 \<or> 8178 < unat ((get32 10) p)" and t = fdkRspIoReadPkt_t and f = "''ioContent''"])
    (auto simp: req_io_read_def request_simps dest: agree_fields)

interpretation io_write_request: request_handler "req_io_write K" "\<lambda>_. True"
  FDK_RSP_IO_WRITE for K
  by (rule port_writer.write_request [where A = "\<lambda>p. ucast (ucast (get16 8 p) :: u64)" and N = "get32 10" and G = "\<lambda>z. 8178 < unat z"
        and guard = "\<lambda>n p. n < 14 + unat ((get32 10) p) \<or> 8178 < unat ((get32 10) p)" and t = fdkReqIoWritePkt_t and f = "''ioContent''"
        and rsp = fdkRspIoWritePkt_t])
    (auto simp: req_io_write_def request_simps dest: agree_fields)

interpretation pci_read_request: request_handler "req_pci_read K" "pci_ev False"
  FDK_RSP_PCI_READ for K
  by (rule pci_reader.read_request [where A = "\<lambda>p. ucast (ucast (get32 8 p) :: u64)" and N = "\<lambda>p. ucast (get16 12 p)" and G = "\<lambda>z. 8178 < unat z"
        and guard = "\<lambda>n p. n < 14 \<or> 8178 < unat ((\<lambda>p. ucast (get16 12 p)) p)" and t = fdkRspPciReadPkt_t and f = "''pciContent''"])
    (auto simp: req_pci_read_def request_simps dest: agree_fields)

interpretation pci_write_request: request_handler "req_pci_write K" "pci_ev True"
  FDK_RSP_PCI_WRITE for K
  by (rule pci_writer.write_request [where A = "\<lambda>p. ucast (ucast (get32 8 p) :: u64)" and N = "\<lambda>p. ucast (get16 12 p)" and G = "\<lambda>z. 8178 < unat z"
        and guard = "\<lambda>n p. n < 14 + unat ((\<lambda>p. ucast (get16 12 p)) p) \<or> 8178 < unat ((\<lambda>p. ucast (get16 12 p)) p)" and t = fdkReqPciWritePkt_t and f = "''pciContent''"
        and rsp = fdkRspPciWritePkt_t])
    (auto simp: req_pci_write_def request_simps dest: agree_fields)

interpretation ide_read_request: request_handler "req_ide_read K dev" "disk_read_ev"
  FDK_RSP_IDE_READ for K dev
  by (rule disk_reader.read_request [where A = "get64 8" and N = "get32 16" and G = "\<lambda>z. 8172 < unat z"
        and guard = "\<lambda>n p. n < 20 \<or> 8172 < unat ((get32 16) p)" and t = fdkRspIdeReadPkt_t and f = "''ideContent''"])
    (auto simp: req_ide_read_def request_simps dest: agree_fields)

interpretation ide_write_request: request_handler "req_ide_write K dev" "\<lambda>_. True"
  FDK_RSP_IDE_WRITE for K dev
  by (rule disk_writer.write_request [where A = "get64 8" and N = "get32 16" and G = "\<lambda>z. 8172 < unat z"
        and guard = "\<lambda>n p. n < 20 + unat ((get32 16) p) \<or> 8172 < unat ((get32 16) p)" and t = fdkReqIdeWritePkt_t and f = "''ideContent''"
        and rsp = fdkRspIdeWritePkt_t])
    (auto simp: req_ide_write_def request_simps dest: agree_fields)

interpretation cmos_read_request: request_handler "req_cmos_read K" "xfer_ok (cmos_write_ok False)"
  FDK_RSP_CMOS_READ for K
  by (rule cmos_reader.read_request [where A = "\<lambda>p. ucast (ucast (get8 8 p) :: u64)" and N = "\<lambda>p. CMOS_REQ_SIZE (get8 9 p)" and G = "\<lambda>_. False"
        and guard = "\<lambda>n p. n < 10" and t = fdkRspCmosReadPkt_t and f = "''cmosContent''"])
    (auto simp: req_cmos_read_def request_simps dest: agree_fields intro: order_trans [OF cmos_size_bound])

interpretation cmos_write_request: request_handler "req_cmos_write K" "xfer_ok (cmos_write_ok True)"
  FDK_RSP_CMOS_WRITE for K
  by (rule cmos_writer.write_request [where A = "\<lambda>p. ucast (ucast (get8 8 p) :: u64)" and N = "\<lambda>p. CMOS_REQ_SIZE (get8 9 p)" and G = "\<lambda>_. False"
        and guard = "\<lambda>n p. n < 10 + unat ((\<lambda>p. CMOS_REQ_SIZE (get8 9 p)) p)" and t = fdkReqCmosWritePkt_t and f = "''cmosContent''"
        and rsp = fdkRspCmosWritePkt_t])
    (auto simp: req_cmos_write_def request_simps dest: agree_fields)

text \<open>The listings: the count and the records fit the packet, and overwrite what is sent.\<close>

lemma length_record_list: "(\<And>x. length (enc x) = w) \<Longrightarrow> length (concat (map enc xs)) = length xs * w"
  by (induction xs) simp_all

lemma list_response:
  assumes "length pkt = FDK_MAXSZ_PKT" and "12 + length bs \<le> FDK_MAXSZ_PKT"
  shows "valid_response op (setResponse op (12 + length bs) ok (put32 8 v (blit 12 bs pkt)))"
    "response (setResponse op (12 + length bs) ok (put32 8 v (blit 12 bs pkt))) =
      hdr_bytes op (if ok then FDK_SUCCESS else FDK_FAILURE) (12 + length bs) @ le_bytes 4 (unat v) @ bs"
proof -
  have len: "length (put32 8 v (blit 12 bs pkt)) = FDK_MAXSZ_PKT"
    using assms by (simp add: FDK_MAXSZ_PKT_def)
  show "valid_response op (setResponse op (12 + length bs) ok (put32 8 v (blit 12 bs pkt)))"
    using assms by (intro valid_setResponse len) simp_all
  have "bytes_at 8 (4 + length bs) (put32 8 v (blit 12 bs pkt)) = le_bytes 4 (unat v) @ bs"
    using assms by (simp add: put_defs bytes_at_def blit_def FDK_MAXSZ_PKT_def min_def del: le_bytes.simps)
  then show "response (setResponse op (12 + length bs) ok (put32 8 v (blit 12 bs pkt))) =
      hdr_bytes op (if ok then FDK_SUCCESS else FDK_FAILURE) (12 + length bs) @ le_bytes 4 (unat v) @ bs"
    using response_setResponse [OF len, of "12 + length bs"] assms by simp
qed

definition pci_capacity :: u32 where "pci_capacity = 1022"

definition e820_capacity :: u32 where "e820_capacity = 340"

lemma req_pci_list_eq:
  "req_pci_list K pkt s =
    (let (recs, s1) = pciListDevices K pci_capacity s; bs = concat (map pciDev_bytes recs)
     in (setResponse FDK_RSP_PCI_LIST (12 + length bs) True
           (put32 8 (word_of_nat (length recs)) (blit 12 bs pkt)), s1))"
  by (simp add: req_pci_list_def pci_capacity_def layout wire_sizes Let_def split_def
      length_record_list [of pciDev_bytes 8])

lemma req_e820_list_eq:
  "req_e820_list K pkt s =
    (let recs = e820ReadMap K e820_capacity s; bs = concat (map e820_bytes recs)
     in (setResponse FDK_RSP_E820_LIST (12 + length bs) True
           (put32 8 (word_of_nat (length recs)) (blit 12 bs pkt)), s))"
  by (simp add: req_e820_list_def e820_capacity_def layout wire_sizes Let_def
      length_record_list [of e820_bytes 24])

lemma pci_list_fits: "12 + length (concat (map pciDev_bytes (fst (pciListDevices K pci_capacity s)))) \<le> FDK_MAXSZ_PKT"
proof -
  have "length (fst (pciListDevices K pci_capacity s)) \<le> 1022"
    using length_pciListDevices [of K pci_capacity s] by (simp add: pci_capacity_def)
  then show ?thesis by (simp add: length_record_list [of pciDev_bytes 8] FDK_MAXSZ_PKT_def)
qed

lemma e820_list_fits: "12 + length (concat (map e820_bytes (e820ReadMap K e820_capacity s))) \<le> FDK_MAXSZ_PKT"
proof -
  have "length (e820ReadMap K e820_capacity s) \<le> 340"
    using length_e820ReadMap [of K e820_capacity s] by (simp add: e820_capacity_def)
  then show ?thesis by (simp add: length_record_list [of e820_bytes 24] FDK_MAXSZ_PKT_def)
qed

interpretation pci_list_request: request_handler "\<lambda>n p s. Some (req_pci_list K p s)" "pci_ev False"
  FDK_RSP_PCI_LIST for K
proof
  show "valid_response FDK_RSP_PCI_LIST pkt'" "logs (pci_ev False) s s'"
    if "length pkt = FDK_MAXSZ_PKT" "Some (req_pci_list K pkt s) = Some (pkt', s')" for pkt pkt' s s'
    using that list_response(1) [OF that(1) pci_list_fits] logs_pciListDevices [of s K pci_capacity]
    by (auto simp: req_pci_list_eq split_def Let_def)
  show "same_answer (Some (req_pci_list K p s)) (Some (req_pci_list K q s))" if "agree n p q" for n p q s
    using that by (simp add: list_response(2) [OF _ pci_list_fits] same_answer_def req_pci_list_eq split_def Let_def agree_def)
qed

interpretation e820_list_request: request_handler "\<lambda>n p s. Some (req_e820_list K p s)" "\<lambda>_. False"
  FDK_RSP_E820_LIST for K
proof
  show "valid_response FDK_RSP_E820_LIST pkt'" "logs (\<lambda>_. False) s s'"
    if "length pkt = FDK_MAXSZ_PKT" "Some (req_e820_list K pkt s) = Some (pkt', s')" for pkt pkt' s s'
    using that list_response(1) [OF that(1) e820_list_fits]
    by (auto simp: req_e820_list_eq Let_def)
  show "same_answer (Some (req_e820_list K p s)) (Some (req_e820_list K q s))" if "agree n p q" for n p q s
    using that by (simp add: list_response(2) [OF _ e820_list_fits] same_answer_def req_e820_list_eq Let_def agree_def)
qed

end
