(* ===== verification/Handler_Properties.thy ===== *)
theory Handler_Properties
  imports Fdkd_Service
begin

text \<open>
  The dispatcher meets the contract of a request handler, and what follows for the server: memory
  safety of the packet buffer, no leaked resources, no influence of stale bytes, no hardware write by
  a read request, and the exact set of requests that are refused.
\<close>

section \<open>The dispatcher\<close>

text \<open>The request a code selects, the response it is answered with, and the calls it may make.\<close>

definition request_of ::
  "'w os \<Rightarrow> s32 \<Rightarrow> string option \<Rightarrow> fdkOpCode_t \<Rightarrow> nat \<Rightarrow> u8 list \<Rightarrow> 'w sys \<Rightarrow> (u8 list \<times> 'w sys) option" where
  "request_of K memfd dev op n pkt s =
     (case op of
        FDK_REQ_CONNECT \<Rightarrow> Some (setResponse FDK_RSP_CONNECT 8 True pkt, s)
      | FDK_REQ_DISCONNECT \<Rightarrow> Some (setResponse FDK_RSP_DISCONNECT 8 True pkt, s)
      | FDK_REQ_MEM_READ \<Rightarrow> req_mem_read K memfd n pkt s
      | FDK_REQ_MEM_WRITE \<Rightarrow> req_mem_write K memfd n pkt s
      | FDK_REQ_IO_READ \<Rightarrow> req_io_read K n pkt s
      | FDK_REQ_IO_WRITE \<Rightarrow> req_io_write K n pkt s
      | FDK_REQ_PCI_READ \<Rightarrow> req_pci_read K n pkt s
      | FDK_REQ_PCI_WRITE \<Rightarrow> req_pci_write K n pkt s
      | FDK_REQ_IDE_READ \<Rightarrow> req_ide_read K dev n pkt s
      | FDK_REQ_IDE_WRITE \<Rightarrow> req_ide_write K dev n pkt s
      | FDK_REQ_CMOS_READ \<Rightarrow> req_cmos_read K n pkt s
      | FDK_REQ_CMOS_WRITE \<Rightarrow> req_cmos_write K n pkt s
      | FDK_REQ_PCI_LIST \<Rightarrow> Some (req_pci_list K pkt s)
      | FDK_REQ_E820_LIST \<Rightarrow> Some (req_e820_list K pkt s)
      | _ \<Rightarrow> None)"

definition rsp_of :: "fdkOpCode_t \<Rightarrow> fdkOpCode_t" where
  "rsp_of op =
     (case op of
        FDK_REQ_CONNECT \<Rightarrow> FDK_RSP_CONNECT | FDK_REQ_DISCONNECT \<Rightarrow> FDK_RSP_DISCONNECT
      | FDK_REQ_MEM_READ \<Rightarrow> FDK_RSP_MEM_READ | FDK_REQ_MEM_WRITE \<Rightarrow> FDK_RSP_MEM_WRITE
      | FDK_REQ_IO_READ \<Rightarrow> FDK_RSP_IO_READ | FDK_REQ_IO_WRITE \<Rightarrow> FDK_RSP_IO_WRITE
      | FDK_REQ_PCI_READ \<Rightarrow> FDK_RSP_PCI_READ | FDK_REQ_PCI_WRITE \<Rightarrow> FDK_RSP_PCI_WRITE
      | FDK_REQ_IDE_READ \<Rightarrow> FDK_RSP_IDE_READ | FDK_REQ_IDE_WRITE \<Rightarrow> FDK_RSP_IDE_WRITE
      | FDK_REQ_CMOS_READ \<Rightarrow> FDK_RSP_CMOS_READ | FDK_REQ_CMOS_WRITE \<Rightarrow> FDK_RSP_CMOS_WRITE
      | FDK_REQ_PCI_LIST \<Rightarrow> FDK_RSP_PCI_LIST | FDK_REQ_E820_LIST \<Rightarrow> FDK_RSP_E820_LIST
      | _ \<Rightarrow> FDK_RSP_NACK)"

definition request_ev :: "fdkOpCode_t \<Rightarrow> sysev \<Rightarrow> bool" where
  "request_ev op =
     (case op of
        FDK_REQ_MEM_READ \<Rightarrow> (\<lambda>ev. \<not> hw_write ev)
      | FDK_REQ_IO_READ \<Rightarrow> (\<lambda>ev. \<not> hw_write ev)
      | FDK_REQ_PCI_READ \<Rightarrow> pci_ev False
      | FDK_REQ_PCI_LIST \<Rightarrow> pci_ev False
      | FDK_REQ_IDE_READ \<Rightarrow> disk_read_ev
      | FDK_REQ_CMOS_READ \<Rightarrow> xfer_ok (cmos_write_ok False)
      | FDK_REQ_CMOS_WRITE \<Rightarrow> xfer_ok (cmos_write_ok True)
      | FDK_REQ_MEM_WRITE \<Rightarrow> (\<lambda>_. True) | FDK_REQ_IO_WRITE \<Rightarrow> (\<lambda>_. True)
      | FDK_REQ_PCI_WRITE \<Rightarrow> pci_ev True | FDK_REQ_IDE_WRITE \<Rightarrow> (\<lambda>_. True)
      | _ \<Rightarrow> (\<lambda>_. False))"

lemma header_only: "request_handler (\<lambda>n pkt s. Some (setResponse op 8 True pkt, s)) ok op"
proof
  show "valid_response op pkt'" "logs ok s s'"
    if "length pkt = FDK_MAXSZ_PKT" "Some (setResponse op 8 True pkt, s) = Some (pkt', s')" for pkt pkt' s s'
    using that valid_setResponse [of pkt 8] by (auto simp: FDK_MAXSZ_PKT_def)
  show "same_answer (Some (setResponse op 8 True p, s)) (Some (setResponse op 8 True q, s))"
    if "agree n p q" for n p q s
    using that by (simp add: same_answer_def agree_def response_setResponse FDK_MAXSZ_PKT_def)
qed

lemma no_request: "request_handler (\<lambda>n pkt s. None) ok op"
  by standard (simp_all add: same_answer_def)

lemmas request_contracts = mem_read_request.request_handler_axioms mem_write_request.request_handler_axioms
  io_read_request.request_handler_axioms io_write_request.request_handler_axioms
  pci_read_request.request_handler_axioms pci_write_request.request_handler_axioms
  ide_read_request.request_handler_axioms ide_write_request.request_handler_axioms
  cmos_read_request.request_handler_axioms cmos_write_request.request_handler_axioms
  pci_list_request.request_handler_axioms e820_list_request.request_handler_axioms
  header_only no_request

interpretation service: request_handler "request_of K memfd dev op" "request_ev op" "rsp_of op"
  for K memfd dev op
proof (cases op)
qed (simp_all only: request_of_def [abs_def] request_ev_def rsp_of_def fdkOpCode_t.case request_contracts)

lemma handle_packet_eq:
  "handle_packet K memfd dev n pkt s =
     (case op_of_code (hdr_opCode pkt) of
        None \<Rightarrow> (FDKD_REPLY, nack pkt, s)
      | Some op \<Rightarrow>
          (if op = FDK_REQ_DISCONNECT then FDKD_REPLY_AND_CLOSE else FDKD_REPLY,
           case request_of K memfd dev op n pkt s of None \<Rightarrow> (nack pkt, s) | Some r \<Rightarrow> r))"
proof (cases "op_of_code (hdr_opCode pkt)")
  case None
  then show ?thesis by (simp add: handle_packet_def)
next
  case (Some op)
  then show ?thesis
    by (cases op) (simp_all add: handle_packet_def request_of_def Let_def layout split: option.split prod.split)
qed

section \<open>Properties of the handler\<close>

text \<open>The connection and the size of the packet \<open>readPacket\<close> has put into its buffer.\<close>

definition conn_ok :: "fdkdConnection_t \<Rightarrow> u32 \<Rightarrow> bool" where
  "conn_ok c rByte \<longleftrightarrow> length (cn_packet c) = FDK_MAXSZ_PKT \<and> 8 \<le> unat rByte \<and> unat rByte \<le> FDK_MAXSZ_PKT"

text \<open>A connection of the concrete machine, with a request at the start of its buffer.\<close>

definition sim_conn :: "s32 \<Rightarrow> u8 list \<Rightarrow> fdkdConnection_t" where
  "sim_conn memfd req = \<lparr>cn_cfd = 4, cn_memfd = memfd, cn_diskPath = None,
     cn_packet = req @ replicate (FDK_MAXSZ_PKT - length req) 0\<rparr>"

lemma sim_conn_sel [simp]:
  "cn_memfd (sim_conn fd req) = fd" "cn_diskPath (sim_conn fd req) = None"
  "cn_packet (sim_conn fd req) = req @ replicate (FDK_MAXSZ_PKT - length req) 0"
  by (simp_all add: sim_conn_def)

lemma sim_conn_ok: "length req \<le> FDK_MAXSZ_PKT \<Longrightarrow> 8 \<le> unat n \<Longrightarrow> unat n \<le> FDK_MAXSZ_PKT \<Longrightarrow>
    conn_ok (sim_conn fd req) n"
  by (simp add: conn_ok_def)

text \<open>The answer: which response code follows, with the request that was carried out.\<close>

lemma handled_cases:
  assumes "conn_ok c rByte"
  obtains (nacked) r where
      "handleRequestPacket K c rByte s = (r, c\<lparr>cn_packet := nack (cn_packet c)\<rparr>, s)"
    and "\<And>op. op_of_code (hdr_opCode (cn_packet c)) = Some op \<Longrightarrow>
      request_of K (cn_memfd c) (cn_diskPath c) op (unat rByte) (cn_packet c) s = None"
  | (carried) op r pkt' s' where
      "handleRequestPacket K c rByte s = (r, c\<lparr>cn_packet := pkt'\<rparr>, s')"
    and "op_of_code (hdr_opCode (cn_packet c)) = Some op"
    and "request_of K (cn_memfd c) (cn_diskPath c) op (unat rByte) (cn_packet c) s = Some (pkt', s')"
    and "valid_response (rsp_of op) pkt'" and "logs (request_ev op) s s'"
proof (cases "op_of_code (hdr_opCode (cn_packet c))")
  case None
  then show thesis
    by (intro nacked [of FDKD_REPLY]) (simp_all add: handleRequestPacket_def handle_packet_eq)
next
  case (Some op)
  let ?r = "request_of K (cn_memfd c) (cn_diskPath c) op (unat rByte) (cn_packet c) s"
  let ?code = "if op = FDK_REQ_DISCONNECT then FDKD_REPLY_AND_CLOSE else FDKD_REPLY"
  show thesis
  proof (cases ?r)
    case None
    then show thesis
      using Some by (intro nacked [of ?code]) (auto simp: handleRequestPacket_def handle_packet_eq)
  next
    case (Some x)
    obtain pkt' s' where x: "x = (pkt', s')" by fastforce
    show thesis
      using \<open>op_of_code (hdr_opCode (cn_packet c)) = Some op\<close> Some assms service.h_valid service.h_logs
      by (intro carried [of ?code pkt' s' op])
        (auto simp: handleRequestPacket_def handle_packet_eq x conn_ok_def)
  qed
qed

lemma valid_nack: "length pkt = FDK_MAXSZ_PKT \<Longrightarrow> valid_response FDK_RSP_NACK (nack pkt)"
  by (simp add: nack_def valid_setResponse layout FDK_MAXSZ_PKT_def)

lemma handleRequestPacket_valid:
  assumes "conn_ok c rByte"
  shows "case handleRequestPacket K c rByte s of (r, c', s') \<Rightarrow>
    r \<in> {FDKD_REPLY, FDKD_REPLY_AND_CLOSE} \<and> c' = c\<lparr>cn_packet := cn_packet c'\<rparr> \<and>
    packet_ok (response (cn_packet c')) \<and>
    (\<exists>op. op \<in> {FDK_RSP_NACK} \<union> rsp_of ` set_option (op_of_code (hdr_opCode (cn_packet c))) \<and>
      valid_response op (cn_packet c'))"
proof (rule handled_cases [OF assms, of K s])
  fix r assume "handleRequestPacket K c rByte s = (r, c\<lparr>cn_packet := nack (cn_packet c)\<rparr>, s)"
  moreover have "valid_response FDK_RSP_NACK (nack (cn_packet c))"
    using assms by (simp add: valid_nack conn_ok_def)
  ultimately show ?thesis
    using valid_response_packet_ok by (auto simp: handleRequestPacket_def handle_packet_eq split: option.splits)
next
  fix op r pkt' s' assume "handleRequestPacket K c rByte s = (r, c\<lparr>cn_packet := pkt'\<rparr>, s')"
    "op_of_code (hdr_opCode (cn_packet c)) = Some op" "valid_response (rsp_of op) pkt'"
  then show ?thesis
    using valid_response_packet_ok by (auto simp: handleRequestPacket_def handle_packet_eq split: option.splits)
qed

text \<open>
  C1: memory safety and framing of the server. Whatever request arrives, the handler leaves a packet
  buffer of the same size that holds a complete response: its length field is between 8 and 8192, its
  code is the response code of the request or NACK, and the connection's descriptors are untouched.
\<close>

theorem handleRequestPacket_response:
  assumes "conn_ok c rByte"
  shows "case handleRequestPacket K c rByte s of (r, c', s') \<Rightarrow>
    r \<in> {FDKD_REPLY, FDKD_REPLY_AND_CLOSE} \<and> c' = c\<lparr>cn_packet := cn_packet c'\<rparr> \<and>
    packet_ok (response (cn_packet c')) \<and>
    (\<exists>op. op \<in> {FDK_RSP_NACK} \<union> rsp_of ` set_option (op_of_code (hdr_opCode (cn_packet c))) \<and>
      valid_response op (cn_packet c'))"
  by (rule handleRequestPacket_valid [OF assms])

theorem handleRequestPacket_response_witness:
  "case handleRequestPacket sim_os (sim_conn 3 [99, 0, 0, 0, 8, 0, 0, 0]) 8 sim_start of (r, c', s') \<Rightarrow>
    r \<in> {FDKD_REPLY, FDKD_REPLY_AND_CLOSE} \<and>
    c' = (sim_conn 3 [99, 0, 0, 0, 8, 0, 0, 0])\<lparr>cn_packet := cn_packet c'\<rparr> \<and>
    packet_ok (response (cn_packet c')) \<and>
    (\<exists>op. op \<in> {FDK_RSP_NACK} \<union> rsp_of ` set_option (op_of_code (hdr_opCode
        (cn_packet (sim_conn 3 [99, 0, 0, 0, 8, 0, 0, 0])))) \<and> valid_response op (cn_packet c'))"
  by (rule handleRequestPacket_response) (simp add: sim_conn_ok FDK_MAXSZ_PKT_def)

lemma handleRequestPacket_held:
  assumes "conn_ok c rByte"
  shows "held (snd (snd (handleRequestPacket K c rByte s))) = held s"
  by (rule handled_cases [OF assms, of K s]) (auto dest: logs_held)

text \<open>
  C6: handling a request leaks nothing: every file, mapping and port permission taken for it is given
  back, on every path, error paths included.
\<close>

theorem handleRequestPacket_no_leak:
  assumes "conn_ok c rByte"
  shows "held (snd (snd (handleRequestPacket K c rByte s))) = held s"
  by (rule handleRequestPacket_held [OF assms])

theorem handleRequestPacket_no_leak_witness:
  "held (snd (snd (handleRequestPacket sim_os
     (sim_conn 3 [5, 0, 0, 0, 20, 0, 0, 0, 0, 16, 0, 0, 0, 0, 0, 0, 2, 0, 0, 0]) 20 sim_start))) = held sim_start"
  by (rule handleRequestPacket_no_leak) (simp add: sim_conn_ok FDK_MAXSZ_PKT_def)

text \<open>
  C5: what a request may do to the machine. A memory or port read never writes; a disk read opens its
  device read-only; a configuration read or the PCI listing writes nothing but the address port CF8h;
  a CMOS access writes an index below 80h to the index ports, so the NMI mask bit stays clear, and
  data only when it is a write; connecting, disconnecting, the memory map and unknown codes make no
  call on a device at all.
\<close>

theorem handleRequestPacket_effects:
  assumes "conn_ok c rByte"
  shows "logs (case op_of_code (hdr_opCode (cn_packet c)) of None \<Rightarrow> (\<lambda>_. False) | Some op \<Rightarrow> request_ev op)
    s (snd (snd (handleRequestPacket K c rByte s)))"
  by (rule handled_cases [OF assms, of K s]) auto

theorem handleRequestPacket_effects_witness:
  "logs (case op_of_code (hdr_opCode (cn_packet (sim_conn 3 [25, 0, 0, 0, 8, 0, 0, 0]))) of
      None \<Rightarrow> (\<lambda>_. False) | Some op \<Rightarrow> request_ev op)
    sim_start (snd (snd (handleRequestPacket sim_os (sim_conn 3 [25, 0, 0, 0, 8, 0, 0, 0]) 8 sim_start)))"
  by (rule handleRequestPacket_effects) (simp add: sim_conn_ok FDK_MAXSZ_PKT_def)

lemma handleRequestPacket_same:
  assumes "conn_ok c rByte" and "conn_ok c2 rByte"
    and "take (unat rByte) (cn_packet c) = take (unat rByte) (cn_packet c2)"
    and "cn_memfd c = cn_memfd c2" and "cn_diskPath c = cn_diskPath c2"
  shows "response (cn_packet (fst (snd (handleRequestPacket K c rByte s)))) =
      response (cn_packet (fst (snd (handleRequestPacket K c2 rByte s)))) \<and>
    snd (snd (handleRequestPacket K c rByte s)) = snd (snd (handleRequestPacket K c2 rByte s)) \<and>
    fst (handleRequestPacket K c rByte s) = fst (handleRequestPacket K c2 rByte s)"
proof -
  let ?p = "cn_packet c" and ?q = "cn_packet c2" and ?n = "unat rByte"
  have ag: "agree ?n ?p ?q" using assms by (simp add: agree_def conn_ok_def)
  have op: "hdr_opCode ?p = hdr_opCode ?q"
    using hdr_cong_take(1) [OF assms(3)] assms(1) by (simp add: conn_ok_def)
  have nk: "response (nack ?p) = response (nack ?q)"
    using assms(1,2) by (simp add: nack_def response_setResponse layout conn_ok_def FDK_MAXSZ_PKT_def)
  have same: "same_answer (request_of K (cn_memfd c) (cn_diskPath c) op ?n ?p s)
      (request_of K (cn_memfd c) (cn_diskPath c) op ?n ?q s)" for op
    using service.h_same [OF ag] assms(1) by (simp add: conn_ok_def)
  show ?thesis
  proof (cases "op_of_code (hdr_opCode ?q)")
    case None
    with op nk show ?thesis by (simp add: handleRequestPacket_def handle_packet_eq)
  next
    case (Some op')
    with same [of op'] op nk assms(4,5) show ?thesis
      by (auto simp: handleRequestPacket_def handle_packet_eq same_answer_def
          split: option.splits elim: option.rel_cases)
  qed
qed

text \<open>
  C3: no stale bytes. The response sent, the new state of the machine and the decision to close depend
  only on the bytes of the request, not on what the buffer held behind them: an earlier client's data
  cannot reach a later response.
\<close>

theorem handleRequestPacket_no_stale_bytes:
  assumes "conn_ok c rByte" and "conn_ok c2 rByte"
    and "take (unat rByte) (cn_packet c) = take (unat rByte) (cn_packet c2)"
    and "cn_memfd c = cn_memfd c2" and "cn_diskPath c = cn_diskPath c2"
  shows "response (cn_packet (fst (snd (handleRequestPacket K c rByte s)))) =
      response (cn_packet (fst (snd (handleRequestPacket K c2 rByte s)))) \<and>
    snd (snd (handleRequestPacket K c rByte s)) = snd (snd (handleRequestPacket K c2 rByte s)) \<and>
    fst (handleRequestPacket K c rByte s) = fst (handleRequestPacket K c2 rByte s)"
  by (rule handleRequestPacket_same [OF assms])

theorem handleRequestPacket_no_stale_bytes_witness:
  "response (cn_packet (fst (snd (handleRequestPacket sim_os
       (sim_conn 3 [27, 0, 0, 0, 8, 0, 0, 0, 1, 2, 3]) 8 sim_start)))) =
   response (cn_packet (fst (snd (handleRequestPacket sim_os
       (sim_conn 3 [27, 0, 0, 0, 8, 0, 0, 0]) 8 sim_start))))"
  by (rule conjunct1 [OF handleRequestPacket_no_stale_bytes])
    (simp_all add: sim_conn_ok FDK_MAXSZ_PKT_def)

text \<open>
  The requests the protocol defines: the fixed part is complete, a read's answer fits a packet, and a
  write carries all the bytes it announces.
\<close>

definition well_formed :: "nat \<Rightarrow> u8 list \<Rightarrow> bool" where
  "well_formed n pkt \<longleftrightarrow>
     (case op_of_code (hdr_opCode pkt) of
        None \<Rightarrow> False
      | Some op \<Rightarrow>
          (if op \<in> {FDK_REQ_CONNECT, FDK_REQ_DISCONNECT, FDK_REQ_PCI_LIST, FDK_REQ_E820_LIST} then True
           else if op \<in> {FDK_REQ_MEM_READ, FDK_REQ_IDE_READ} then 20 \<le> n \<and> get32 16 pkt \<le> 8172
           else if op \<in> {FDK_REQ_MEM_WRITE, FDK_REQ_IDE_WRITE} then get32 16 pkt \<le> 8172 \<and> 20 + unat (get32 16 pkt) \<le> n
           else if op = FDK_REQ_IO_READ then 14 \<le> n \<and> get32 10 pkt \<le> 8178
           else if op = FDK_REQ_IO_WRITE then get32 10 pkt \<le> 8178 \<and> 14 + unat (get32 10 pkt) \<le> n
           else if op = FDK_REQ_PCI_READ then 14 \<le> n \<and> get16 12 pkt \<le> 8178
           else if op = FDK_REQ_PCI_WRITE then get16 12 pkt \<le> 8178 \<and> 14 + unat (get16 12 pkt) \<le> n
           else if op = FDK_REQ_CMOS_READ then 10 \<le> n
           else if op = FDK_REQ_CMOS_WRITE then
             10 + (if get8 9 pkt = 0 then 256 else unat (get8 9 pkt)) \<le> n
           else False))"

lemma unat_ucast_16_32 [simp]: "unat (ucast (v :: u16) :: u32) = unat v"
  using unsigned_less [of v, where ?'a = nat] by (simp add: unsigned_ucast_eq take_bit_nat_eq_self)

lemma unat_ucast_8_32 [simp]: "unat (ucast (v :: u8) :: u32) = unat v"
  using unsigned_less [of v, where ?'a = nat] by (simp add: unsigned_ucast_eq take_bit_nat_eq_self)

lemma unat_CMOS_REQ_SIZE: "unat (CMOS_REQ_SIZE v) = (if v = 0 then 256 else unat v)"
  by (simp add: CMOS_REQ_SIZE_def cmos_consts)

lemmas request_defs = req_mem_read_def req_mem_write_def req_io_read_def req_io_write_def
  req_pci_read_def req_pci_write_def req_ide_read_def req_ide_write_def req_cmos_read_def
  req_cmos_write_def

lemma request_of_None:
  assumes "op_of_code (hdr_opCode pkt) = Some op"
  shows "request_of K memfd dev op n pkt s = None \<longleftrightarrow> \<not> well_formed n pkt"
  using assms
  by (cases op)
    (simp_all add: request_of_def well_formed_def request_defs request_simps unat_CMOS_REQ_SIZE
      word_le_nat_alt not_le not_less conj_commute disj_commute)

text \<open>
  C4: the handler carries out exactly the well-formed requests. Any other request is answered by a
  NACK of eight bytes, and makes no system call at all.
\<close>

theorem handleRequestPacket_refuses:
  assumes "conn_ok c rByte"
  shows "case handleRequestPacket K c rByte s of (r, c', s') \<Rightarrow>
    (if well_formed (unat rByte) (cn_packet c)
     then hdr_opCode (cn_packet c') = op_code (rsp_of (the (op_of_code (hdr_opCode (cn_packet c)))))
     else s' = s \<and> response (cn_packet c') = hdr_bytes FDK_RSP_NACK FDK_FAILURE 8)"
proof (rule handled_cases [OF assms, of K s])
  fix r assume h: "handleRequestPacket K c rByte s = (r, c\<lparr>cn_packet := nack (cn_packet c)\<rparr>, s)"
    and none: "\<And>op. op_of_code (hdr_opCode (cn_packet c)) = Some op \<Longrightarrow>
      request_of K (cn_memfd c) (cn_diskPath c) op (unat rByte) (cn_packet c) s = None"
  have "\<not> well_formed (unat rByte) (cn_packet c)"
  proof (cases "op_of_code (hdr_opCode (cn_packet c))")
    case None
    then show ?thesis by (simp add: well_formed_def)
  next
    case (Some op)
    with none request_of_None [OF Some] show ?thesis by blast
  qed
  then show ?thesis
    using h assms by (simp add: nack_def response_setResponse layout conn_ok_def FDK_MAXSZ_PKT_def)
next
  fix op r pkt' s' assume "handleRequestPacket K c rByte s = (r, c\<lparr>cn_packet := pkt'\<rparr>, s')"
    and op: "op_of_code (hdr_opCode (cn_packet c)) = Some op" and "valid_response (rsp_of op) pkt'"
    and some: "request_of K (cn_memfd c) (cn_diskPath c) op (unat rByte) (cn_packet c) s = Some (pkt', s')"
  moreover have "well_formed (unat rByte) (cn_packet c)"
    using request_of_None [OF op, of K "cn_memfd c" "cn_diskPath c" "unat rByte" s] some by simp
  ultimately show ?thesis by (simp add: valid_response_def)
qed

theorem handleRequestPacket_refuses_witness:
  "case handleRequestPacket sim_os (sim_conn 3 [5, 0, 0, 0, 8, 0, 0, 0]) 8 sim_start of (r, c', s') \<Rightarrow>
    (if well_formed (unat (8 :: u32)) (cn_packet (sim_conn 3 [5, 0, 0, 0, 8, 0, 0, 0]))
     then hdr_opCode (cn_packet c') = op_code (rsp_of (the (op_of_code (hdr_opCode
       (cn_packet (sim_conn 3 [5, 0, 0, 0, 8, 0, 0, 0]))))))
     else s' = sim_start \<and> response (cn_packet c') = hdr_bytes FDK_RSP_NACK FDK_FAILURE 8)"
  by (rule handleRequestPacket_refuses) (simp add: sim_conn_ok FDK_MAXSZ_PKT_def)

section \<open>Failed reads\<close>

context filling_reader
begin

lemma answer_read_failed:
  assumes "length pkt = FDK_MAXSZ_PKT" and "8 \<le> offsetof t f"
    and "offsetof t f + unat sz \<le> FDK_MAXSZ_PKT"
    and "hdr_errorCode (fst (answer_read rd a sz op t f pkt s)) \<noteq> FDK_SUCCESS"
  shows "drop (offsetof t f) (response (fst (answer_read rd a sz op t f pkt s))) = replicate (unat sz) 255"
proof -
  let ?reg = "bytes_at (offsetof t f) (unat sz) pkt"
  let ?r = "rd a sz ?reg s"
  have len: "length ?reg = unat sz" using assms by simp
  have "length (blit (offsetof t f) (snd (fst ?r)) pkt) = FDK_MAXSZ_PKT"
    using assms by (subst rd_blit) simp_all
  then have "fst (fst ?r) \<noteq> 0"
    using assms(4) by (auto simp: answer_read_def split_def Let_def setResponse_eq hdr_of_bytes FDK_MAXSZ_PKT_def)
  then have "snd (fst ?r) = replicate (unat sz) 255" by (rule rd_fail [OF len])
  then show ?thesis
    using assms(1,2,3) by (simp add: answer_read_response split_def Let_def)
qed

end

lemmas failed_answers =
  mem_reader.answer_read_failed [of _ fdkRspMemReadPkt_t "''memContent''", simplified layout]
  port_reader.answer_read_failed [of _ fdkRspIoReadPkt_t "''ioContent''", simplified layout]
  cmos_reader.answer_read_failed [of _ fdkRspCmosReadPkt_t "''cmosContent''", simplified layout]

text \<open>Where the content of a read response starts, and how many bytes were asked for.\<close>

definition read_window :: "u8 list \<Rightarrow> nat \<times> nat" where
  "read_window pkt =
     (case op_of_code (hdr_opCode pkt) of
        Some FDK_REQ_MEM_READ \<Rightarrow> (20, unat (get32 16 pkt))
      | Some FDK_REQ_IO_READ \<Rightarrow> (14, unat (get32 10 pkt))
      | Some FDK_REQ_CMOS_READ \<Rightarrow> (10, unat (CMOS_REQ_SIZE (get8 9 pkt)))
      | _ \<Rightarrow> (0, 0))"

text \<open>
  C22: a memory, port or CMOS read that fails reports the failure and answers \<open>FFh\<close> for every byte
  asked, the value of a bus that nothing drives.
\<close>

theorem failed_reads_are_ff:
  assumes "conn_ok c rByte"
    and "hdr_opCode (cn_packet c) \<in> op_code ` {FDK_REQ_MEM_READ, FDK_REQ_IO_READ, FDK_REQ_CMOS_READ}"
    and "well_formed (unat rByte) (cn_packet c)"
    and "hdr_errorCode (cn_packet (fst (snd (handleRequestPacket K c rByte s)))) \<noteq> FDK_SUCCESS"
  shows "drop (fst (read_window (cn_packet c)))
      (response (cn_packet (fst (snd (handleRequestPacket K c rByte s))))) =
    replicate (snd (read_window (cn_packet c))) 255"
proof -
  let ?p = "cn_packet c"
  have len: "length ?p = FDK_MAXSZ_PKT" using assms(1) by (simp add: conn_ok_def)
  from assms(2) consider "hdr_opCode ?p = op_code FDK_REQ_MEM_READ"
    | "hdr_opCode ?p = op_code FDK_REQ_IO_READ" | "hdr_opCode ?p = op_code FDK_REQ_CMOS_READ" by auto
  then show ?thesis
  proof cases
    case 1
    with assms(3) have "20 \<le> unat rByte" "unat (get32 16 ?p) \<le> 8172"
      by (simp_all add: well_formed_def word_le_nat_alt)
    with 1 assms(4) len show ?thesis
      by (auto simp: handleRequestPacket_def handle_packet_eq request_of_def req_mem_read_def
          read_window_def request_simps split_def intro!: failed_answers)
  next
    case 2
    with assms(3) have "14 \<le> unat rByte" "unat (get32 10 ?p) \<le> 8178"
      by (simp_all add: well_formed_def word_le_nat_alt)
    with 2 assms(4) len show ?thesis
      by (auto simp: handleRequestPacket_def handle_packet_eq request_of_def req_io_read_def
          read_window_def request_simps split_def intro!: failed_answers)
  next
    case 3
    with assms(3) have "10 \<le> unat rByte" "unat (CMOS_REQ_SIZE (get8 9 ?p)) \<le> 8182"
      by (simp_all add: well_formed_def order_trans [OF cmos_size_bound])
    with 3 assms(4) len show ?thesis
      by (auto simp: handleRequestPacket_def handle_packet_eq request_of_def req_cmos_read_def
          read_window_def request_simps split_def intro!: failed_answers)
  qed
qed


text \<open>The failing read of the witness: memory without \<open>/dev/mem\<close>.\<close>

lemma sim_read_fields:
  defines "p \<equiv> cn_packet (sim_conn (- 1) [5, 0, 0, 0, 20, 0, 0, 0, 0, 16, 0, 0, 0, 0, 0, 0, 2, 0, 0, 0])"
  shows "hdr_opCode p = op_code FDK_REQ_MEM_READ" "get64 8 p = 0x1000" "get32 16 p = 2"
  unfolding p_def
  by (simp_all add: hdr_opCode_def layout get_defs bytes_at_def op_code_def)

theorem failed_reads_are_ff_witness:
  "drop 20 (response (cn_packet (fst (snd (handleRequestPacket sim_os
     (sim_conn (- 1) [5, 0, 0, 0, 20, 0, 0, 0, 0, 16, 0, 0, 0, 0, 0, 0, 2, 0, 0, 0]) 20 sim_start))))) = [255, 255]"
proof -
  let ?c = "sim_conn (- 1) [5, 0, 0, 0, 20, 0, 0, 0, 0, 16, 0, 0, 0, 0, 0, 0, 2, 0, 0, 0]"
  note f = sim_read_fields
  have w: "read_window (cn_packet ?c) = (20, 2)" by (simp only: read_window_def f) simp
  have ok: "conn_ok ?c 20" by (simp add: sim_conn_ok FDK_MAXSZ_PKT_def)
  have wf: "well_formed (unat (20 :: u32)) (cn_packet ?c)"
    by (simp only: well_formed_def f) simp
  have len: "length (cn_packet ?c) = 8192" by (simp add: FDK_MAXSZ_PKT_def)
  have "hdr_errorCode (cn_packet (fst (snd (handleRequestPacket sim_os ?c 20 sim_start)))) = FDK_FAILURE"
    using wf
    by (simp add: len handleRequestPacket_def handle_packet_eq request_of_def req_mem_read_def f
        request_simps answer_read_def memReadBuffer_def mapRange_def setResponse_eq hdr_of_bytes
        del: sim_conn_sel(3))
  then show ?thesis
    using failed_reads_are_ff [OF ok _ wf, of sim_os sim_start] unfolding w
    by (simp only: f) (simp add: FDK_FAILURE_def FDK_SUCCESS_def numeral_2_eq_2)
qed

end
