(* ===== verification/Cmos_Device.thy ===== *)
theory Cmos_Device
  imports Lib_Port
begin

text \<open>
  What CMOS accesses compute when a CMOS chip sits behind ports 70h-73h, and the safety of the
  index port writes. The chip is the hypothesis \<open>cmos_chip\<close>.
\<close>

section \<open>The chip\<close>

definition bank_port :: "bool \<Rightarrow> u16" where
  "bank_port b = (if b then 0x72 else 0x70)"

definition cmos_cell :: "bool \<Rightarrow> u8 \<Rightarrow> nat" where
  "cmos_cell b i = (if b then 128 else 0) + unat i mod 128"

text \<open>
  Documented behaviour of the chip, accessed by in/out instructions: writing port 70h (72h) sets the
  index register of the first (second) bank, port 71h (73h) is the cell of that bank that the low seven
  bits of its index select. \<open>nv\<close> is the memory of the chip and \<open>ix\<close> are its two index registers.
  Opening \<open>/dev/port\<close> fails and \<open>ioperm\<close> is granted, so that the server uses the instructions.
\<close>

definition cmos_chip :: "'w os \<Rightarrow> ('w \<Rightarrow> nat \<Rightarrow> u8) \<Rightarrow> ('w \<Rightarrow> bool \<Rightarrow> u8) \<Rightarrow> bool" where
  "cmos_chip K nv ix \<longleftrightarrow> os_port_insn K \<and>
     (\<forall>e. fst (os_open K FDK_PORT_DEV O_RDWR e) = - 1 \<and>
       nv (snd (os_open K FDK_PORT_DEV O_RDWR e)) = nv e \<and> ix (snd (os_open K FDK_PORT_DEV O_RDWR e)) = ix e) \<and>
     (\<forall>port n on e. fst (os_ioperm K port n on e) = 0 \<and>
       nv (snd (os_ioperm K port n on e)) = nv e \<and> ix (snd (os_ioperm K port n on e)) = ix e) \<and>
     (\<forall>b v e. nv (os_outb K v (bank_port b) e) = nv e \<and> ix (os_outb K v (bank_port b) e) = (ix e)(b := v)) \<and>
     (\<forall>b e. fst (os_inb K (bank_port b + 1) e) = nv e (cmos_cell b (ix e b)) \<and>
       nv (snd (os_inb K (bank_port b + 1) e)) = nv e \<and> ix (snd (os_inb K (bank_port b + 1) e)) = ix e) \<and>
     (\<forall>b v e. nv (os_outb K v (bank_port b + 1) e) = (nv e)(cmos_cell b (ix e b) := v) \<and>
       ix (os_outb K v (bank_port b + 1) e) = ix e)"

text \<open>What the chip does under the calls of the server.\<close>

lemma chip_calls:
  assumes "cmos_chip K nv ix"
  shows "os_port_insn K"
    "fst (sys_open K FDK_PORT_DEV O_RDWR s) = - 1"
    "nv (env (snd (sys_open K FDK_PORT_DEV O_RDWR s))) = nv (env s)" "ix (env (snd (sys_open K FDK_PORT_DEV O_RDWR s))) = ix (env s)"
    "fst (sys_ioperm K port n on s) = 0"
    "nv (env (snd (sys_ioperm K port n on s))) = nv (env s)" "ix (env (snd (sys_ioperm K port n on s))) = ix (env s)"
    "nv (env (sys_outb K v (bank_port b) s)) = nv (env s)" "ix (env (sys_outb K v (bank_port b) s)) = (ix (env s))(b := v)"
    "fst (sys_inb K (bank_port b + 1) s) = nv (env s) (cmos_cell b (ix (env s) b))"
    "nv (env (snd (sys_inb K (bank_port b + 1) s))) = nv (env s)" "ix (env (snd (sys_inb K (bank_port b + 1) s))) = ix (env s)"
    "nv (env (sys_outb K v (bank_port b + 1) s)) = (nv (env s))(cmos_cell b (ix (env s) b) := v)"
    "ix (env (sys_outb K v (bank_port b + 1) s)) = ix (env s)"
  using assms by (simp_all add: cmos_chip_def sys_open_def sys_ioperm_def sys_outb_def sys_inb_def split_def Let_def)

lemma unat_cmos_idx: "unat (cmos_idx off) = unat off mod 128"
proof -
  have "off AND 0x7F = take_bit 7 off"
    by (simp add: take_bit_eq_mask mask_eq_exp_minus_1)
  then have "unat (cmos_idx off) = take_bit 8 (take_bit 7 (unat off))"
    by (simp add: cmos_idx_def cmos_consts unsigned_ucast_eq unsigned_take_bit_eq)
  also have "\<dots> = unat off mod 128" by (simp only: take_bit_take_bit) (simp add: take_bit_eq_mod)
  finally show ?thesis .
qed

text \<open>The bank of an offset, and its cell.\<close>

definition cmos_bank :: "u32 \<Rightarrow> bool" where
  "cmos_bank off \<longleftrightarrow> \<not> off < FDK_CMOS_BANK_SIZE"

lemma cmos_idxPort_bank: "cmos_idxPort off = bank_port (cmos_bank off)"
  by (simp add: cmos_idxPort_def bank_port_def cmos_bank_def cmos_consts)

lemma cmos_cell_offset: "unat off < 256 \<Longrightarrow> cmos_cell (cmos_bank off) (cmos_idx off) = unat off"
  by (simp add: cmos_cell_def cmos_bank_def unat_cmos_idx cmos_consts word_less_nat_alt le_mod_geq)

text \<open>A transfer by the instructions.\<close>

lemma portXfer_insn:
  assumes "cmos_chip K nv ix" and "ph_fd h < 0"
  shows "portXfer K h port v w s =
    (if w then ((0, v), sys_outb K v port s) else ((0, fst (sys_inb K port s)), snd (sys_inb K port s)))"
  using assms(2) chip_calls(1) [OF assms(1)] by (simp add: portXfer_def split_def Let_def)

text \<open>One byte: index, then data.\<close>

lemma cmos_read_byte:
  fixes K :: "'w os" and s :: "'w sys" and h and off and b
  assumes "cmos_chip K nv ix" and "ph_fd h < 0" and "unat off < 256"
  defines "i \<equiv> portXfer K h (cmos_idxPort off) (cmos_idx off) True s"
  defines "x \<equiv> portXfer K h (cmos_idxPort off + 1) b False (snd i)"
  shows "fst (fst i) = 0 \<and> fst x = (0, nv (env s) (unat off)) \<and> nv (env (snd x)) = nv (env s)"
  by (simp add: i_def x_def portXfer_insn [OF assms(1,2)] cmos_idxPort_bank chip_calls [OF assms(1)]
      cmos_cell_offset assms(3))

lemma unat_Suc_u32: "unat (off :: u32) < 256 \<Longrightarrow> unat (off + 1) = Suc (unat off)"
  by (simp add: unat_word_ariths)

lemma cmos_bytes_read:
  assumes "cmos_chip K nv ix" and "ph_fd h < 0" and "unat off + length bs \<le> 256"
  shows "fst (cmos_bytes K h off bs False s) = (0, map (nv (env s)) [unat off ..< unat off + length bs]) \<and>
    nv (env (snd (cmos_bytes K h off bs False s))) = nv (env s)"
  using assms(3)
proof (induction bs arbitrary: off s)
  case Nil
  show ?case by simp
next
  case (Cons b bs)
  then have lt: "unat off < 256" by simp
  let ?i = "portXfer K h (cmos_idxPort off) (cmos_idx off) True s"
  let ?x = "portXfer K h (cmos_idxPort off + 1) b False (snd ?i)"
  note byte = cmos_read_byte [OF assms(1,2) lt, of s b]
  have "fst (cmos_bytes K h (off + 1) bs False (snd ?x)) =
      (0, map (nv (env (snd ?x))) [unat (off + 1) ..< unat (off + 1) + length bs]) \<and>
    nv (env (snd (cmos_bytes K h (off + 1) bs False (snd ?x)))) = nv (env (snd ?x))"
    using Cons.prems unat_Suc_u32 [OF lt] by (intro Cons.IH) simp
  with byte unat_Suc_u32 [OF lt] show ?case
    by (simp add: split_def Let_def upt_conv_Cons del: upt_Suc)
qed

text \<open>On such a machine the handle is one for the in/out instructions.\<close>

lemma cmos_open:
  assumes "cmos_chip K nv ix" and "ucast port + len \<le> FDK_PORT_SPACE"
  shows "\<exists>s1. portOpen K port len s = (Some \<lparr>ph_fd = - 1, ph_insn = True, ph_port = port, ph_len = len\<rparr>, s1) \<and>
    nv (env s1) = nv (env s) \<and> ix (env s1) = ix (env s)"
  using assms(2) chip_calls [OF assms(1)]
  by (intro exI [of _ "snd (sys_ioperm K port len True (snd (sys_open K FDK_PORT_DEV O_RDWR s)))"])
    (simp add: portOpen_def split_def Let_def)

lemma cmos_port_range: "ucast FDK_CMOS_ADDR + ucast (FDK_CMOS_EXT_DATA - FDK_CMOS_ADDR + 1) \<le> FDK_PORT_SPACE"
  by (simp add: cmos_consts FDK_PORT_SPACE_def)

lemma cmos_size_check: "unat addr + unat len \<le> 256 \<Longrightarrow> ucast (addr :: u8) + len \<le> FDK_CMOS_SIZE"
proof -
  assume a: "unat addr + unat len \<le> 256"
  then have "take_bit 32 (unat addr) = unat addr" by (simp add: take_bit_nat_eq_self_iff)
  with a have "unat (ucast addr + len :: u32) = unat addr + unat len"
    by (simp add: unat_word_ariths unsigned_ucast_eq)
  with a show ?thesis by (simp add: cmos_consts word_le_nat_alt)
qed

text \<open>
  With a CMOS chip present, \<open>cmosRead\<close> returns exactly the bytes \<open>addr\<close>, ..., \<open>addr + len - 1\<close> of
  the chip, across the bank boundary at 80h, for every range inside the 256 bytes.
\<close>

theorem cmosRead_nvram:
  assumes "cmos_chip K nv ix" and "unat addr + unat len \<le> 256" and "length buf = unat len"
  shows "fst (cmosRead K addr len buf s) =
    (0, map (nv (env s)) [unat addr ..< unat addr + unat len])"
proof -
  obtain h s1 where op: "portOpen K FDK_CMOS_ADDR (ucast (FDK_CMOS_EXT_DATA - FDK_CMOS_ADDR + 1)) s = (Some h, s1)"
    and h: "ph_fd h < 0" and nv: "nv (env s1) = nv (env s)"
    using cmos_open [OF assms(1) cmos_port_range, of s] by auto
  have ua: "unat (ucast addr :: u32) = unat addr"
    using assms(2) by (simp add: unsigned_ucast_eq take_bit_nat_eq_self_iff)
  have "fst (cmos_bytes K h (ucast addr) buf False s1) = (0, map (nv (env s)) [unat addr ..< unat addr + unat len])"
    using cmos_bytes_read [OF assms(1) h, of "ucast addr" buf s1] assms(2,3) nv ua by simp
  then have "cmosAccess K addr len buf False s =
      ((0, map (nv (env s)) [unat addr ..< unat addr + unat len]),
       portClose K h (snd (cmos_bytes K h (ucast addr) buf False s1)))"
    using cmos_size_check [OF assms(2)] assms(3)
    by (simp add: cmosAccess_def leD op split_def Let_def blit_full)
  then show ?thesis by (simp add: cmosRead_def fill_on_error_def)
qed

lemma sim_cmos_chip: "cmos_chip sim_os sim_nvram (\<lambda>e b. if b then sim_idx2 e else sim_idx1 e)"
  by (auto simp: cmos_chip_def sim_defs FDK_PORT_DEV_def bank_port_def cmos_cell_def fun_eq_iff)

theorem cmosRead_nvram_witness:
  "fst (cmosRead sim_os 0x7F 2 [0, 0] sim_start) = (0, [0x7F, 0x80])"
proof -
  have "fst (cmosRead sim_os 0x7F 2 [0, 0] sim_start) =
      (0, map (sim_nvram (env sim_start)) [unat (0x7F :: u8) ..< unat (0x7F :: u8) + unat (2 :: u32)])"
    by (rule cmosRead_nvram [OF sim_cmos_chip]) simp_all
  then show ?thesis by (simp add: sim_defs upt_rec)
qed

text \<open>
  C24: no CMOS request, read or write, ever masks NMI: every byte written to an index port (70h or
  72h) is below 80h, and the only other ports written are the data ports 71h and 73h, and those by
  write requests only.
\<close>

theorem cmos_index_writes_keep_nmi:
  assumes "length buf = unat len"
    and "s' = snd (cmosRead K addr len buf s) \<and> \<not> w \<or> s' = snd (cmosWrite K addr len buf s) \<and> w"
    and "emitted s s' es" and "ev \<in> set es" and "hw_write ev"
  shows "\<exists>p v. port_out ev = Some (p, v) \<and>
    ((p = 0x70 \<or> p = 0x72) \<and> v < 0x80 \<or> w \<and> (p = 0x71 \<or> p = 0x73))"
proof -
  have "logs (xfer_ok (cmos_write_ok w)) s s'"
    using assms(2) cmos_reader.rd_logs [OF assms(1)] cmos_writer.wr_logs [OF assms(1)] by auto
  from logs_emitted [OF this assms(3,4)] assms(5) show ?thesis
    by (simp add: xfer_ok_def cmos_write_ok_def)
qed

theorem cmos_index_writes_keep_nmi_witness:
  "\<exists>p v. port_out (EvOutb 5 0x70) = Some (p, v) \<and>
    ((p = 0x70 \<or> p = 0x72) \<and> v < 0x80 \<or> True \<and> (p = 0x71 \<or> p = 0x73))"
proof (rule cmos_index_writes_keep_nmi [of "[7]" 1])
  let ?s = "snd (cmosWrite sim_os 5 1 [7] sim_start)"
  show "?s = snd (cmosRead sim_os 5 1 [7] sim_start) \<and> \<not> True \<or>
      ?s = snd (cmosWrite sim_os 5 1 [7] sim_start) \<and> True" by simp
  show "emitted sim_start ?s (log ?s)" by (simp add: emitted_def sim_start_def)
  show "EvOutb 5 0x70 \<in> set (log ?s)"
    by (simp add: cmosWrite_def cmosAccess_def portOpen_def portXfer_def portClose_def sys_defs
        sim_defs cmos_consts FDK_PORT_SPACE_def FDK_PORT_DEV_def cmos_idxPort_def cmos_idx_def)
qed simp_all

end
