(* ===== verification/Cmos_Threads.thy ===== *)
theory Cmos_Threads
  imports Cmos_Device
begin

text \<open>
  Concurrent CMOS accesses. Each connection of the server is a thread of its own
  (\<open>src_fdkd/fdkd.c\<close>), and nothing orders the port accesses of two of them: \<open>cmosAccess\<close> of
  \<open>libport.c\<close> is taken apart into the steps between which another thread may run.
\<close>

section \<open>One access, step by step\<close>

text \<open>Where a thread is: before \<open>portOpen\<close>, at the two transfers of the loop, before \<open>portClose\<close>, returned.\<close>

datatype cmos_phase =
  AtOpen | AtIndex portHandle_t | AtData portHandle_t | AtClose portHandle_t s32 | AtEnd s32

record cmos_thread =
  ct_addr :: u8
  ct_len :: u32
  ct_write :: bool
  ct_off :: u32
  ct_todo :: "u8 list"
  ct_done :: "u8 list"
  ct_phase :: cmos_phase

definition cmos_call :: "u8 \<Rightarrow> u32 \<Rightarrow> u8 list \<Rightarrow> bool \<Rightarrow> cmos_thread" where
  "cmos_call addr len buf isWrite =
     \<lparr>ct_addr = addr, ct_len = len, ct_write = isWrite, ct_off = ucast addr, ct_todo = take (unat len) buf,
      ct_done = [], ct_phase = AtOpen\<rparr>"

definition cmos_step :: "'w os \<Rightarrow> cmos_thread \<times> 'w sys \<Rightarrow> cmos_thread \<times> 'w sys" where
  "cmos_step K x =
     (let (t, s) = x; off = ct_off t
      in case ct_phase t of
          AtOpen \<Rightarrow>
            if ucast (ct_addr t) + ct_len t > FDK_CMOS_SIZE then (t\<lparr>ct_phase := AtEnd (- 1)\<rparr>, s)
            else (case portOpen K FDK_CMOS_ADDR (ucast (FDK_CMOS_EXT_DATA - FDK_CMOS_ADDR + 1)) s of
                    (None, s1) \<Rightarrow> (t\<lparr>ct_phase := AtEnd (- 1)\<rparr>, s1)
                  | (Some h, s1) \<Rightarrow> (t\<lparr>ct_phase := AtIndex h\<rparr>, s1))
        | AtIndex h \<Rightarrow>
            (case ct_todo t of
               [] \<Rightarrow> (t\<lparr>ct_phase := AtClose h 0\<rparr>, s)
             | b # bs \<Rightarrow>
                 let ((r, i), s1) = portXfer K h (cmos_idxPort off) (cmos_idx off) True s
                 in (t\<lparr>ct_phase := (if r \<noteq> 0 then AtClose h r else AtData h)\<rparr>, s1))
        | AtData h \<Rightarrow>
            (case ct_todo t of
               [] \<Rightarrow> (t, s)
             | b # bs \<Rightarrow>
                 let ((r, v), s1) = portXfer K h (cmos_idxPort off + 1) b (ct_write t) s
                 in (t\<lparr>ct_off := off + 1, ct_todo := bs, ct_done := ct_done t @ [v],
                       ct_phase := (if r \<noteq> 0 then AtClose h r else AtIndex h)\<rparr>, s1))
        | AtClose h r \<Rightarrow> (t\<lparr>ct_phase := AtEnd r\<rparr>, portClose K h s)
        | AtEnd r \<Rightarrow> (t, s))"

text \<open>The buffer of the access.\<close>

definition ct_region :: "cmos_thread \<Rightarrow> u8 list" where
  "ct_region t = ct_done t @ ct_todo t"

section \<open>Threads\<close>

text \<open>A turn of the scheduler: thread \<open>i\<close> makes one step.\<close>

definition cmos_turn :: "'w os \<Rightarrow> nat \<Rightarrow> cmos_thread list \<times> 'w sys \<Rightarrow> cmos_thread list \<times> 'w sys" where
  "cmos_turn K i x =
     (let (ts, s) = x
      in if i < length ts then (case cmos_step K (ts ! i, s) of (t, s1) \<Rightarrow> (ts[i := t], s1)) else x)"

inductive interleaved :: "'w os \<Rightarrow> cmos_thread list \<times> 'w sys \<Rightarrow> cmos_thread list \<times> 'w sys \<Rightarrow> bool" for K x where
  interleaved_start: "interleaved K x x"
| interleaved_turn: "interleaved K x y \<Longrightarrow> interleaved K x (cmos_turn K i y)"

definition cmos_schedule :: "'w os \<Rightarrow> nat list \<Rightarrow> cmos_thread list \<times> 'w sys \<Rightarrow> cmos_thread list \<times> 'w sys" where
  "cmos_schedule K order x = fold (cmos_turn K) order x"

lemma interleaved_schedule: "interleaved K x (cmos_schedule K order x)"
proof (induction order rule: rev_induct)
  case Nil
  show ?case by (simp add: cmos_schedule_def interleaved_start)
next
  case (snoc i order)
  then show ?case by (simp add: cmos_schedule_def interleaved_turn)
qed

section \<open>A thread that runs alone\<close>

lemma cmos_step_ended [simp]: "ct_phase t = AtEnd r \<Longrightarrow> cmos_step K (t, s) = (t, s)"
  by (simp add: cmos_step_def)

lemma cmos_step_end: "ct_phase t = AtEnd r \<Longrightarrow> (cmos_step K ^^ n) (t, s) = (t, s)"
  by (induction n) simp_all

text \<open>The loop from the index port on, with its close, takes at most two steps for each byte and two more.\<close>

lemma cmos_steps_bytes:
  assumes "ct_phase t = AtIndex h" and "cmos_bytes K h (ct_off t) (ct_todo t) (ct_write t) s = ((r, vs), s1)"
  shows "\<exists>t'. (cmos_step K ^^ (2 * length (ct_todo t) + 2)) (t, s) = (t', portClose K h s1) \<and>
    ct_phase t' = AtEnd r \<and> ct_region t' = ct_done t @ vs"
  using assms
proof (induction "ct_todo t" arbitrary: t s r vs s1)
  case Nil
  have td: "ct_todo t = []" using Nil(1) by simp
  then have "cmos_step K (cmos_step K (t, s)) = (t\<lparr>ct_phase := AtEnd 0\<rparr>, portClose K h s)"
    using Nil(2) by (simp add: cmos_step_def)
  then show ?case using Nil(3) by (simp add: td ct_region_def)
next
  case (Cons b bs)
  let ?off = "ct_off t" and ?n = "2 * length bs + 2"
  have td: "ct_todo t = b # bs" using Cons.hyps(2) by simp
  have split: "(cmos_step K ^^ (2 * length (ct_todo t) + 2)) (t, s) =
      (cmos_step K ^^ ?n) (cmos_step K (cmos_step K (t, s)))"
    by (simp add: td funpow_swap1)
  obtain e i s2 where x: "portXfer K h (cmos_idxPort ?off) (cmos_idx ?off) True s = ((e, i), s2)" by (metis prod.collapse)
  have i: "cmos_step K (t, s) = (t\<lparr>ct_phase := (if e \<noteq> 0 then AtClose h e else AtData h)\<rparr>, s2)"
    using Cons.prems(1) x by (simp add: cmos_step_def td)
  show ?case
  proof (cases "e = 0")
    case False
    then have r: "r = e" "vs = b # bs" "s1 = s2" using Cons.prems(2) x by (simp_all add: td)
    have "cmos_step K (cmos_step K (t, s)) = (t\<lparr>ct_phase := AtEnd e\<rparr>, portClose K h s2)"
      using False by (simp add: i) (simp add: cmos_step_def)
    then show ?thesis unfolding split by (simp add: cmos_step_end r ct_region_def td)
  next
    case True
    obtain e2 v s3 where y: "portXfer K h (cmos_idxPort ?off + 1) b (ct_write t) s2 = ((e2, v), s3)" by (metis prod.collapse)
    let ?t = "t\<lparr>ct_off := ?off + 1, ct_todo := bs, ct_done := ct_done t @ [v], ct_phase := (if e2 \<noteq> 0 then AtClose h e2 else AtIndex h)\<rparr>"
    have two: "cmos_step K (cmos_step K (t, s)) = (?t, s3)"
      using True y by (simp add: i) (simp add: cmos_step_def td)
    show ?thesis
    proof (cases "e2 = 0")
      case False
      then have r: "r = e2" "vs = v # bs" "s1 = s3" using Cons.prems(2) x y True by (simp_all add: td)
      have "cmos_step K (?t, s3) = (?t\<lparr>ct_phase := AtEnd e2\<rparr>, portClose K h s3)"
        using False by (simp add: cmos_step_def)
      moreover have "(cmos_step K ^^ ?n) (?t, s3) = (cmos_step K ^^ (2 * length bs + 1)) (cmos_step K (?t, s3))"
        by (simp add: funpow_swap1)
      ultimately show ?thesis unfolding split two by (simp add: cmos_step_end r ct_region_def)
    next
      case e2: True
      obtain r' vs' s4 where z: "cmos_bytes K h (?off + 1) bs (ct_write t) s3 = ((r', vs'), s4)" by (metis prod.collapse)
      then have r: "r = r'" "vs = v # vs'" "s1 = s4" using Cons.prems(2) x y True e2 by (simp_all add: td)
      have "\<exists>t'. (cmos_step K ^^ (2 * length (ct_todo ?t) + 2)) (?t, s3) = (t', portClose K h s4) \<and>
          ct_phase t' = AtEnd r' \<and> ct_region t' = ct_done ?t @ vs'"
        using e2 z by (intro Cons.hyps(1)) simp_all
      then show ?thesis unfolding split two by (simp add: r)
    qed
  qed
qed

lemma cmos_steps_alone:
  assumes "length buf = unat len" and "cmosAccess K addr len buf w s = ((r, out), s1)"
  shows "\<exists>t'. (cmos_step K ^^ (2 * unat len + 3)) (cmos_call addr len buf w, s) = (t', s1) \<and>
    ct_phase t' = AtEnd r \<and> ct_region t' = out"
proof -
  let ?t = "cmos_call addr len buf w"
  have f: "ct_phase ?t = AtOpen" "ct_todo ?t = buf" "ct_done ?t = []" "ct_off ?t = ucast addr" "ct_write ?t = w"
    "ct_addr ?t = addr" "ct_len ?t = len"
    using assms(1) by (simp_all add: cmos_call_def)
  have split: "(cmos_step K ^^ (2 * unat len + 3)) (?t, s) = (cmos_step K ^^ (2 * length buf + 2)) (cmos_step K (?t, s))"
    by (simp add: assms(1) funpow_swap1 numeral_3_eq_3)
  have stop: "\<exists>t'. (cmos_step K ^^ (2 * unat len + 3)) (?t, s) = (t', s1) \<and> ct_phase t' = AtEnd r \<and> ct_region t' = out"
    if "cmos_step K (?t, s) = (?t\<lparr>ct_phase := AtEnd r\<rparr>, s1)" "out = buf"
    unfolding split that(1) using that(2) f by (simp add: cmos_step_end ct_region_def)
  show ?thesis
  proof (cases "ucast addr + len > FDK_CMOS_SIZE")
    case True
    then have e: "r = - 1" "out = buf" "s1 = s" using assms(2) by (simp_all add: cmosAccess_def)
    show ?thesis by (rule stop) (use True in \<open>simp_all add: cmos_step_def f e\<close>)
  next
    case False
    obtain ho s2 where op: "portOpen K FDK_CMOS_ADDR (ucast (FDK_CMOS_EXT_DATA - FDK_CMOS_ADDR + 1)) s = (ho, s2)" by fastforce
    show ?thesis
    proof (cases ho)
      case None
      then have e: "r = - 1" "out = buf" "s1 = s2" using assms(2) False op by (simp_all add: cmosAccess_def)
      show ?thesis by (rule stop) (use None False op in \<open>simp_all add: cmos_step_def f e\<close>)
    next
      case (Some h)
      let ?u = "?t\<lparr>ct_phase := AtIndex h\<rparr>"
      obtain r' vs s3 where b: "cmos_bytes K h (ct_off ?u) (ct_todo ?u) (ct_write ?u) s2 = ((r', vs), s3)" by (metis prod.collapse)
      have "length vs = length buf" using b f length_cmos_bytes [of K h "ct_off ?u" "ct_todo ?u" "ct_write ?u" s2] unfolding b by simp
      then have r: "r = r'" "out = vs" "s1 = portClose K h s3"
        using assms False op Some b f by (simp_all add: cmosAccess_def blit_full)
      have "cmos_step K (?t, s) = (?u, s2)" using False op Some by (simp add: cmos_step_def f)
      moreover have "ct_phase ?u = AtIndex h" by simp
      ultimately show ?thesis
        unfolding split using cmos_steps_bytes [OF _ b] f by (simp add: r)
    qed
  qed
qed


section \<open>Threads in different banks\<close>

text \<open>The accesses a thread still has to make stay in one bank.\<close>

definition keeps_to :: "bool \<Rightarrow> cmos_thread \<Rightarrow> bool" where
  "keeps_to b t \<longleftrightarrow> (\<forall>j < length (ct_todo t). cmos_bank (ct_off t + word_of_nat j) = b)"

text \<open>The handle is one for the instructions.\<close>

definition insn_handle :: "cmos_phase \<Rightarrow> bool" where
  "insn_handle p \<longleftrightarrow> (case p of AtIndex h \<Rightarrow> ph_fd h < 0 | AtData h \<Rightarrow> ph_fd h < 0 | AtClose h r \<Rightarrow> ph_fd h < 0 | _ \<Rightarrow> True)"

text \<open>A bank as a thread sees it: its cells and its index register.\<close>

definition same_bank ::
  "('w \<Rightarrow> nat \<Rightarrow> u8) \<Rightarrow> ('w \<Rightarrow> bool \<Rightarrow> u8) \<Rightarrow> bool \<Rightarrow> 'w sys \<Rightarrow> 'w sys \<Rightarrow> bool" where
  "same_bank nv ix b s s' \<longleftrightarrow>
     (\<forall>i. nv (env s) (cmos_cell b i) = nv (env s') (cmos_cell b i)) \<and> ix (env s) b = ix (env s') b"

lemma same_bank_refl [simp]: "same_bank nv ix b s s"
  by (simp add: same_bank_def)

lemma same_bank_trans: "same_bank nv ix b s s1 \<Longrightarrow> same_bank nv ix b s1 s2 \<Longrightarrow> same_bank nv ix b s s2"
  by (simp add: same_bank_def)

lemma same_bank_sym: "same_bank nv ix b s s' \<Longrightarrow> same_bank nv ix b s' s"
  by (simp add: same_bank_def)

lemma cmos_cell_banks: "cmos_cell b i = cmos_cell c j \<Longrightarrow> b = c"
proof -
  have "unat i mod 128 \<noteq> 128 + unat j mod 128" for i j :: u8 by (metis mod_less_divisor not_add_less1 zero_less_numeral)
  then show "cmos_cell b i = cmos_cell c j \<Longrightarrow> b = c"
    by (cases b; cases c) (auto simp: cmos_cell_def dest: sym)
qed

lemma cmos_cell_ne [simp]: "cmos_cell True i \<noteq> cmos_cell False j" "cmos_cell False i \<noteq> cmos_cell True j"
  using cmos_cell_banks by blast+

lemma keeps_to_next:
  assumes "keeps_to b t" and "ct_todo t = x # xs"
  shows "cmos_bank (ct_off t) = b" "\<forall>j < length xs. cmos_bank (ct_off t + 1 + word_of_nat j) = b"
proof -
  show "cmos_bank (ct_off t) = b" using assms by (auto simp: keeps_to_def dest: spec [of _ 0])
  show "\<forall>j < length xs. cmos_bank (ct_off t + 1 + word_of_nat j) = b"
  proof (intro allI impI)
    fix j assume "j < length xs"
    then have "cmos_bank (ct_off t + word_of_nat (Suc j)) = b" using assms unfolding keeps_to_def by fastforce
    then show "cmos_bank (ct_off t + 1 + word_of_nat j) = b" by (simp add: add.assoc)
  qed
qed

lemma close_same_bank:
  assumes "cmos_chip K nv ix" and "ph_fd h < 0"
  shows "same_bank nv ix b s (portClose K h s)"
  using assms(2) chip_calls [OF assms(1)] by (simp add: portClose_def same_bank_def)

text \<open>The transfers of a thread in bank \<open>b\<close>.\<close>

lemma chip_steps:
  assumes "cmos_chip K nv ix" and "ph_fd h < 0"
  shows "ct_phase t = AtIndex h \<Longrightarrow> ct_todo t = [] \<Longrightarrow> cmos_step K (t, s) = (t\<lparr>ct_phase := AtClose h 0\<rparr>, s)"
    "ct_phase t = AtIndex h \<Longrightarrow> ct_todo t = x # xs \<Longrightarrow> cmos_bank (ct_off t) = b \<Longrightarrow>
      cmos_step K (t, s) = (t\<lparr>ct_phase := AtData h\<rparr>, sys_outb K (cmos_idx (ct_off t)) (bank_port b) s)"
    "ct_phase t = AtData h \<Longrightarrow> ct_todo t = [] \<Longrightarrow> cmos_step K (t, s) = (t, s)"
    "ct_phase t = AtData h \<Longrightarrow> ct_todo t = x # xs \<Longrightarrow> cmos_bank (ct_off t) = b \<Longrightarrow>
      cmos_step K (t, s) =
        (t\<lparr>ct_off := ct_off t + 1, ct_todo := xs, ct_phase := AtIndex h,
           ct_done := ct_done t @ [if ct_write t then x else nv (env s) (cmos_cell b (ix (env s) b))]\<rparr>,
         if ct_write t then sys_outb K x (bank_port b + 1) s else snd (sys_inb K (bank_port b + 1) s))"
    "ct_phase t = AtClose h r \<Longrightarrow> cmos_step K (t, s) = (t\<lparr>ct_phase := AtEnd r\<rparr>, portClose K h s)"
  by (simp_all add: cmos_step_def portXfer_insn [OF assms] cmos_idxPort_bank chip_calls [OF assms(1)])

text \<open>A step in one bank does not change the other, and keeps the thread as it is required to be.\<close>

lemma cmos_step_frame:
  assumes chip: "cmos_chip K nv ix" and "keeps_to b t" and "insn_handle (ct_phase t)"
    and "cmos_step K (t, s) = (t', s')"
  shows "keeps_to b t' \<and> insn_handle (ct_phase t') \<and> same_bank nv ix (\<not> b) s s'"
proof -
  note calls = chip_calls [OF chip]
  show ?thesis
  proof (cases "ct_phase t")
    case AtOpen
    obtain s1 where "portOpen K FDK_CMOS_ADDR (ucast (FDK_CMOS_EXT_DATA - FDK_CMOS_ADDR + 1)) s =
        (Some \<lparr>ph_fd = - 1, ph_insn = True, ph_port = FDK_CMOS_ADDR, ph_len = ucast (FDK_CMOS_EXT_DATA - FDK_CMOS_ADDR + 1)\<rparr>, s1)"
      "nv (env s1) = nv (env s)" "ix (env s1) = ix (env s)"
      using cmos_open [OF chip cmos_port_range] by blast
    then show ?thesis
      using assms(2,4) AtOpen by (auto simp: cmos_step_def keeps_to_def insn_handle_def same_bank_def split: if_splits)
  next
    case (AtIndex h)
    then have h: "ph_fd h < 0" using assms(3) by (simp add: insn_handle_def)
    note step = chip_steps [OF chip h, where t = t and s = s]
    show ?thesis
      using assms(2,4) AtIndex step(1,2) keeps_to_next(1) [OF assms(2)] h
      by (cases "ct_todo t") (auto simp: keeps_to_def insn_handle_def same_bank_def calls)
  next
    case (AtData h)
    then have h: "ph_fd h < 0" using assms(3) by (simp add: insn_handle_def)
    note step = chip_steps [OF chip h, where t = t and s = s]
    show ?thesis
      using assms(2-4) AtData step(3,4) keeps_to_next [OF assms(2)] h
      by (cases "ct_todo t") (auto simp: keeps_to_def insn_handle_def same_bank_def calls)
  next
    case (AtClose h r)
    then have "ph_fd h < 0" using assms(3) by (simp add: insn_handle_def)
    then show ?thesis
      using assms(2,4) AtClose close_same_bank [OF chip] by (auto simp: cmos_step_def keeps_to_def insn_handle_def)
  next
    case (AtEnd r)
    then show ?thesis using assms(2-4) by simp
  qed
qed

text \<open>A step depends on its own bank only.\<close>

lemma cmos_step_local:
  assumes chip: "cmos_chip K nv ix" and "keeps_to b t" and "insn_handle (ct_phase t)"
    and same: "same_bank nv ix b s u"
  shows "fst (cmos_step K (t, s)) = fst (cmos_step K (t, u)) \<and>
    same_bank nv ix b (snd (cmos_step K (t, s))) (snd (cmos_step K (t, u)))"
proof -
  note calls = chip_calls [OF chip]
  have cells: "\<And>i. nv (env s) (cmos_cell b i) = nv (env u) (cmos_cell b i)" "ix (env s) b = ix (env u) b"
    using same by (simp_all add: same_bank_def)
  show ?thesis
  proof (cases "ct_phase t")
    case AtOpen
    note op = cmos_open [OF chip cmos_port_range]
    obtain s1 where "portOpen K FDK_CMOS_ADDR (ucast (FDK_CMOS_EXT_DATA - FDK_CMOS_ADDR + 1)) s =
        (Some \<lparr>ph_fd = - 1, ph_insn = True, ph_port = FDK_CMOS_ADDR, ph_len = ucast (FDK_CMOS_EXT_DATA - FDK_CMOS_ADDR + 1)\<rparr>, s1)"
      "nv (env s1) = nv (env s)" "ix (env s1) = ix (env s)" using op by blast
    moreover obtain u1 where "portOpen K FDK_CMOS_ADDR (ucast (FDK_CMOS_EXT_DATA - FDK_CMOS_ADDR + 1)) u =
        (Some \<lparr>ph_fd = - 1, ph_insn = True, ph_port = FDK_CMOS_ADDR, ph_len = ucast (FDK_CMOS_EXT_DATA - FDK_CMOS_ADDR + 1)\<rparr>, u1)"
      "nv (env u1) = nv (env u)" "ix (env u1) = ix (env u)" using op by blast
    ultimately show ?thesis using AtOpen cells by (simp add: cmos_step_def same_bank_def)
  next
    case (AtIndex h)
    then have h: "ph_fd h < 0" using assms(3) by (simp add: insn_handle_def)
    show ?thesis
      using AtIndex chip_steps(1,2) [OF chip h, where t = t] keeps_to_next(1) [OF assms(2)] cells same
      by (cases "ct_todo t") (simp_all add: same_bank_def calls)
  next
    case (AtData h)
    then have h: "ph_fd h < 0" using assms(3) by (simp add: insn_handle_def)
    show ?thesis
      using AtData chip_steps(3,4) [OF chip h, where t = t] keeps_to_next(1) [OF assms(2)] cells same
      by (cases "ct_todo t") (simp_all add: same_bank_def calls)
  next
    case (AtClose h r)
    then have "ph_fd h < 0" using assms(3) by (simp add: insn_handle_def)
    then have "same_bank nv ix b s (portClose K h s)" "same_bank nv ix b u (portClose K h u)"
      using close_same_bank [OF chip] by blast+
    then show ?thesis using AtClose same by (auto simp: cmos_step_def same_bank_def)
  next
    case (AtEnd r)
    then show ?thesis using same by simp
  qed
qed


type_synonym cmos_args = "u8 \<times> u32 \<times> u8 list \<times> bool"

definition cmos_thread_of :: "cmos_args \<Rightarrow> cmos_thread" where
  "cmos_thread_of c = (case c of (addr, len, buf, w) \<Rightarrow> cmos_call addr len buf w)"

text \<open>The other threads use the other bank: thread \<open>k\<close> is where it would be if it ran alone.\<close>

definition as_alone ::
  "'w os \<Rightarrow> ('w \<Rightarrow> nat \<Rightarrow> u8) \<Rightarrow> ('w \<Rightarrow> bool \<Rightarrow> u8) \<Rightarrow> bool \<Rightarrow> nat \<Rightarrow> cmos_thread \<times> 'w sys \<Rightarrow> cmos_thread list \<times> 'w sys \<Rightarrow> bool" where
  "as_alone K nv ix b k x y \<longleftrightarrow>
     (\<forall>i < length (fst y). insn_handle (ct_phase (fst y ! i)) \<and> keeps_to (if i = k then b else \<not> b) (fst y ! i)) \<and>
     (\<exists>n t u. (cmos_step K ^^ n) x = (t, u) \<and> fst y ! k = t \<and> same_bank nv ix b (snd y) u)"

lemma as_alone_turn:
  assumes chip: "cmos_chip K nv ix" and "k < length (fst y)" and "as_alone K nv ix b k x y"
  shows "as_alone K nv ix b k x (cmos_turn K i y)"
proof (cases "i < length (fst y)")
  case False
  then show ?thesis using assms(3) by (simp add: cmos_turn_def split_def)
next
  case True
  obtain ts s where y: "y = (ts, s)" by fastforce
  obtain t s1 where st: "cmos_step K (ts ! i, s) = (t, s1)" by fastforce
  have turn: "cmos_turn K i y = (ts[i := t], s1)" using True st by (simp add: cmos_turn_def y)
  have inv: "\<forall>j < length ts. insn_handle (ct_phase (ts ! j)) \<and> keeps_to (if j = k then b else \<not> b) (ts ! j)"
    using assms(3) by (simp add: as_alone_def y)
  obtain n u v where al: "(cmos_step K ^^ n) x = (u, v)" "ts ! k = u" "same_bank nv ix b s v"
    using assms(3) by (auto simp: as_alone_def y)
  have fr: "keeps_to (if i = k then b else \<not> b) t \<and> insn_handle (ct_phase t) \<and>
      same_bank nv ix (\<not> (if i = k then b else \<not> b)) s s1"
    using inv True y by (intro cmos_step_frame [OF chip _ _ st]) simp_all
  have keep: "\<forall>j < length (ts[i := t]). insn_handle (ct_phase (ts[i := t] ! j)) \<and>
      keeps_to (if j = k then b else \<not> b) (ts[i := t] ! j)"
  proof (intro allI impI)
    fix j assume "j < length (ts[i := t])"
    then show "insn_handle (ct_phase (ts[i := t] ! j)) \<and> keeps_to (if j = k then b else \<not> b) (ts[i := t] ! j)"
    proof (cases "i = j")
      case True
      then show ?thesis using fr \<open>j < length (ts[i := t])\<close> by (auto simp only: nth_list_update_eq length_list_update)
    next
      case False
      then have same: "ts[i := t] ! j = ts ! j" by simp
      have "j < length ts" using \<open>j < length (ts[i := t])\<close> by simp
      from inv [rule_format, OF this] show ?thesis unfolding same .
    qed
  qed
  show ?thesis
  proof (cases "i = k")
    case False
    then have "same_bank nv ix b s s1" using fr by simp
    then have "same_bank nv ix b s1 v" using al(3) same_bank_trans same_bank_sym by blast
    moreover have "ts[i := t] ! k = u" using al(2) False by simp
    ultimately show ?thesis using keep al(1) unfolding as_alone_def turn fst_conv snd_conv by blast
  next
    case ik: True
    have "keeps_to b (ts ! k)" "insn_handle (ct_phase (ts ! k))" using inv True ik y by auto
    from cmos_step_local [OF chip this al(3)]
    have "fst (cmos_step K (u, v)) = t" "same_bank nv ix b s1 (snd (cmos_step K (u, v)))"
      using st ik al(2) by simp_all
    moreover have "(cmos_step K ^^ Suc n) x = cmos_step K (u, v)" by (simp add: al(1))
    ultimately have "(cmos_step K ^^ Suc n) x = (t, snd (cmos_step K (u, v)))" "same_bank nv ix b s1 (snd (cmos_step K (u, v)))"
      by (simp_all add: prod_eq_iff)
    moreover have "ts[i := t] ! k = t" using ik True y by simp
    ultimately show ?thesis using keep unfolding as_alone_def turn fst_conv snd_conv by blast
  qed
qed

lemma length_cmos_turn [simp]: "length (fst (cmos_turn K i y)) = length (fst y)"
  by (simp add: cmos_turn_def split_def Let_def)

lemma interleaved_alone:
  assumes "interleaved K x y" and "cmos_chip K nv ix" and "k < length (fst x)"
    and "\<forall>i < length (fst x). insn_handle (ct_phase (fst x ! i)) \<and> keeps_to (if i = k then b else \<not> b) (fst x ! i)"
  shows "as_alone K nv ix b k (fst x ! k, snd x) y \<and> length (fst y) = length (fst x)"
  using assms(1)
proof (induction rule: interleaved.induct)
  case interleaved_start
  show ?case using assms(4) by (auto simp: as_alone_def intro!: exI [of _ 0])
next
  case (interleaved_turn y i)
  then show ?case using as_alone_turn [OF assms(2)] assms(3) by simp
qed

section \<open>Properties\<close>

text \<open>
  C12: CMOS accesses of concurrent connections do not disturb each other as long as they use different
  banks. Whatever the order of the steps, an access returns what it would return alone, and leaves the
  same cells in its bank, if every other thread keeps to the other bank.
\<close>

theorem cmos_banks_do_not_interfere:
  assumes "cmos_chip K nv ix" and "interleaved K (map cmos_thread_of cs, s) (ts, s')"
    and "k < length cs" and "cs ! k = (addr, len, buf, w)" and "length buf = unat len"
    and "\<forall>i < length cs. keeps_to (if i = k then b else \<not> b) (cmos_thread_of (cs ! i))"
    and "ct_phase (ts ! k) = AtEnd r"
  shows "\<exists>s1. cmosAccess K addr len buf w s = ((r, ct_region (ts ! k)), s1) \<and> same_bank nv ix b s' s1"
proof -
  let ?x = "(map cmos_thread_of cs, s)" and ?t = "cmos_call addr len buf w"
  have k: "fst ?x ! k = ?t" using assms(3,4) by (simp add: cmos_thread_of_def)
  have "insn_handle (ct_phase (cmos_thread_of c))" for c
    by (cases c) (simp add: cmos_thread_of_def cmos_call_def insn_handle_def)
  then have "\<forall>i < length (fst ?x). insn_handle (ct_phase (fst ?x ! i)) \<and> keeps_to (if i = k then b else \<not> b) (fst ?x ! i)"
    using assms(6) by simp
  from interleaved_alone [OF assms(2,1) _ this] obtain n u where n: "(cmos_step K ^^ n) (?t, s) = (ts ! k, u)"
    and same: "same_bank nv ix b s' u"
    using assms(3) unfolding k by (auto simp: as_alone_def)
  obtain r' out s1 where a: "cmosAccess K addr len buf w s = ((r', out), s1)" by (metis prod.collapse)
  obtain t' where t': "(cmos_step K ^^ (2 * unat len + 3)) (?t, s) = (t', s1)" "ct_phase t' = AtEnd r'" "ct_region t' = out"
    using cmos_steps_alone [OF assms(5) a] by blast
  let ?m = "2 * unat len + 3"
  have "(cmos_step K ^^ (?m + n)) (?t, s) = (cmos_step K ^^ ?m) ((cmos_step K ^^ n) (?t, s))"
    "(cmos_step K ^^ (n + ?m)) (?t, s) = (cmos_step K ^^ n) ((cmos_step K ^^ ?m) (?t, s))"
    by (simp_all only: funpow_add o_apply)
  then have "(ts ! k, u) = (t', s1)"
    unfolding n t'(1) cmos_step_end [OF assms(7)] cmos_step_end [OF t'(2)] by (simp add: add.commute)
  then show ?thesis using a t'(2,3) assms(7) same by auto
qed

definition sim_accesses :: "cmos_args list" where
  "sim_accesses = [(0x10, 1, [0], False), (0x90, 1, [7], True)]"

definition sim_order :: "nat list" where
  "sim_order = [0, 1, 0, 1, 1, 0, 0, 1, 0, 1]"

theorem cmos_banks_do_not_interfere_witness:
  "\<exists>s1. cmosAccess sim_os 0x10 1 [0] False sim_start = ((0, [0x10]), s1)"
proof -
  let ?y = "cmos_schedule sim_os sim_order (map cmos_thread_of sim_accesses, sim_start)"
  have run: "ct_phase (fst ?y ! 0) = AtEnd 0" "ct_region (fst ?y ! 0) = [0x10]"
    by (simp_all add: cmos_schedule_def cmos_turn_def cmos_step_def cmos_thread_of_def cmos_call_def sim_accesses_def sim_order_def
        ct_region_def portOpen_def portXfer_def portClose_def sys_defs sim_defs cmos_consts FDK_PORT_SPACE_def FDK_PORT_DEV_def
        cmos_idxPort_def cmos_idx_def)
  have int: "interleaved sim_os (map cmos_thread_of sim_accesses, sim_start) (fst ?y, snd ?y)"
    using interleaved_schedule by simp
  have keep: "\<forall>i < length sim_accesses. keeps_to (if i = 0 then False else \<not> False) (cmos_thread_of (sim_accesses ! i))"
    by (auto simp: sim_accesses_def keeps_to_def cmos_thread_of_def cmos_call_def cmos_bank_def cmos_consts less_Suc_eq)
  show ?thesis
    using cmos_banks_do_not_interfere [OF sim_cmos_chip int _ _ _ keep run(1)] run(2) by (auto simp: sim_accesses_def)
qed

text \<open>
  C14: nothing keeps two connections in one bank apart. For any two cells of a bank there is an order of
  the steps in which a connection that writes the first cell, while another reads the second, is told
  that it succeeded, has written its byte to the second cell, and has left the first as it was: the
  reader selects its cell between the index and the data write of the writer.
\<close>

theorem cmos_write_lands_elsewhere:
  assumes "cmos_chip K nv ix" and "cmos_bank (ucast x) = cmos_bank (ucast y)"
  shows "\<exists>ts s'. interleaved K ([cmos_call x 1 [v] True, cmos_call y 1 [u] False], s) (ts, s') \<and>
    ct_phase (ts ! 0) = AtEnd 0 \<and> nv (env s') = (nv (env s))(unat y := v)"
proof -
  let ?b = "cmos_bank (ucast y)" and ?p = "FDK_CMOS_ADDR" and ?n = "ucast (FDK_CMOS_EXT_DATA - FDK_CMOS_ADDR + 1) :: u32"
  let ?h = "\<lparr>ph_fd = - 1, ph_insn = True, ph_port = ?p, ph_len = ?n\<rparr>"
  let ?A = "cmos_call x 1 [v] True" and ?B = "cmos_call y 1 [u] False"
  note chip = assms(1)
  have h: "ph_fd ?h < 0" by simp
  note step = chip_steps [OF chip h] and calls = chip_calls [OF chip]
  have f: "ct_phase (cmos_call a 1 [z] w) = AtOpen" "ct_todo (cmos_call a 1 [z] w) = [z]" "ct_off (cmos_call a 1 [z] w) = ucast a"
    "ct_write (cmos_call a 1 [z] w) = w" "ct_addr (cmos_call a 1 [z] w) = a" "ct_len (cmos_call a 1 [z] w) = 1" for a z w
    by (simp_all add: cmos_call_def)
  have open': "\<exists>s1. cmos_step K (cmos_call a 1 [z] w, s0) = ((cmos_call a 1 [z] w)\<lparr>ct_phase := AtIndex ?h\<rparr>, s1) \<and>
      nv (env s1) = nv (env s0) \<and> ix (env s1) = ix (env s0)" for a z w s0
  proof -
    have "unat a + unat (1 :: u32) \<le> 256" using unsigned_less [of a, where ?'a = nat] by simp
    from cmos_size_check [OF this] cmos_open [OF chip cmos_port_range, of s0] show ?thesis
      by (auto simp: cmos_step_def f leD)
  qed
  obtain s1 where s1: "cmos_step K (?A, s) = (?A\<lparr>ct_phase := AtIndex ?h\<rparr>, s1)" "nv (env s1) = nv (env s)"
    using open' by blast
  obtain s2 where s2: "cmos_step K (?B, s1) = (?B\<lparr>ct_phase := AtIndex ?h\<rparr>, s2)" "nv (env s2) = nv (env s1)"
    using open' by blast
  let ?s4 = "sys_outb K (cmos_idx (ucast y)) (bank_port ?b) (sys_outb K (cmos_idx (ucast x)) (bank_port ?b) s2)"
  let ?s5 = "sys_outb K v (bank_port ?b + 1) ?s4"
  let ?A1 = "?A\<lparr>ct_phase := AtIndex ?h\<rparr>" and ?B1 = "?B\<lparr>ct_phase := AtIndex ?h\<rparr>"
  let ?A2 = "?A\<lparr>ct_off := ucast x + 1, ct_todo := [], ct_done := [v], ct_phase := AtEnd 0\<rparr>"
  have "cmos_schedule K [0, 1, 0, 1, 0, 0, 0] ([?A, ?B], s) = ([?A2, ?B\<lparr>ct_phase := AtData ?h\<rparr>], portClose K ?h ?s5)"
    using s1(1) s2(1) assms(2)
    by (simp add: cmos_schedule_def cmos_turn_def step f) (simp add: cmos_call_def)
  moreover have "nv (env (portClose K ?h ?s5)) = (nv (env s))(unat y := v)"
  proof -
    have y: "unat y < 256" using unsigned_less [of y, where ?'a = nat] by simp
    moreover have "unat (ucast y :: u32) = unat y" using y by (simp add: unsigned_ucast_eq take_bit_nat_eq_self_iff)
    ultimately have "cmos_cell ?b (cmos_idx (ucast y)) = unat y" using cmos_cell_offset [of "ucast y"] by simp
    then show ?thesis by (simp add: portClose_def calls s1(2) s2(2))
  qed
  ultimately show ?thesis
    using interleaved_schedule [of K "([?A, ?B], s)" "[0, 1, 0, 1, 0, 0, 0]"]
    by (intro exI [of _ "[?A2, ?B\<lparr>ct_phase := AtData ?h\<rparr>]"] exI [of _ "portClose K ?h ?s5"]) simp
qed

theorem cmos_write_lands_elsewhere_witness:
  "\<exists>ts s'. interleaved sim_os ([cmos_call 0x10 1 [0xAA] True, cmos_call 0x20 1 [0] False], sim_start) (ts, s') \<and>
     ct_phase (ts ! 0) = AtEnd 0 \<and> sim_nvram (env s') 0x10 = 0x10 \<and> sim_nvram (env s') 0x20 = 0xAA"
proof -
  have "cmos_bank (ucast (0x10 :: u8)) = cmos_bank (ucast (0x20 :: u8))" by (simp add: cmos_bank_def cmos_consts)
  from cmos_write_lands_elsewhere [OF sim_cmos_chip this, of "0xAA" 0 sim_start] show ?thesis
    by (fastforce simp: sim_start_def sim0_def)
qed

end
