(* ===== verification/Phys_Memory.thy ===== *)
theory Phys_Memory
  imports Lib_Mem
begin

text \<open>
  What the memory back-end computes when \<open>/dev/mem\<close> maps physical memory: the contract of the
  kernel is the hypothesis \<open>maps_memory\<close>, and the results are the contents of memory.
\<close>

section \<open>Physical memory\<close>

text \<open>
  What \<open>mmap\<close> of \<open>/dev/mem\<close> and ordinary memory promise: a new mapping translates its addresses to
  the physical range it was asked for, a byte load through a translated address gives the memory
  byte there, a byte store changes that byte only, and unmapping changes no memory. \<open>phys\<close> is the
  memory of an environment and \<open>vm\<close> its translation.
\<close>

definition maps_memory :: "'w os \<Rightarrow> ('w \<Rightarrow> u64 \<Rightarrow> u8) \<Rightarrow> ('w \<Rightarrow> u64 \<Rightarrow> u64 option) \<Rightarrow> bool" where
  "maps_memory K phys vm \<longleftrightarrow>
     (\<exists>k \<le> 31. os_page_size K = 2 ^ k) \<and>
     (\<forall>fd len base e p e'. os_mmap K fd len base e = (Some p, e') \<longrightarrow> phys e' = phys e \<and>
        (\<forall>i. i < unat len \<longrightarrow> vm e' (p + word_of_nat i) = Some (base + word_of_nat i))) \<and>
     (\<forall>q a e v e'. vm e q = Some a \<longrightarrow> os_load K 1 q e = (v, e') \<longrightarrow>
        v = ucast (phys e a) \<and> phys e' = phys e \<and> vm e' = vm e) \<and>
     (\<forall>q a v e. vm e q = Some a \<longrightarrow>
        phys (os_store K 1 q v e) = (phys e)(a := ucast v) \<and> vm (os_store K 1 q v e) = vm e) \<and>
     (\<forall>p len e. phys (os_munmap K p len e) = phys e)"

text \<open>The request can be mapped.\<close>

definition mappable :: "'w os \<Rightarrow> s32 \<Rightarrow> u64 \<Rightarrow> u32 \<Rightarrow> 'w sys \<Rightarrow> bool" where
  "mappable K fd addr len s \<longleftrightarrow> fst (mapRange K fd addr len s) \<noteq> None"

text \<open>Every request can be mapped.\<close>

definition mapped_machine ::
  "'w os \<Rightarrow> ('w \<Rightarrow> u64 \<Rightarrow> u8) \<Rightarrow> ('w \<Rightarrow> u64 \<Rightarrow> u64 option) \<Rightarrow> s32 \<Rightarrow> bool" where
  "mapped_machine K phys vm memfd \<longleftrightarrow>
     maps_memory K phys vm \<and> (\<forall>a n s. 0 < n \<longrightarrow> mappable K memfd a n s)"

definition phys_bytes :: "(u64 \<Rightarrow> u8) \<Rightarrow> u64 \<Rightarrow> nat \<Rightarrow> u8 list" where
  "phys_bytes m a n = map (\<lambda>i. m (a + word_of_nat i)) [0..<n]"

fun phys_store :: "(u64 \<Rightarrow> u8) \<Rightarrow> u64 \<Rightarrow> u8 list \<Rightarrow> (u64 \<Rightarrow> u8)" where
  "phys_store m a [] = m"
| "phys_store m a (b # bs) = phys_store (m(a := b)) (a + 1) bs"

lemma phys_bytes_Suc: "phys_bytes m a (Suc n) = m a # phys_bytes m (a + 1) n"
  by (simp add: phys_bytes_def upt_conv_Cons map_Suc_upt [symmetric] add.assoc del: upt_Suc)

lemma shift_range:
  assumes "\<forall>i < Suc n. f (p + word_of_nat i) = g (a + word_of_nat i)"
  shows "f (p :: u64) = g (a :: u64)" "\<forall>i < n. f (p + 1 + word_of_nat i) = g (a + 1 + word_of_nat i)"
proof -
  show "f p = g a" using spec [OF assms, of 0] by simp
  show "\<forall>i < n. f (p + 1 + word_of_nat i) = g (a + 1 + word_of_nat i)"
  proof (intro allI impI)
    fix i assume "i < n"
    then have "f (p + word_of_nat (Suc i)) = g (a + word_of_nat (Suc i))"
      using assms by blast
    then show "f (p + 1 + word_of_nat i) = g (a + 1 + word_of_nat i)"
      by (simp add: add.assoc)
  qed
qed

lemma load_bytes_phys:
  assumes "maps_memory K phys vm"
    and "\<forall>i < n. vm (env s) (p + word_of_nat i) = Some (a + word_of_nat i)"
  shows "fst (load_bytes K p n s) = phys_bytes (phys (env s)) a n \<and>
    phys (env (snd (load_bytes K p n s))) = phys (env s)"
  using assms(2)
proof (induction n arbitrary: p a s)
  case 0
  show ?case by (simp add: phys_bytes_def)
next
  case (Suc n)
  note sh = shift_range [OF Suc.prems]
  obtain v e1 where ld: "os_load K 1 p (env s) = (v, e1)" by fastforce
  with assms(1) sh(1) have e1: "v = ucast (phys (env s) a)" "phys e1 = phys (env s)" "vm e1 = vm (env s)"
    unfolding maps_memory_def by blast+
  let ?s1 = "\<lparr>env = e1, log = log s @ [EvLoad 1 p]\<rparr>"
  have "fst (load_bytes K (p + 1) n ?s1) = phys_bytes (phys (env ?s1)) (a + 1) n \<and>
    phys (env (snd (load_bytes K (p + 1) n ?s1))) = phys (env ?s1)"
    using sh(2) e1(3) by (intro Suc.IH) simp
  with ld e1 show ?case
    by (simp add: sys_load_def split_def Let_def phys_bytes_Suc)
qed

lemma store_bytes_phys:
  assumes "maps_memory K phys vm"
    and "\<forall>i < length bs. vm (env s) (p + word_of_nat i) = Some (a + word_of_nat i)"
  shows "phys (env (store_bytes K p bs s)) = phys_store (phys (env s)) a bs"
  using assms(2)
proof (induction bs arbitrary: p a s)
  case Nil
  show ?case by simp
next
  case (Cons b bs)
  note sh = shift_range [OF Cons.prems [simplified length_Cons]]
  let ?e1 = "os_store K 1 p (ucast b) (env s)"
  have e1: "phys ?e1 = (phys (env s))(a := b)" "vm ?e1 = vm (env s)"
    using assms(1) sh(1) unfolding maps_memory_def by (auto simp del: One_nat_def)
  have "phys (env (store_bytes K (p + 1) bs \<lparr>env = ?e1, log = log s @ [EvStore 1 p (ucast b)]\<rparr>)) =
    phys_store (phys ?e1) (a + 1) bs"
    using sh(2) e1(2) by (subst Cons.IH [of _ _ "a + 1"]) simp_all
  with e1 show ?case by (simp add: sys_store_def)
qed

lemma mapped_range:
  assumes K: "maps_memory K phys vm" and m: "mapRange K fd addr len s = (Some m, s1)"
  shows "phys (env s1) = phys (env s) \<and>
    (\<forall>i < unat len. vm (env s1) (mm_ptr m + word_of_nat i) = Some (addr + word_of_nat i))"
proof -
  from K obtain k where k: "k \<le> 31" "os_page_size K = 2 ^ k" unfolding maps_memory_def by blast
  let ?base = "map_base (2 ^ k) addr"
  have "os_mmap K fd (mm_mapLen m) ?base (env s) = (Some (mm_map m), env s1)"
    using m k by (auto simp: mapRange_def sys_mmap_def Let_def split: if_splits prod.splits option.splits)
  with K have ph: "phys (env s1) = phys (env s)"
    and tr: "\<And>i. i < unat (mm_mapLen m) \<Longrightarrow> vm (env s1) (mm_map m + word_of_nat i) = Some (?base + word_of_nat i)"
    unfolding maps_memory_def by blast+
  have cover: "unat (addr - ?base) + unat len \<le> unat (mm_mapLen m)"
    using page_cover(1) [OF k(1)] mapRange_Some(4) [OF m] k(2) by simp
  have "vm (env s1) (mm_ptr m + word_of_nat i) = Some (addr + word_of_nat i)" if "i < unat len" for i
    using tr [of "unat (addr - ?base) + i"] that cover mapRange_Some(5) [OF m] k(2)
    by (simp add: add.assoc)
  with ph show ?thesis by blast
qed

lemma memReadBuffer_reads:
  assumes "maps_memory K phys vm" and "mappable K fd addr len s" and "length buf = unat len"
  shows "fst (memReadBuffer K fd addr len buf s) = (0, phys_bytes (phys (env s)) addr (unat len)) \<and>
    phys (env (snd (memReadBuffer K fd addr len buf s))) = phys (env s)"
proof -
  from assms(2) obtain m s1 where m: "mapRange K fd addr len s = (Some m, s1)"
    by (metis mappable_def not_None_eq prod.collapse)
  from mapped_range [OF assms(1) m] have ph: "phys (env s1) = phys (env s)"
    and tr: "\<forall>i < unat len. vm (env s1) (mm_ptr m + word_of_nat i) = Some (addr + word_of_nat i)"
    by blast+
  have "phys (env (unmapRange K m s2)) = phys (env s2)" for s2
    using assms(1) unfolding maps_memory_def by (simp add: unmapRange_def sys_munmap_def)
  with load_bytes_phys [OF assms(1) tr] ph show ?thesis
    using assms(3) length_load_bytes [of K "mm_ptr m" "unat len" s1]
    by (simp add: memReadBuffer_def m split_def blit_full phys_bytes_def)
qed

text \<open>
  On memory that can be mapped, \<open>memReadBuffer\<close> succeeds and returns exactly the \<open>len\<close> bytes of
  physical memory at \<open>addr\<close>, and changes none: the page rounding, the offset into the mapping and
  the byte loop fit together.
\<close>

theorem memReadBuffer_phys:
  assumes "maps_memory K phys vm" and "mappable K fd addr len s" and "length buf = unat len"
  shows "fst (memReadBuffer K fd addr len buf s) = (0, phys_bytes (phys (env s)) addr (unat len)) \<and>
    phys (env (snd (memReadBuffer K fd addr len buf s))) = phys (env s)"
  by (rule memReadBuffer_reads [OF assms])

lemma sim_maps_memory: "maps_memory sim_os sim_mem (\<lambda>e q. Some q)"
  unfolding maps_memory_def
  by (auto simp: fun_eq_iff intro!: exI [of _ 12])

lemma sim_mappable: "0 < len \<Longrightarrow> mappable sim_os 3 addr len s"
  by (simp add: mappable_def mapRange_def Let_def sys_mmap_def word_gt_0)

lemma sim_mapped: "mapped_machine sim_os sim_mem (\<lambda>e q. Some q) 3"
  using sim_maps_memory sim_mappable by (simp add: mapped_machine_def)

theorem memReadBuffer_phys_witness:
  "fst (memReadBuffer sim_os 3 0xFFE 3 [0, 0, 0] sim_start) = (0, [0xFE, 0xFF, 0x00])"
proof -
  have "fst (memReadBuffer sim_os 3 0xFFE 3 [0, 0, 0] sim_start) =
      (0, phys_bytes (sim_mem (env sim_start)) 0xFFE (unat (3 :: u32)))"
    using memReadBuffer_phys [OF sim_maps_memory sim_mappable, of 3 "[0, 0, 0]" "0xFFE" sim_start]
    by simp
  then show ?thesis by (simp add: phys_bytes_def sim_defs upt_rec)
qed

lemma memWriteBuffer_phys:
  assumes "maps_memory K phys vm" and "mappable K fd addr len s" and "length buf = unat len"
  shows "fst (memWriteBuffer K fd addr len buf s) = 0 \<and>
    phys (env (snd (memWriteBuffer K fd addr len buf s))) = phys_store (phys (env s)) addr buf"
proof -
  from assms(2) obtain m s1 where m: "mapRange K fd addr len s = (Some m, s1)"
    by (metis mappable_def not_None_eq prod.collapse)
  from mapped_range [OF assms(1) m] have ph: "phys (env s1) = phys (env s)"
    and tr: "\<forall>i < length buf. vm (env s1) (mm_ptr m + word_of_nat i) = Some (addr + word_of_nat i)"
    using assms(3) by auto
  have "phys (env (unmapRange K m s2)) = phys (env s2)" for s2
    using assms(1) unfolding maps_memory_def by (simp add: unmapRange_def sys_munmap_def)
  with store_bytes_phys [OF assms(1) tr] ph show ?thesis
    using assms(3) by (simp add: memWriteBuffer_def m)
qed

lemma phys_store_other:
  "(\<forall>i < length bs. x \<noteq> a + word_of_nat i) \<Longrightarrow> phys_store m a bs x = m x"
proof (induction bs arbitrary: m a)
  case Nil
  show ?case by simp
next
  case (Cons b bs)
  have "x \<noteq> a" using spec [OF Cons.prems, of 0] by simp
  moreover have "x \<noteq> a + 1 + word_of_nat i" if "i < length bs" for i
    using spec [OF Cons.prems, of "Suc i"] that by (simp add: add.assoc)
  ultimately have "x \<noteq> a" "\<forall>i < length bs. x \<noteq> a + 1 + word_of_nat i" by blast+
  with Cons.IH show ?case by simp
qed

lemma phys_bytes_store:
  "length bs < 2 ^ 64 \<Longrightarrow> phys_bytes (phys_store m a bs) a (length bs) = bs"
proof (induction bs arbitrary: m a)
  case Nil
  show ?case by (simp add: phys_bytes_def)
next
  case (Cons b bs)
  have "\<forall>i < length bs. a \<noteq> a + 1 + word_of_nat i"
  proof (intro allI impI notI)
    fix i assume "i < length bs" and "a = a + 1 + word_of_nat i"
    then have "word_of_nat (Suc i) = (0 :: u64)" by (simp add: add.assoc)
    then have "(2::nat) ^ 64 dvd Suc i"
      using word_of_nat_eq_0_iff [where ?'a = 64, of "Suc i"] by simp
    then show False using dvd_imp_le [of "2 ^ 64" "Suc i"] \<open>i < length bs\<close> Cons.prems by simp
  qed
  then have "phys_store (m(a := b)) (a + 1) bs a = b" by (simp add: phys_store_other)
  with Cons show ?case by (simp add: phys_bytes_Suc)
qed

text \<open>
  A buffer written with \<open>memWriteBuffer\<close> and read back with \<open>memReadBuffer\<close> at the same address
  is the buffer written.
\<close>

theorem mem_write_read_back:
  assumes "maps_memory K phys vm" and "mappable K fd addr len s" and "length bs = unat len"
    and "length buf = unat len" and "snd (memWriteBuffer K fd addr len bs s) = s'"
    and "mappable K fd addr len s'"
  shows "fst (memReadBuffer K fd addr len buf s') = (0, bs)"
proof -
  have "phys (env s') = phys_store (phys (env s)) addr bs"
    using memWriteBuffer_phys [OF assms(1-3)] assms(5) by simp
  moreover have "length bs < 2 ^ 64"
    using assms(3) unsigned_less [of len, where ?'a = nat] by simp
  ultimately show ?thesis
    using memReadBuffer_reads [OF assms(1,6,4)] phys_bytes_store [of bs] assms(3) by simp
qed

theorem mem_write_read_back_witness:
  "fst (memReadBuffer sim_os 3 0x1FFF 2 [0, 0]
     (snd (memWriteBuffer sim_os 3 0x1FFF 2 [0xAB, 0xCD] sim_start))) = (0, [0xAB, 0xCD])"
  using mem_write_read_back [OF sim_maps_memory sim_mappable _ _ refl sim_mappable]
  by simp

end
