(* ===== verification/Fdk_Common.thy ===== *)
theory Fdk_Common
  imports C_Text
begin

text \<open>
  What the programs share: the constants of \<open>include/fdk.h\<close>, and their output as a list of printed texts.
\<close>

datatype print = Stdout string | Stderr string

abbreviation NL :: string where "NL \<equiv> [CHR 0x0A]"

abbreviation TAB :: string where "TAB \<equiv> [CHR 0x09]"

text \<open>\<open>%d\<close> and \<open>%u\<close> of a non-negative number, and \<open>%d\<close> in general.\<close>

fun fmt_d :: "nat \<Rightarrow> string" where
  "fmt_d n = (if n < 10 then [char_of (48 + n)] else fmt_d (n div 10) @ [char_of (48 + n mod 10)])"

declare fmt_d.simps [simp del]

definition fmt_int :: "int \<Rightarrow> string" where
  "fmt_int i = (if i < 0 then ''-'' else []) @ fmt_d (nat \<bar>i\<bar>)"

definition FDK_MAX_PATH :: nat where "FDK_MAX_PATH = 256"

definition FDK_DEF_IPADDR :: string where "FDK_DEF_IPADDR = ''127.0.0.1''"

definition FDK_DEF_LISTEN_ADDR :: string where "FDK_DEF_LISTEN_ADDR = ''127.0.0.1''"

definition FDK_DEF_PORT :: s32 where "FDK_DEF_PORT = 7123"

definition FDK_DATADIR :: string where "FDK_DATADIR = ''/usr/local/share/fdk''"

definition FDK_COPYRIGHT_TEXT :: string where
  "FDK_COPYRIGHT_TEXT = ''Copyright (c) 2006 - 2026 Merck Hung''"

definition FDK_REVISION :: string where "FDK_REVISION = ''2.1.0''"

definition FDK_AUTHOR_NAME :: string where "FDK_AUTHOR_NAME = ''Merck Hung <merckhung@gmail.com>''"

definition FDKD_PROGRAM_NAME :: string where "FDKD_PROGRAM_NAME = ''Firmware Debug Kit Server''"

definition CFDK_PROGRAM_NAME :: string where "CFDK_PROGRAM_NAME = ''Firmware Debug Kit''"

definition MEMVR_PROGRAM_NAME :: string where "MEMVR_PROGRAM_NAME = ''Text Mode Memory Viewer''"

end
