(* ===== verification/Fdkd_Server.thy ===== *)
theory Fdkd_Server
  imports Handler_Properties Fdk_Common
begin

text \<open>
  The server process, \<open>src_fdkd/fdkd.c\<close>: the loop of one connection, which reads a packet, lets the
  handler turn it into its response and sends it, and the accept loop, which gives every accepted
  descriptor to a thread of its own.
\<close>

section \<open>One connection\<close>

text \<open>
  The loop of \<open>handleIncomingConnection\<close>. The client is a script of \<open>read\<close> and one of \<open>write\<close>
  outcomes; the result is the connection, the bytes the client got, the rest of the scripts and the
  machine. The loop ends because every packet read uses up a part of the script.
\<close>

function connection_loop ::
  "'w os \<Rightarrow> fdkdConnection_t \<Rightarrow> rx_event list \<Rightarrow> wr_event list \<Rightarrow> 'w sys \<Rightarrow>
   fdkdConnection_t \<times> u8 list \<times> rx_event list \<times> wr_event list \<times> 'w sys" where
  "connection_loop K c rx wr s =
     (case readPacket (cn_packet c) FDK_MAXSZ_PKT rx of
        (rByte, buf, rx1) \<Rightarrow>
          if rByte \<le> 0 then (c\<lparr>cn_packet := buf\<rparr>, [], rx1, wr, s)
          else
            (case handleRequestPacket K (c\<lparr>cn_packet := buf\<rparr>) (word_of_int rByte) s of
               (r, c1, s1) \<Rightarrow>
                 (case writePacket (cn_packet c1) wr of
                    (e, sent, wr1) \<Rightarrow>
                      if r = FDKD_REPLY_AND_CLOSE \<or> e \<noteq> 0 then (c1, sent, rx1, wr1, s1)
                      else
                        (case connection_loop K c1 rx1 wr1 s1 of
                           (c2, sent2, rest) \<Rightarrow> (c2, sent @ sent2, rest)))))"
  by pat_completeness auto

termination connection_loop
proof (relation "measure (\<lambda>(K, c, rx, wr, s). rx_size rx)", goal_cases)
  case (2 K c rx wr s rByte y buf rx1)
  then have "readPacket (cn_packet c) FDK_MAXSZ_PKT rx = (rByte, buf, rx1)" "0 < rByte" by simp_all
  then show ?case by (simp add: readPacket_size(2))
qed simp

declare connection_loop.simps [simp del]

definition deinitializeSocket :: "'w os \<Rightarrow> s32 \<Rightarrow> 'w sys \<Rightarrow> 'w sys" where
  "deinitializeSocket K fd s = (if 0 \<le> fd then sys_close K fd s else s)"

definition handleIncomingConnection ::
  "'w os \<Rightarrow> fdkdConnection_t \<Rightarrow> rx_event list \<Rightarrow> wr_event list \<Rightarrow> 'w sys \<Rightarrow> u8 list \<times> 'w sys" where
  "handleIncomingConnection K c rx wr s =
     (let (memfd, s1) = openMemDev K s;
          (c1, sent, rx1, wr1, s2) = connection_loop K (c\<lparr>cn_memfd := memfd\<rparr>) rx wr s1
      in (sent, deinitializeSocket K (cn_cfd c1) (closeMemDev K (cn_memfd c1) s2)))"

section \<open>The service seen by a client\<close>

text \<open>
  The specification knows only whole requests: the answer to one request in a fresh buffer, and the
  answers to a list of requests, in order, up to the first one that closes the connection.
\<close>

definition fresh_buffer :: "u8 list \<Rightarrow> u8 list" where
  "fresh_buffer p = p @ replicate (FDK_MAXSZ_PKT - length p) 0"

definition answer_packet ::
  "'w os \<Rightarrow> s32 \<Rightarrow> string option \<Rightarrow> u8 list \<Rightarrow> 'w sys \<Rightarrow> s32 \<times> u8 list \<times> 'w sys" where
  "answer_packet K memfd dev p s =
     (case handle_packet K memfd dev (length p) (fresh_buffer p) s of
        (r, buf, s1) \<Rightarrow> (r, response buf, s1))"

fun serve_spec ::
  "'w os \<Rightarrow> s32 \<Rightarrow> string option \<Rightarrow> u8 list list \<Rightarrow> 'w sys \<Rightarrow> u8 list \<times> 'w sys" where
  "serve_spec K memfd dev [] s = ([], s)"
| "serve_spec K memfd dev (p # ps) s =
     (case answer_packet K memfd dev p s of
        (r, out, s1) \<Rightarrow>
          if r = FDKD_REPLY_AND_CLOSE then (out, s1)
          else case serve_spec K memfd dev ps s1 of (out2, s2) \<Rightarrow> (out @ out2, s2))"

text \<open>What never changes in a connection.\<close>

definition same_conn :: "fdkdConnection_t \<Rightarrow> fdkdConnection_t \<Rightarrow> bool" where
  "same_conn c c' \<longleftrightarrow> cn_cfd c' = cn_cfd c \<and> cn_memfd c' = cn_memfd c \<and> cn_diskPath c' = cn_diskPath c"

lemma same_conn_update [simp]:
  "same_conn c (c'\<lparr>cn_packet := b\<rparr>) = same_conn c c'" "same_conn (c\<lparr>cn_packet := b\<rparr>) c' = same_conn c c'"
  "same_conn c c"
  by (simp_all add: same_conn_def)

lemma same_conn_trans: "same_conn a b \<Longrightarrow> same_conn b c \<Longrightarrow> same_conn a c"
  by (simp add: same_conn_def)

lemma same_connI: "c1 = c\<lparr>cn_packet := b\<rparr> \<Longrightarrow> same_conn c c1"
  by simp

lemma handled_frame:
  assumes "packet_ok p" and "length (cn_packet c) = FDK_MAXSZ_PKT"
  shows "case handleRequestPacket K (c\<lparr>cn_packet := p @ drop (length p) (cn_packet c)\<rparr>)
      (word_of_int (int (length p))) s of
    (r, c1, s1) \<Rightarrow> answer_packet K (cn_memfd c) (cn_diskPath c) p s = (r, response (cn_packet c1), s1) \<and>
      same_conn c c1 \<and> length (cn_packet c1) = FDK_MAXSZ_PKT \<and>
      unat (hdr_pktLen (cn_packet c1)) = length (response (cn_packet c1))"
proof -
  let ?n = "word_of_int (int (length p)) :: u32"
  let ?c = "c\<lparr>cn_packet := p @ drop (length p) (cn_packet c)\<rparr>"
  let ?f = "c\<lparr>cn_packet := fresh_buffer p\<rparr>"
  have p: "8 \<le> length p" "length p \<le> FDK_MAXSZ_PKT" using assms(1) by (simp_all add: packet_ok_def)
  then have n: "unat ?n = length p"
    by (simp add: unat_of_nat take_bit_nat_eq_self FDK_MAXSZ_PKT_def)
  have ok: "conn_ok ?c ?n" "conn_ok ?f ?n"
    using p assms(2) n by (simp_all add: conn_ok_def fresh_buffer_def)
  obtain r c1 s1 where h: "handleRequestPacket K ?c ?n s = (r, c1, s1)" by (metis prod_cases3)
  have "response (cn_packet c1) = response (cn_packet (fst (snd (handleRequestPacket K ?f ?n s)))) \<and>
    s1 = snd (snd (handleRequestPacket K ?f ?n s)) \<and> r = fst (handleRequestPacket K ?f ?n s)"
    using handleRequestPacket_same [OF ok, of K s] h n p by (simp add: fresh_buffer_def)
  then have "answer_packet K (cn_memfd c) (cn_diskPath c) p s = (r, response (cn_packet c1), s1)"
    using n by (simp add: answer_packet_def handleRequestPacket_def split: prod.splits)
  moreover have "same_conn c c1" and "\<exists>op. valid_response op (cn_packet c1)"
    using handleRequestPacket_valid [OF ok(1), of K s] h by (auto dest: same_connI)
  ultimately show ?thesis
    using h by (auto simp: valid_response_def response_def)
qed

text \<open>The loop implements the specification, for every fragmentation of the requests.\<close>

lemma connection_loop_serves:
  assumes "\<forall>p \<in> set ps. packet_ok p" and "rx_flat rx = concat ps @ tail"
    and "\<nexists>p. next_frame FDK_MAXSZ_PKT tail = Frame p" and "list_all wr_ok wr"
    and "length (cn_packet c) = FDK_MAXSZ_PKT"
  shows "case connection_loop K c rx wr s of (c', sent, rx', wr', s') \<Rightarrow>
    (sent, s') = serve_spec K (cn_memfd c) (cn_diskPath c) ps s \<and> same_conn c c'"
  using assms(1,2,4,5)
proof (induction ps arbitrary: c rx wr s)
  case Nil
  obtain n buf rx1 where r: "readPacket (cn_packet c) FDK_MAXSZ_PKT rx = (n, buf, rx1)" by (metis prod_cases3)
  have "n \<le> 0"
    using framing.rd_stop [OF Nil.prems(4), of rx] Nil.prems(2) assms(3) r
    by (simp add: FDK_MAXSZ_PKT_def)
  then show ?case by (simp add: connection_loop.simps [of K c] r [simplified])
next
  case (Cons p ps)
  then have p: "packet_ok p" and rxf: "rx_flat rx = p @ concat ps @ tail" by simp_all
  obtain rx1 where r: "readPacket (cn_packet c) FDK_MAXSZ_PKT rx =
      (int (length p), p @ drop (length p) (cn_packet c), rx1)"
    and rx1: "rx_flat rx1 = concat ps @ tail"
    using framing.rd_packet [OF Cons.prems(4) p rxf] by blast
  obtain a c1 s1 where h: "handleRequestPacket K (c\<lparr>cn_packet := p @ drop (length p) (cn_packet c)\<rparr>)
      (word_of_int (int (length p))) s = (a, c1, s1)" by (metis prod_cases3)
  have ans: "answer_packet K (cn_memfd c) (cn_diskPath c) p s = (a, response (cn_packet c1), s1)"
    and c1: "same_conn c c1" and len: "length (cn_packet c1) = FDK_MAXSZ_PKT"
    and pl: "unat (hdr_pktLen (cn_packet c1)) = length (response (cn_packet c1))"
    using handled_frame [OF p Cons.prems(4), of K s] h by simp_all
  obtain wr1 where w: "writePacket (cn_packet c1) wr = (0, response (cn_packet c1), wr1)"
    and wr1: "list_all wr_ok wr1" using writePacket_all [OF Cons.prems(3) pl] by blast
  have sel: "cn_memfd c1 = cn_memfd c" "cn_diskPath c1 = cn_diskPath c" using c1 by (simp_all add: same_conn_def)
  have pos: "0 < length p" using p by (auto simp: packet_ok_def)
  show ?case
  proof (cases "a = FDKD_REPLY_AND_CLOSE")
    case True
    then show ?thesis
      using pos c1 by (simp add: connection_loop.simps [of K c] r [simplified] h [simplified] w ans)
  next
    case False
    obtain c2 sent rx2 wr2 s2 where l: "connection_loop K c1 rx1 wr1 s1 = (c2, sent, rx2, wr2, s2)"
      by (metis prod_cases5)
    have sp: "serve_spec K (cn_memfd c) (cn_diskPath c) ps s1 = (sent, s2)" and "same_conn c1 c2"
      using Cons.IH [OF _ rx1 wr1 len, of s1] Cons.prems(1) by (simp_all add: l sel)
    moreover have "same_conn c c2" using c1 \<open>same_conn c1 c2\<close> by (rule same_conn_trans)
    ultimately show ?thesis
      using pos False
      by (simp add: connection_loop.simps [of K c] r [simplified] h [simplified] w ans l)
  qed
qed

text \<open>Whatever the client does, the loop leaks nothing.\<close>

lemma connection_loop_held:
  assumes "length (cn_packet c) = FDK_MAXSZ_PKT"
  shows "case connection_loop K c rx wr s of (c', sent, rx', wr', s') \<Rightarrow>
    held s' = held s \<and> same_conn c c'"
  using assms
proof (induction K c rx wr s rule: connection_loop.induct)
  case (1 K c rx wr s)
  obtain n buf rx1 where r: "readPacket (cn_packet c) FDK_MAXSZ_PKT rx = (n, buf, rx1)" by (metis prod_cases3)
  note u = readPacket_unfold [OF "1.prems" _ r]
  show ?case
  proof (cases "n \<le> 0")
    case True
    then show ?thesis by (simp add: connection_loop.simps [of K c] r [simplified])
  next
    case pos: False
    let ?c = "c\<lparr>cn_packet := buf\<rparr>"
    obtain a c1 s1 where h: "handleRequestPacket K ?c (word_of_int n) s = (a, c1, s1)" by (metis prod_cases3)
    obtain e sent wr1 where w: "writePacket (cn_packet c1) wr = (e, sent, wr1)" by (metis prod_cases3)
    have "length buf = FDK_MAXSZ_PKT" "8 \<le> nat n" "nat n \<le> FDK_MAXSZ_PKT"
      using u pos next_frame_Frame [of FDK_MAXSZ_PKT "rx_flat rx"]
      by (auto simp: FDK_MAXSZ_PKT_def split: frame.splits)
    then have ok: "conn_ok ?c (word_of_int n)"
      using pos by (simp add: conn_ok_def FDK_MAXSZ_PKT_def unat_eq_nat_uint uint_word_of_int)
    have s1: "held s1 = held s" using handleRequestPacket_held [OF ok, of K s] h by simp
    have c1: "same_conn c c1" "length (cn_packet c1) = FDK_MAXSZ_PKT"
      using handleRequestPacket_valid [OF ok, of K s] h by (auto simp: valid_response_def dest: same_connI)
    show ?thesis
    proof (cases "a = FDKD_REPLY_AND_CLOSE \<or> e \<noteq> 0")
      case True
      then show ?thesis using pos s1 c1(1) by (simp add: connection_loop.simps [of K c] r [simplified] h w)
    next
      case False
      obtain c2 sent2 rx2 wr2 s2 where l: "connection_loop K c1 rx1 wr1 s1 = (c2, sent2, rx2, wr2, s2)"
        by (metis prod_cases5)
      have "held s2 = held s1 \<and> same_conn c1 c2"
        using "1.IH" [OF r [symmetric] refl pos h [symmetric] refl w [symmetric] refl False c1(2)]
        by (simp add: l)
      moreover have "same_conn c c2" using c1(1) calculation same_conn_trans by blast
      ultimately show ?thesis
        using pos False s1 by (simp add: connection_loop.simps [of K c] r [simplified] h w l)
    qed
  qed
qed

section \<open>The accept loop\<close>

text \<open>
  One turn of the loop in \<open>main\<close>: the signals that arrive before its \<open>accept\<close> returns, and what \<open>accept\<close>
  gives, a failure (\<open>EINTR\<close> after a handled signal that met it waiting) or a descriptor, with the outcome
  of \<open>calloc\<close> and of \<open>pthread_create\<close>. A signal between the test of \<open>terminate\<close> and \<open>accept\<close> does not
  interrupt it, so that a turn may have both a signal and a connection.
\<close>

datatype signal = SIGTERM | SIGINT | SIGHUP | SIGPIPE

datatype disposition = Handler | SIG_IGN

definition installSignalHandlers :: "(signal \<times> disposition) list" where
  "installSignalHandlers = [(SIGTERM, Handler), (SIGINT, Handler), (SIGHUP, Handler), (SIGPIPE, SIG_IGN)]"

datatype accepted_as = AcceptFails | Accepts s32 bool bool

record server =
  sv_terminate :: bool
  sv_threads :: "fdkdConnection_t list"
  sv_closed :: "s32 list"
  sv_print :: "print list"

definition handleSignal :: "server \<Rightarrow> server" where
  "handleSignal sv = sv\<lparr>sv_terminate := True\<rparr>"

definition deliver :: "signal \<Rightarrow> server \<Rightarrow> server" where
  "deliver sg sv = (if map_of installSignalHandlers sg = Some Handler then handleSignal sv else sv)"

definition new_connection :: "s32 \<Rightarrow> string \<Rightarrow> fdkdConnection_t" where
  "new_connection cfd diskPath =
     \<lparr>cn_cfd = cfd, cn_memfd = - 1, cn_diskPath = (if diskPath \<noteq> [] then Some diskPath else None),
      cn_packet = replicate FDK_MAXSZ_PKT 0\<rparr>"

definition accept_turn :: "string \<Rightarrow> accepted_as \<Rightarrow> server \<Rightarrow> server" where
  "accept_turn diskPath a sv =
     (case a of
        AcceptFails \<Rightarrow> sv
      | Accepts cfd alloc created \<Rightarrow>
          if \<not> alloc then sv\<lparr>sv_closed := sv_closed sv @ [cfd]\<rparr>
          else if \<not> created then
            sv\<lparr>sv_closed := sv_closed sv @ [cfd], sv_print := sv_print sv @ [Stderr (''Failed to create a thread'' @ NL)]\<rparr>
          else sv\<lparr>sv_threads := sv_threads sv @ [new_connection cfd diskPath]\<rparr>)"

fun accept_loop :: "string \<Rightarrow> (signal list \<times> accepted_as) list \<Rightarrow> server \<Rightarrow> server" where
  "accept_loop diskPath [] sv = sv"
| "accept_loop diskPath ((sgs, a) # its) sv =
     (if sv_terminate sv then sv
      else accept_loop diskPath its (accept_turn diskPath a (fold deliver sgs sv)))"

definition server_start :: server where
  "server_start = \<lparr>sv_terminate = False, sv_threads = [], sv_closed = [], sv_print = []\<rparr>"

text \<open>The descriptors accepted up to the turn in which a terminating signal arrives, this one included.\<close>

fun accepted :: "(signal list \<times> accepted_as) list \<Rightarrow> s32 list" where
  "accepted [] = []"
| "accepted ((sgs, a) # its) =
     (case a of AcceptFails \<Rightarrow> [] | Accepts cfd alloc created \<Rightarrow> [cfd]) @
     (if set sgs \<subseteq> {SIGPIPE} then accepted its else [])"

lemma accept_loop_terminated [simp]: "sv_terminate sv \<Longrightarrow> accept_loop diskPath its sv = sv"
  by (cases its) auto

lemma deliver_all:
  "fold deliver sgs sv = sv\<lparr>sv_terminate := sv_terminate sv \<or> \<not> set sgs \<subseteq> {SIGPIPE}\<rparr>"
proof (induction sgs arbitrary: sv)
  case (Cons sg sgs)
  then show ?case by (cases sg) (simp_all add: deliver_def handleSignal_def installSignalHandlers_def)
qed simp

lemma accept_turn_accounts:
  "sv_terminate (accept_turn diskPath a sv) = sv_terminate sv"
  "mset (map cn_cfd (sv_threads (accept_turn diskPath a sv))) + mset (sv_closed (accept_turn diskPath a sv)) =
   mset (map cn_cfd (sv_threads sv)) + mset (sv_closed sv) +
   mset (case a of AcceptFails \<Rightarrow> [] | Accepts cfd alloc created \<Rightarrow> [cfd])"
  by (simp_all add: accept_turn_def new_connection_def split: accepted_as.split)

lemma accept_loop_accounts:
  "\<not> sv_terminate sv \<Longrightarrow>
    mset (map cn_cfd (sv_threads (accept_loop diskPath its sv))) + mset (sv_closed (accept_loop diskPath its sv)) =
    mset (map cn_cfd (sv_threads sv)) + mset (sv_closed sv) + mset (accepted its)"
proof (induction diskPath its sv rule: accept_loop.induct)
  case (2 diskPath sgs a its sv)
  let ?sv = "accept_turn diskPath a (fold deliver sgs sv)"
  have "mset (map cn_cfd (sv_threads ?sv)) + mset (sv_closed ?sv) =
      mset (map cn_cfd (sv_threads sv)) + mset (sv_closed sv) +
      mset (case a of AcceptFails \<Rightarrow> [] | Accepts cfd alloc created \<Rightarrow> [cfd])"
    unfolding accept_turn_accounts(2) deliver_all by simp
  moreover have "sv_terminate ?sv \<longleftrightarrow> \<not> set sgs \<subseteq> {SIGPIPE}"
    using "2.prems" by (simp add: accept_turn_accounts(1) deliver_all)
  ultimately show ?case using "2.prems" "2.IH" by (cases "set sgs \<subseteq> {SIGPIPE}") (simp_all add: ac_simps)
qed simp

section \<open>Properties\<close>

text \<open>
  C2: the server answers a connection's requests in order, one response each, up to the first
  disconnect request, whatever fragments the requests arrive in, whatever interrupts the reads and
  writes, and whatever partial packet ends the stream; the answers are those of the specification,
  in which every request meets an empty buffer.
\<close>

theorem connection_serves_in_order:
  assumes "\<forall>p \<in> set ps. packet_ok p" and "rx_flat rx = concat ps @ tail"
    and "\<nexists>p. next_frame FDK_MAXSZ_PKT tail = Frame p" and "list_all wr_ok wr"
    and "openMemDev K s = (memfd, s1)"
  shows "fst (handleIncomingConnection K (new_connection cfd diskPath) rx wr s) =
    fst (serve_spec K memfd (if diskPath \<noteq> [] then Some diskPath else None) ps s1)"
proof -
  let ?c = "(new_connection cfd diskPath)\<lparr>cn_memfd := memfd\<rparr>"
  have "length (cn_packet ?c) = FDK_MAXSZ_PKT" by (simp add: new_connection_def)
  from connection_loop_serves [OF assms(1-4) this, of K s1]
  show ?thesis
    using assms(5) by (auto simp: handleIncomingConnection_def new_connection_def Let_def
        split: prod.splits dest: arg_cong [of "(_, _)" _ fst])
qed

theorem connection_serves_in_order_witness:
  "fst (handleIncomingConnection sim_os (new_connection 7 [])
     [Chunk [1, 0, 0], RxIntr, Chunk [0, 8, 0, 0, 0, 3, 0, 0, 0, 8, 0, 0, 0]] [Accept 3, WrIntr] sim_start) =
   fst (serve_spec sim_os 3 None [[1, 0, 0, 0, 8, 0, 0, 0], [3, 0, 0, 0, 8, 0, 0, 0]]
     (snd (openMemDev sim_os sim_start)))"
proof -
  have f: "next_frame FDK_MAXSZ_PKT [] \<noteq> Frame p" for p by (simp add: next_frame_def)
  have o: "openMemDev sim_os sim_start = (3, snd (openMemDev sim_os sim_start))"
    by (simp add: openMemDev_def sys_open_def sim_defs FDK_MEM_DEV_def)
  have ok: "\<forall>p \<in> set [[1, 0, 0, 0, 8, 0, 0, 0], [3, 0, 0, 0, 8, 0, 0, 0]]. packet_ok p"
    by (simp add: packet_ok_def hdr_pktLen_def layout get_defs bytes_at_def)
  have w: "list_all wr_ok [Accept 3, WrIntr]" by simp
  show ?thesis
    using connection_serves_in_order [OF ok _ _ w o, of
        "[Chunk [1, 0, 0], RxIntr, Chunk [0, 8, 0, 0, 0, 3, 0, 0, 0, 8, 0, 0, 0]]" "[]" 7 "[]"] f
    by simp
qed

text \<open>
  C20: a connection thread gives everything back. Whatever the client sends, however it misbehaves or
  disconnects, and whatever fails, the thread ends, and what the process holds afterwards is what it
  held before without the client's descriptor.
\<close>

theorem handleIncomingConnection_releases:
  "held (snd (handleIncomingConnection K (new_connection cfd diskPath) rx wr s)) =
     (if 0 \<le> cfd then remove1 (ResFd cfd) (held s) else held s)"
proof -
  obtain memfd s1 where op: "openMemDev K s = (memfd, s1)" by fastforce
  let ?c = "(new_connection cfd diskPath)\<lparr>cn_memfd := memfd\<rparr>"
  obtain c' sent rx' wr' s' where l: "connection_loop K ?c rx wr s1 = (c', sent, rx', wr', s')"
    by (metis prod_cases5)
  have "length (cn_packet ?c) = FDK_MAXSZ_PKT" by (simp add: new_connection_def)
  from connection_loop_held [OF this, where K = K and rx = rx and wr = wr and s = s1] l
  have h: "held s' = held s1" and c': "cn_cfd c' = cfd" "cn_memfd c' = memfd"
    by (simp_all add: same_conn_def new_connection_def)
  have "held s1 = (if 0 \<le> memfd then ResFd memfd # held s else held s)"
    using op by (auto simp: openMemDev_def sys_open_def held_def split: prod.splits)
  moreover have "held (closeMemDev K memfd t) = (if 0 \<le> memfd then remove1 (ResFd memfd) (held t) else held t)" for t
    by (simp add: closeMemDev_def sys_close_def held_def)
  moreover have "held (deinitializeSocket K cfd t) = (if 0 \<le> cfd then remove1 (ResFd cfd) (held t) else held t)" for t
    by (simp add: deinitializeSocket_def sys_close_def held_def)
  ultimately show ?thesis
    by (simp add: handleIncomingConnection_def op l c' h)
qed

text \<open>
  C21: the accept loop loses no descriptor. Each one accepted is handed to exactly one thread or closed,
  up to the turn in which the first SIGTERM, SIGINT or SIGHUP arrives, whose connection is still served;
  SIGPIPE, from a client that disconnects while it is answered, stops nothing.
\<close>

theorem accept_loop_loses_no_descriptor:
  "mset (map cn_cfd (sv_threads (accept_loop diskPath its server_start))) +
     mset (sv_closed (accept_loop diskPath its server_start)) = mset (accepted its)"
  using accept_loop_accounts [of server_start diskPath its] by (simp add: server_start_def)

end
