(* ===== verification/Netsock.thy ===== *)
theory Netsock
  imports Fdk_Common
begin

unbundle bit_operations_syntax

text \<open>
  The sockets, \<open>lib/netsock.c\<close>: resolving an address and trying its candidates one by one. The resolver
  and the socket calls of the kernel are the parameter \<open>net\<close>, over an environment of any type; the calls
  made are recorded in a log, from which the descriptors held are read off.
\<close>

section \<open>The socket interface\<close>

record addrinfo =
  ai_family :: u32
  ai_socktype :: u32
  ai_protocol :: u32
  ai_addr :: "u8 list"

record addr_hints =
  hint_family :: u32
  hint_socktype :: u32
  hint_flags :: u32

datatype sock_option = SO_REUSEADDR | TCP_NODELAY

record 'n net =
  nt_getaddrinfo :: "string \<Rightarrow> string \<Rightarrow> addr_hints \<Rightarrow> 'n \<Rightarrow> addrinfo list option \<times> 'n"
  nt_socket :: "u32 \<Rightarrow> u32 \<Rightarrow> u32 \<Rightarrow> 'n \<Rightarrow> s32 \<times> 'n"
  nt_setsockopt :: "s32 \<Rightarrow> sock_option \<Rightarrow> 'n \<Rightarrow> s32 \<times> 'n"
  nt_bind :: "s32 \<Rightarrow> u8 list \<Rightarrow> 'n \<Rightarrow> s32 \<times> 'n"
  nt_listen :: "s32 \<Rightarrow> s32 \<Rightarrow> 'n \<Rightarrow> s32 \<times> 'n"
  nt_connect :: "s32 \<Rightarrow> u8 list \<Rightarrow> 'n \<Rightarrow> s32 \<times> 'n"
  nt_close :: "s32 \<Rightarrow> 'n \<Rightarrow> 'n"
  nt_accept4 :: "s32 \<Rightarrow> u32 \<Rightarrow> 'n \<Rightarrow> s32 \<times> 'n"

datatype netev =
    NvSocket s32
  | NvOption s32 sock_option
  | NvBind s32 "u8 list" s32
  | NvListen s32 s32
  | NvConnect s32 "u8 list" s32
  | NvClose s32
  | NvAccept s32 s32

record 'n nsys =
  nenv :: 'n
  nlog :: "netev list"

text \<open>Values of the Linux headers.\<close>

definition AF_UNSPEC :: u32 where "AF_UNSPEC = 0"

definition SOCK_STREAM :: u32 where "SOCK_STREAM = 1"

definition SOCK_CLOEXEC :: u32 where "SOCK_CLOEXEC = 0x80000"

definition AI_PASSIVE :: u32 where "AI_PASSIVE = 1"

definition FDK_LISTEN_BACKLOG :: s32 where "FDK_LISTEN_BACKLOG = 5"

text \<open>A call: its result, the environment after it, and its entry of the log.\<close>

definition net_call :: "('n \<Rightarrow> 'r \<times> 'n) \<Rightarrow> ('r \<Rightarrow> netev) \<Rightarrow> 'n nsys \<Rightarrow> 'r \<times> 'n nsys" where
  "net_call f ev s = (let (r, e) = f (nenv s) in (r, \<lparr>nenv = e, nlog = nlog s @ [ev r]\<rparr>))"

definition net_close :: "'n net \<Rightarrow> s32 \<Rightarrow> 'n nsys \<Rightarrow> 'n nsys" where
  "net_close N fd s = \<lparr>nenv = nt_close N fd (nenv s), nlog = nlog s @ [NvClose fd]\<rparr>"

section \<open>netsock.c\<close>

definition listenAction :: "'n net \<Rightarrow> s32 \<Rightarrow> u8 list \<Rightarrow> 'n nsys \<Rightarrow> s32 \<times> 'n nsys" where
  "listenAction N fd sa s =
     (let (_, s1) = net_call (nt_setsockopt N fd SO_REUSEADDR) (\<lambda>r. NvOption fd SO_REUSEADDR) s;
          (b, s2) = net_call (nt_bind N fd sa) (NvBind fd sa) s1
      in if b < 0 then (- 1, s2) else net_call (nt_listen N fd FDK_LISTEN_BACKLOG) (NvListen fd) s2)"

definition connectAction :: "'n net \<Rightarrow> s32 \<Rightarrow> u8 list \<Rightarrow> 'n nsys \<Rightarrow> s32 \<times> 'n nsys" where
  "connectAction N fd sa s =
     (let (_, s1) = net_call (nt_setsockopt N fd TCP_NODELAY) (\<lambda>r. NvOption fd TCP_NODELAY) s
      in net_call (nt_connect N fd sa) (NvConnect fd sa) s1)"

text \<open>The loop over the candidates: whether one was taken, and \<open>*fd\<close> as it is left.\<close>

fun try_addresses ::
  "'n net \<Rightarrow> (s32 \<Rightarrow> u8 list \<Rightarrow> 'n nsys \<Rightarrow> s32 \<times> 'n nsys) \<Rightarrow> addrinfo list \<Rightarrow> s32 \<Rightarrow> 'n nsys \<Rightarrow>
   bool \<times> s32 \<times> 'n nsys" where
  "try_addresses N action [] fd s = (False, fd, s)"
| "try_addresses N action (ai # ais) fd0 s =
     (let (fd, s1) = net_call (nt_socket N (ai_family ai) (ai_socktype ai OR SOCK_CLOEXEC) (ai_protocol ai)) NvSocket s
      in if fd < 0 then try_addresses N action ais fd s1
         else
           let (r, s2) = action fd (ai_addr ai) s1
           in if r = 0 then (True, fd, s2) else try_addresses N action ais fd (net_close N fd s2))"

definition openSocket ::
  "'n net \<Rightarrow> s32 \<Rightarrow> string \<Rightarrow> s32 \<Rightarrow> bool \<Rightarrow> (s32 \<Rightarrow> u8 list \<Rightarrow> 'n nsys \<Rightarrow> s32 \<times> 'n nsys) \<Rightarrow> 'n nsys \<Rightarrow>
   s32 \<times> s32 \<times> 'n nsys" where
  "openSocket N fd addr port passive action s =
     (let port' = (if port \<le> 0 then FDK_DEF_PORT else port);
          service = snprintf_text 16 (fmt_int port');
          hints = \<lparr>hint_family = AF_UNSPEC, hint_socktype = SOCK_STREAM,
                   hint_flags = (if passive then AI_PASSIVE else 0)\<rparr>;
          (res, e) = nt_getaddrinfo N addr service hints (nenv s);
          s1 = s\<lparr>nenv := e\<rparr>
      in case res of
          None \<Rightarrow> (- 1, fd, s1)
        | Some ais \<Rightarrow> (case try_addresses N action ais fd s1 of (ok, fd', s2) \<Rightarrow> (if ok then 0 else - 1, fd', s2)))"

definition initializeSocket :: "'n net \<Rightarrow> s32 \<Rightarrow> string \<Rightarrow> s32 \<Rightarrow> 'n nsys \<Rightarrow> s32 \<times> s32 \<times> 'n nsys" where
  "initializeSocket N fd addr port s = openSocket N fd addr port True (listenAction N) s"

definition connectSocket :: "'n net \<Rightarrow> s32 \<Rightarrow> string \<Rightarrow> s32 \<Rightarrow> 'n nsys \<Rightarrow> s32 \<times> s32 \<times> 'n nsys" where
  "connectSocket N fd addr port s = openSocket N fd addr port False (connectAction N) s"

definition acceptSocket :: "'n net \<Rightarrow> s32 \<Rightarrow> 'n nsys \<Rightarrow> bool \<times> s32 \<times> 'n nsys" where
  "acceptSocket N fd s =
     (let (apsd, s1) = net_call (nt_accept4 N fd SOCK_CLOEXEC) (NvAccept fd) s in (\<not> apsd < 0, apsd, s1))"

section \<open>Descriptors\<close>

fun sock_hold :: "s32 list \<Rightarrow> netev \<Rightarrow> s32 list" where
  "sock_hold fds (NvSocket fd) = (if 0 \<le> fd then fd # fds else fds)"
| "sock_hold fds (NvAccept fd r) = (if 0 \<le> r then r # fds else fds)"
| "sock_hold fds (NvClose fd) = remove1 fd fds"
| "sock_hold fds _ = fds"

definition socks :: "'n nsys \<Rightarrow> s32 list" where
  "socks s = foldl sock_hold [] (nlog s)"

lemma socks_call: "net_call f ev s = (r, s') \<Longrightarrow> socks s' = sock_hold (socks s) (ev r)"
  by (auto simp: net_call_def socks_def split: prod.splits)

lemma socks_close [simp]: "socks (net_close N fd s) = remove1 fd (socks s)"
  by (simp add: net_close_def socks_def)

text \<open>
  What the loop needs of an action: on a socket that it is given it neither opens nor closes one, and
  a result of 0 means that \<open>done_with\<close> holds of the calls it made.
\<close>

locale socket_action =
  fixes action :: "s32 \<Rightarrow> u8 list \<Rightarrow> 'n nsys \<Rightarrow> s32 \<times> 'n nsys"
    and used_for :: "s32 \<Rightarrow> u8 list \<Rightarrow> netev list \<Rightarrow> bool"
  assumes keeps: "action fd sa s = (r, s') \<Longrightarrow> socks s' = socks s"
    and used: "action fd sa s = (0, s') \<Longrightarrow> \<exists>evs. nlog s' = nlog s @ evs \<and> used_for fd sa evs"
begin

lemma try_addresses_sockets:
  "try_addresses N action ais fd0 s = (ok, fd, s') \<Longrightarrow>
    socks s' = (if ok then fd # socks s else socks s) \<and> (ok \<longrightarrow> 0 \<le> fd)"
proof (induction ais arbitrary: fd0 s)
  case (Cons ai ais)
  obtain f s1 where f: "net_call (nt_socket N (ai_family ai) (ai_socktype ai OR SOCK_CLOEXEC) (ai_protocol ai))
      NvSocket s = (f, s1)" by fastforce
  obtain r s2 where r: "action f (ai_addr ai) s1 = (r, s2)" by fastforce
  have s1: "socks s1 = (if 0 \<le> f then f # socks s else socks s)" using socks_call [OF f] by simp
  have s2: "socks s2 = socks s1" by (rule keeps [OF r])
  show ?case
    using Cons.prems Cons.IH [of f] f r s1 s2 by (auto simp: Let_def split: if_splits dest!: Cons.IH)
qed simp

lemma try_addresses_used:
  "try_addresses N action ais fd0 s = (True, fd, s') \<Longrightarrow>
    \<exists>ai \<in> set ais. \<exists>pre evs. nlog s' = pre @ evs \<and> used_for fd (ai_addr ai) evs"
proof (induction ais arbitrary: fd0 s)
  case (Cons ai ais)
  obtain f s1 where f: "net_call (nt_socket N (ai_family ai) (ai_socktype ai OR SOCK_CLOEXEC) (ai_protocol ai))
      NvSocket s = (f, s1)" by fastforce
  obtain r s2 where r: "action f (ai_addr ai) s1 = (r, s2)" by fastforce
  show ?case
  proof (cases "0 \<le> f \<and> r = 0")
    case True
    then have "fd = f" "s' = s2" using Cons.prems f r by auto
    then show ?thesis using used [of f "ai_addr ai" s1 s2] r True by auto
  next
    case False
    then show ?thesis using Cons.prems f r by (auto simp: Let_def split: if_splits dest!: Cons.IH)
  qed
qed simp

lemma openSocket_sockets:
  assumes "openSocket N fd0 addr port passive action s = (r, fd, s')"
  shows "socks s' = (if r = 0 then fd # socks s else socks s)" "r = 0 \<Longrightarrow> 0 \<le> fd"
    "r = 0 \<Longrightarrow> \<exists>sa pre evs. nlog s' = pre @ evs \<and> used_for fd sa evs"
proof -
  have "socks (s\<lparr>nenv := e\<rparr>) = socks s" for e by (simp add: socks_def)
  then show "socks s' = (if r = 0 then fd # socks s else socks s)" "r = 0 \<Longrightarrow> 0 \<le> fd"
    using assms by (auto simp: openSocket_def Let_def split: prod.splits option.splits if_splits
        dest!: try_addresses_sockets)
  show "r = 0 \<Longrightarrow> \<exists>sa pre evs. nlog s' = pre @ evs \<and> used_for fd sa evs"
    using assms by (auto simp: openSocket_def Let_def split: prod.splits option.splits if_splits
        dest!: try_addresses_used) blast?
qed

end

definition listening :: "s32 \<Rightarrow> u8 list \<Rightarrow> netev list \<Rightarrow> bool" where
  "listening fd sa evs \<longleftrightarrow>
     (\<exists>b. 0 \<le> b \<and> evs = [NvOption fd SO_REUSEADDR, NvBind fd sa b, NvListen fd 0])"

definition connecting :: "s32 \<Rightarrow> u8 list \<Rightarrow> netev list \<Rightarrow> bool" where
  "connecting fd sa evs \<longleftrightarrow> evs = [NvOption fd TCP_NODELAY, NvConnect fd sa 0]"

interpretation listener: socket_action "listenAction N" listening
proof
  fix fd sa s r s'
  show "listenAction N fd sa s = (r, s') \<Longrightarrow> socks s' = socks s"
    by (auto simp: listenAction_def net_call_def socks_def split: prod.splits if_splits)
  show "listenAction N fd sa s = (0, s') \<Longrightarrow> \<exists>evs. nlog s' = nlog s @ evs \<and> listening fd sa evs"
    by (auto simp: listenAction_def net_call_def listening_def split: prod.splits if_splits)
qed

interpretation connector: socket_action "connectAction N" connecting
proof
  fix fd sa s r s'
  show "connectAction N fd sa s = (r, s') \<Longrightarrow> socks s' = socks s"
    by (auto simp: connectAction_def net_call_def socks_def split: prod.splits if_splits)
  show "connectAction N fd sa s = (0, s') \<Longrightarrow> \<exists>evs. nlog s' = nlog s @ evs \<and> connecting fd sa evs"
    by (auto simp: connectAction_def net_call_def connecting_def split: prod.splits if_splits)
qed

text \<open>A network for the examples: two candidates, of which only the second gets a socket.\<close>

definition sim_net :: "unit net" where
  "sim_net =
     \<lparr>nt_getaddrinfo = (\<lambda>addr service hints e.
        (Some [\<lparr>ai_family = 10, ai_socktype = hint_socktype hints, ai_protocol = 6, ai_addr = [10]\<rparr>,
               \<lparr>ai_family = 2, ai_socktype = hint_socktype hints, ai_protocol = 6, ai_addr = [2]\<rparr>], e)),
      nt_socket = (\<lambda>family socktype protocol e. (if family = 10 then - 1 else 5, e)),
      nt_setsockopt = (\<lambda>fd opt e. (0, e)), nt_bind = (\<lambda>fd sa e. (0, e)), nt_listen = (\<lambda>fd n e. (0, e)),
      nt_connect = (\<lambda>fd sa e. (0, e)), nt_close = (\<lambda>fd e. e), nt_accept4 = (\<lambda>fd flags e. (6, e))\<rparr>"

definition sim_net_start :: "unit nsys" where
  "sim_net_start = \<lparr>nenv = (), nlog = []\<rparr>"

lemma sim_listen:
  "fst (initializeSocket sim_net fd0 addr port sim_net_start) = 0"
  "fst (snd (initializeSocket sim_net fd0 addr port sim_net_start)) = 5"
  by (simp_all add: initializeSocket_def openSocket_def sim_net_def sim_net_start_def net_call_def listenAction_def Let_def)

text \<open>
  C31: opening a socket leaks none. When it succeeds the process holds one socket more, which is
  listening or connected, and when it fails, after whichever candidate addresses and calls, the
  process holds what it held before. An accepted connection is one socket more, too.
\<close>

theorem sockets_not_leaked:
  "(case initializeSocket N fd0 addr port s of (r, fd, s') \<Rightarrow>
      (if r = 0 then socks s' = fd # socks s \<and> 0 \<le> fd \<and> (\<exists>sa pre evs. nlog s' = pre @ evs \<and> listening fd sa evs)
       else socks s' = socks s)) \<and>
   (case connectSocket N fd0 addr port s of (r, fd, s') \<Rightarrow>
      (if r = 0 then socks s' = fd # socks s \<and> 0 \<le> fd \<and> (\<exists>sa pre evs. nlog s' = pre @ evs \<and> connecting fd sa evs)
       else socks s' = socks s)) \<and>
   (case acceptSocket N fd0 s of (ok, fd, s') \<Rightarrow> socks s' = (if ok then fd # socks s else socks s))"
proof -
  have "case acceptSocket N fd0 s of (ok, fd, s') \<Rightarrow> socks s' = (if ok then fd # socks s else socks s)"
    by (auto simp: acceptSocket_def net_call_def socks_def split: prod.splits)
  moreover obtain r fd s' where l: "openSocket N fd0 addr port True (listenAction N) s = (r, fd, s')" by (metis prod_cases3)
  moreover obtain q gd t' where c: "openSocket N fd0 addr port False (connectAction N) s = (q, gd, t')" by (metis prod_cases3)
  ultimately show ?thesis
    using listener.openSocket_sockets [OF l] connector.openSocket_sockets [OF c]
    by (simp add: initializeSocket_def connectSocket_def)
qed

end
