(* ===== verification/Fdkd_Main.thy ===== *)
theory Fdkd_Main
  imports Fdkd_Server Netsock
begin

text \<open>
  The server program around its connections, the rest of \<open>src_fdkd/fdkd.c\<close>: the command line, the report on
  what the kernel allows, and \<open>main\<close> from the options to the end of the accept loop.
\<close>

section \<open>The command line\<close>






section \<open>The environment\<close>



section \<open>The program\<close>






section \<open>Starting and stopping\<close>






end
