(* ===== verification/Fdkd_Termination.thy ===== *)
theory Fdkd_Termination
  imports Fdkd_Server
begin

text \<open>
  How often the loops of the server and of the packet layer turn. The loops are written again with
  a count of turns that runs out, and the bounds say that it need not: a transfer calls \<open>read\<close> or
  \<open>write\<close> at most once for each byte and once for each interruption, and a connection turns at most
  once for each eight bytes it receives, and once more.
\<close>

section \<open>Transfers\<close>

text \<open>\<open>transferAll\<close> with at most \<open>fuel\<close> calls; \<open>None\<close> when they are used up.\<close>

fun transferAll_reads :: "nat \<Rightarrow> nat \<Rightarrow> rx_event list \<Rightarrow> (u8 list \<times> rx_event list) option" where
  "transferAll_reads 0 len rx = (if len = 0 then Some ([], rx) else None)"
| "transferAll_reads (Suc fuel) len rx =
     (if len = 0 then Some ([], rx)
      else case sock_read len rx of
          (Intr, rx') \<Rightarrow> transferAll_reads fuel len rx'
        | (Fail, rx') \<Rightarrow> Some ([], rx')
        | (Got bs, rx') \<Rightarrow>
            (if bs = [] then Some ([], rx')
             else map_option (\<lambda>(cs, rx''). (bs @ cs, rx'')) (transferAll_reads fuel (len - length bs) rx')))"

fun transferAll_writes :: "nat \<Rightarrow> u8 list \<Rightarrow> wr_event list \<Rightarrow> (u8 list \<times> wr_event list) option" where
  "transferAll_writes 0 buf wr = (if buf = [] then Some ([], wr) else None)"
| "transferAll_writes (Suc fuel) buf wr =
     (if buf = [] then Some ([], wr)
      else case sock_write buf wr of
          (Intr, wr') \<Rightarrow> transferAll_writes fuel buf wr'
        | (Fail, wr') \<Rightarrow> Some ([], wr')
        | (Got bs, wr') \<Rightarrow>
            (if bs = [] then Some ([], wr')
             else map_option (\<lambda>(cs, wr''). (bs @ cs, wr'')) (transferAll_writes fuel (drop (length bs) buf) wr')))"

definition read_interrupts :: "rx_event list \<Rightarrow> nat" where
  "read_interrupts rx = length (filter (\<lambda>e. e = RxIntr) rx)"

definition write_interrupts :: "wr_event list \<Rightarrow> nat" where
  "write_interrupts wr = length (filter (\<lambda>e. e = WrIntr) wr)"

lemma sock_read_interrupts:
  "sock_read n rx = (Intr, rx') \<Longrightarrow> read_interrupts rx = Suc (read_interrupts rx')"
  "sock_read n rx = (Got bs, rx') \<Longrightarrow> read_interrupts rx' = read_interrupts rx"
  by (cases "(n, rx)" rule: sock_read.cases; auto simp: read_interrupts_def split: if_splits)+

lemma sock_write_interrupts:
  "sock_write bs wr = (Intr, wr') \<Longrightarrow> write_interrupts wr = Suc (write_interrupts wr')"
  "sock_write bs wr = (Got cs, wr') \<Longrightarrow> write_interrupts wr' = write_interrupts wr"
  by (cases "(bs, wr)" rule: sock_write.cases; auto simp: write_interrupts_def)+

lemma transferAll_reads_enough:
  "len + read_interrupts rx \<le> fuel \<Longrightarrow> transferAll_reads fuel len rx = Some (transferAll_read len rx)"
proof (induction fuel len rx rule: transferAll_reads.induct)
  case (1 len rx)
  then show ?case by (simp add: transferAll_read.simps)
next
  case (2 fuel len rx)
  show ?case
  proof (cases "len = 0")
    case True
    then show ?thesis by (simp add: transferAll_read.simps)
  next
    case False
    obtain r rx1 where sr: "sock_read len rx = (r, rx1)" by fastforce
    show ?thesis
    proof (cases r)
      case (Got bs)
      show ?thesis
      proof (cases "bs = []")
        case True
        then show ?thesis using False sr Got by (simp add: transferAll_read.simps [of len])
      next
        case ne: False
        then have "0 < length bs" "0 < len" using False by simp_all
        moreover have "read_interrupts rx1 = read_interrupts rx"
          using sock_read_interrupts(2) [of len rx bs rx1] sr Got by simp
        ultimately have "len - length bs + read_interrupts rx1 \<le> fuel"
          using "2.prems" by linarith
        then have "transferAll_reads fuel (len - length bs) rx1 = Some (transferAll_read (len - length bs) rx1)"
          by (rule "2.IH"(1) [OF False sr [symmetric] Got ne])
        then show ?thesis using False ne sr Got by (simp add: transferAll_read.simps [of len] split_def Let_def)
      qed
    next
      case Intr
      then have "len + read_interrupts rx1 \<le> fuel" using "2.prems" sock_read_interrupts(1) sr by fastforce
      then have "transferAll_reads fuel len rx1 = Some (transferAll_read len rx1)"
        by (rule "2.IH"(2) [OF False sr [symmetric] Intr])
      then show ?thesis using False sr Intr by (simp add: transferAll_read.simps [of len rx])
    next
      case Fail
      then show ?thesis using False sr by (simp add: transferAll_read.simps [of len])
    qed
  qed
qed

lemma transferAll_writes_enough:
  "length buf + write_interrupts wr \<le> fuel \<Longrightarrow> transferAll_writes fuel buf wr = Some (transferAll_write buf wr)"
proof (induction fuel buf wr rule: transferAll_writes.induct)
  case (1 buf wr)
  then show ?case by (simp add: transferAll_write.simps)
next
  case (2 fuel buf wr)
  show ?case
  proof (cases "buf = []")
    case True
    then show ?thesis by (simp add: transferAll_write.simps)
  next
    case False
    obtain r wr1 where sw: "sock_write buf wr = (r, wr1)" by fastforce
    show ?thesis
    proof (cases r)
      case (Got bs)
      show ?thesis
      proof (cases "bs = []")
        case True
        then show ?thesis using False sw Got by (simp add: transferAll_write.simps [of buf])
      next
        case ne: False
        then have "0 < length bs" "0 < length buf" using False by simp_all
        moreover have "write_interrupts wr1 = write_interrupts wr"
          using sock_write_interrupts(2) [of buf wr bs wr1] sw Got by simp
        ultimately have "length (drop (length bs) buf) + write_interrupts wr1 \<le> fuel"
          using "2.prems" unfolding length_drop by linarith
        then have "transferAll_writes fuel (drop (length bs) buf) wr1 = Some (transferAll_write (drop (length bs) buf) wr1)"
          by (rule "2.IH"(1) [OF False sw [symmetric] Got ne])
        then show ?thesis using False ne sw Got by (simp add: transferAll_write.simps [of buf] split_def Let_def)
      qed
    next
      case Intr
      then have "length buf + write_interrupts wr1 \<le> fuel"
        using "2.prems" sock_write_interrupts(1) [of buf wr wr1] sw by simp
      then have "transferAll_writes fuel buf wr1 = Some (transferAll_write buf wr1)"
        by (rule "2.IH"(2) [OF False sw [symmetric] Intr])
      then show ?thesis using False sw Intr by (simp add: transferAll_write.simps [of buf wr])
    next
      case Fail
      then show ?thesis using False sw by (simp add: transferAll_write.simps [of buf])
    qed
  qed
qed

section \<open>A connection\<close>

text \<open>The loop of \<open>handleIncomingConnection\<close> with at most \<open>fuel\<close> turns.\<close>

fun connection_turns ::
  "nat \<Rightarrow> 'w os \<Rightarrow> fdkdConnection_t \<Rightarrow> rx_event list \<Rightarrow> wr_event list \<Rightarrow> 'w sys \<Rightarrow>
   (fdkdConnection_t \<times> u8 list \<times> rx_event list \<times> wr_event list \<times> 'w sys) option" where
  "connection_turns 0 K c rx wr s = None"
| "connection_turns (Suc fuel) K c rx wr s =
     (case readPacket (cn_packet c) FDK_MAXSZ_PKT rx of
        (rByte, buf, rx1) \<Rightarrow>
          if rByte \<le> 0 then Some (c\<lparr>cn_packet := buf\<rparr>, [], rx1, wr, s)
          else
            (case handleRequestPacket K (c\<lparr>cn_packet := buf\<rparr>) (word_of_int rByte) s of
               (r, c1, s1) \<Rightarrow>
                 (case writePacket (cn_packet c1) wr of
                    (e, sent, wr1) \<Rightarrow>
                      if r = FDKD_REPLY_AND_CLOSE \<or> e \<noteq> 0 then Some (c1, sent, rx1, wr1, s1)
                      else map_option (\<lambda>(c2, sent2, rest). (c2, sent @ sent2, rest))
                             (connection_turns fuel K c1 rx1 wr1 s1))))"

lemma received_packet:
  assumes "length (cn_packet c) = FDK_MAXSZ_PKT" and "readPacket (cn_packet c) FDK_MAXSZ_PKT rx = (n, buf, rx1)" and "0 < n"
  shows "length (rx_flat rx) = nat n + length (rx_flat rx1)" "8 \<le> nat n" "conn_ok (c\<lparr>cn_packet := buf\<rparr>) (word_of_int n)"
proof -
  note u = readPacket_unfold [OF assms(1) _ assms(2)]
  obtain p where p: "next_frame FDK_MAXSZ_PKT (rx_flat rx) = Frame p" "n = int (length p)" "length buf = FDK_MAXSZ_PKT"
    "rx_flat rx1 = drop (length p) (rx_flat rx)"
    using u assms(3) by (cases "next_frame FDK_MAXSZ_PKT (rx_flat rx)") (auto simp: FDK_MAXSZ_PKT_def)
  note f = next_frame_Frame [OF p(1)]
  then have "length p \<le> length (rx_flat rx)" by (metis length_take min.cobounded1)
  then show "length (rx_flat rx) = nat n + length (rx_flat rx1)" using p by simp
  show "8 \<le> nat n" using f p(2) by simp
  show "conn_ok (c\<lparr>cn_packet := buf\<rparr>) (word_of_int n)"
    using f p(2,3) by (simp add: conn_ok_def FDK_MAXSZ_PKT_def unat_of_nat take_bit_nat_eq_self)
qed

lemma connection_turns_enough:
  "length (cn_packet c) = FDK_MAXSZ_PKT \<Longrightarrow> length (rx_flat rx) div 8 < fuel \<Longrightarrow>
    connection_turns fuel K c rx wr s = Some (connection_loop K c rx wr s)"
proof (induction fuel K c rx wr s rule: connection_turns.induct)
  case (1 K c rx wr s)
  then show ?case by simp
next
  case (2 fuel K c rx wr s)
  obtain n buf rx1 where r: "readPacket (cn_packet c) FDK_MAXSZ_PKT rx = (n, buf, rx1)" by (metis prod_cases3)
  show ?case
  proof (cases "n \<le> 0")
    case True
    then show ?thesis by (simp add: connection_loop.simps [of K c] r [simplified])
  next
    case pos: False
    let ?c = "c\<lparr>cn_packet := buf\<rparr>"
    obtain a c1 s1 where h: "handleRequestPacket K ?c (word_of_int n) s = (a, c1, s1)" by (metis prod_cases3)
    obtain e sent wr1 where w: "writePacket (cn_packet c1) wr = (e, sent, wr1)" by (metis prod_cases3)
    have "0 < n" using pos by simp
    note p = received_packet [OF "2.prems"(1) r this]
    have "length (cn_packet c1) = FDK_MAXSZ_PKT"
      using handleRequestPacket_valid [OF p(3), of K s] h by (auto simp: valid_response_def)
    moreover have "length (rx_flat rx1) div 8 < fuel" using p(1,2) "2.prems"(2) by simp
    ultimately have "connection_turns fuel K c1 rx1 wr1 s1 = Some (connection_loop K c1 rx1 wr1 s1)"
      if "\<not> (a = FDKD_REPLY_AND_CLOSE \<or> e \<noteq> 0)"
      using "2.IH" [OF r [symmetric] refl pos h [symmetric] refl w [symmetric] refl that] by blast
    then show ?thesis
      using pos by (simp add: connection_loop.simps [of K c] r [simplified] h w split_def)
  qed
qed

section \<open>Properties\<close>

text \<open>
  C11: no loop of the server spins. A transfer of \<open>len\<close> bytes is over after at most \<open>len\<close> calls and
  one for each interruption, in both directions; a connection's loop is over after at most one turn for
  each eight bytes it receives and one more, whatever the bytes are. The results are those of the
  loops without a count.
\<close>

theorem server_loops_bounded:
  "transferAll_reads (len + read_interrupts rx + k) len rx = Some (transferAll_read len rx) \<and>
   transferAll_writes (length buf + write_interrupts wr + k) buf wr = Some (transferAll_write buf wr) \<and>
   connection_turns (length (rx_flat rx) div 8 + 1 + k) K ((new_connection cfd diskPath)\<lparr>cn_memfd := memfd\<rparr>) rx wr s =
     Some (connection_loop K ((new_connection cfd diskPath)\<lparr>cn_memfd := memfd\<rparr>) rx wr s)"
proof (intro conjI)
  show "transferAll_reads (len + read_interrupts rx + k) len rx = Some (transferAll_read len rx)"
    by (rule transferAll_reads_enough) simp
  show "transferAll_writes (length buf + write_interrupts wr + k) buf wr = Some (transferAll_write buf wr)"
    by (rule transferAll_writes_enough) simp
  show "connection_turns (length (rx_flat rx) div 8 + 1 + k) K ((new_connection cfd diskPath)\<lparr>cn_memfd := memfd\<rparr>) rx wr s =
     Some (connection_loop K ((new_connection cfd diskPath)\<lparr>cn_memfd := memfd\<rparr>) rx wr s)"
    by (rule connection_turns_enough) (simp_all add: new_connection_def)
qed

end
