(* ===== verification/Request_Exec.thy ===== *)
theory Request_Exec
  imports Handler_Contract
begin

text \<open>
  The client's side of \<open>lib/packet.c\<close>: \<open>verifyResponsePacket\<close>, \<open>fillPayload\<close> and \<open>executeFunction\<close>,
  which builds a request, sends it and waits for the response.
\<close>

section \<open>Requests and responses\<close>

definition verifyResponsePacket :: "u8 list \<Rightarrow> fdkOpCode_t \<Rightarrow> s32" where
  "verifyResponsePacket pkt op =
     (let rsp = hdr_opCode pkt
      in if rsp = op_code FDK_RSP_NACK \<or> rsp = op_code FDK_RSP_CPU_EXCEPTION then 1
         else if op < FDK_REQ_CONNECT \<or> op > FDK_REQ_E820_LIST \<or> even (op_num op) then 1
         else if unat rsp = op_num op + 1 then 0 else 1)"

text \<open>The packet length, 0 when the payload is missing, empty or too large, and the buffer.\<close>

definition fillPayload :: "u8 list \<Rightarrow> nat \<Rightarrow> u8 list option \<Rightarrow> u32 \<Rightarrow> nat \<times> u8 list" where
  "fillPayload pktBuf offset payload sz =
     (case payload of
        None \<Rightarrow> (0, pktBuf)
      | Some bs \<Rightarrow>
          (if sz = 0 \<or> unat sz > FDK_MAXSZ_PKT - offset then (0, pktBuf)
           else (offset + unat sz, blit offset (take (unat sz) bs) pktBuf)))"

text \<open>The \<open>switch\<close> of \<open>executeFunction\<close>: the length and the buffer, or nothing for another code.\<close>

definition build_request ::
  "fdkOpCode_t \<Rightarrow> u64 \<Rightarrow> u32 \<Rightarrow> u8 list option \<Rightarrow> u8 list \<Rightarrow> (nat \<times> u8 list) option" where
  "build_request op addr sz cntBuf pkt =
     (case op of
        FDK_REQ_CONNECT \<Rightarrow> Some (sizeof fdkCommHdr_t, pkt)
      | FDK_REQ_DISCONNECT \<Rightarrow> Some (sizeof fdkCommHdr_t, pkt)
      | FDK_REQ_MEM_READ \<Rightarrow>
          Some (sizeof fdkReqMemReadPkt_t,
            put32 (offsetof fdkReqMemReadPkt_t ''size'') sz
              (put64 (offsetof fdkReqMemReadPkt_t ''address'') addr pkt))
      | FDK_REQ_MEM_WRITE \<Rightarrow>
          Some (fillPayload (put32 (offsetof fdkReqMemWritePkt_t ''size'') sz
              (put64 (offsetof fdkReqMemWritePkt_t ''address'') addr pkt))
            (offsetof fdkReqMemWritePkt_t ''memContent'') cntBuf sz)
      | FDK_REQ_IO_READ \<Rightarrow>
          Some (sizeof fdkReqIoReadPkt_t,
            put32 (offsetof fdkReqIoReadPkt_t ''size'') sz
              (put16 (offsetof fdkReqIoReadPkt_t ''address'') (ucast addr) pkt))
      | FDK_REQ_IO_WRITE \<Rightarrow>
          Some (fillPayload (put32 (offsetof fdkReqIoWritePkt_t ''size'') sz
              (put16 (offsetof fdkReqIoWritePkt_t ''address'') (ucast addr) pkt))
            (offsetof fdkReqIoWritePkt_t ''ioContent'') cntBuf sz)
      | FDK_REQ_PCI_READ \<Rightarrow>
          Some (sizeof fdkReqPciReadPkt_t,
            put16 (offsetof fdkReqPciReadPkt_t ''size'') (ucast sz)
              (put32 (offsetof fdkReqPciReadPkt_t ''address'') (ucast addr) pkt))
      | FDK_REQ_PCI_WRITE \<Rightarrow>
          Some (fillPayload (put16 (offsetof fdkReqPciWritePkt_t ''size'') (ucast sz)
              (put32 (offsetof fdkReqPciWritePkt_t ''address'') (ucast addr) pkt))
            (offsetof fdkReqPciWritePkt_t ''pciContent'') cntBuf sz)
      | FDK_REQ_IDE_READ \<Rightarrow>
          Some (sizeof fdkReqIdeReadPkt_t,
            put32 (offsetof fdkReqIdeReadPkt_t ''size'') sz
              (put64 (offsetof fdkReqIdeReadPkt_t ''address'') addr pkt))
      | FDK_REQ_IDE_WRITE \<Rightarrow>
          Some (fillPayload (put32 (offsetof fdkReqIdeWritePkt_t ''size'') sz
              (put64 (offsetof fdkReqIdeWritePkt_t ''address'') addr pkt))
            (offsetof fdkReqIdeWritePkt_t ''ideContent'') cntBuf sz)
      | FDK_REQ_CMOS_READ \<Rightarrow>
          Some (sizeof fdkReqCmosReadPkt_t,
            put8 (offsetof fdkReqCmosReadPkt_t ''size'') (ucast sz)
              (put8 (offsetof fdkReqCmosReadPkt_t ''address'') (ucast addr) pkt))
      | FDK_REQ_CMOS_WRITE \<Rightarrow>
          Some (fillPayload (put8 (offsetof fdkReqCmosWritePkt_t ''size'') (ucast sz)
              (put8 (offsetof fdkReqCmosWritePkt_t ''address'') (ucast addr) pkt))
            (offsetof fdkReqCmosWritePkt_t ''cmosContent'') cntBuf sz)
      | FDK_REQ_PCI_LIST \<Rightarrow> Some (sizeof fdkReqPciListPkt_t, pkt)
      | FDK_REQ_E820_LIST \<Rightarrow> Some (sizeof fdkReqE820ListPkt_t, pkt)
      | _ \<Rightarrow> None)"

definition finish_request :: "fdkOpCode_t \<Rightarrow> nat \<Rightarrow> u8 list \<Rightarrow> u8 list" where
  "finish_request op len pkt =
     put32 (offsetof fdkCommHdr_t ''pktLen'') (word_of_nat len)
       (put16 (offsetof fdkCommHdr_t ''opCode'') (op_code op) pkt)"

section \<open>executeFunction\<close>

text \<open>A connected socket: the outcomes of its reads and writes, and the bytes sent so far.\<close>

record channel =
  ch_rx :: "rx_event list"
  ch_wr :: "wr_event list"
  ch_tx :: "u8 list"

text \<open>
  A write to a connection the other end has closed raises \<open>SIGPIPE\<close>. \<open>fdkd\<close> ignores it and goes on with the
  error, as \<open>executeFunction\<close> does below. \<open>cfdk\<close> and \<open>memvr\<close> do not: their process ends in the call that
  makes such a write. \<open>sigpipe ch ch'\<close> says that the writes between two states of a channel had one.
\<close>

definition sigpipe :: "channel \<Rightarrow> channel \<Rightarrow> bool" where
  "sigpipe ch ch' \<longleftrightarrow> WrPipe \<in> set (take (length (ch_wr ch) - length (ch_wr ch')) (ch_wr ch))"

definition executeFunction ::
  "fdkOpCode_t \<Rightarrow> u64 \<Rightarrow> u32 \<Rightarrow> u8 list option \<Rightarrow> u8 list \<Rightarrow> nat \<Rightarrow> channel \<Rightarrow> s32 \<times> u8 list \<times> channel" where
  "executeFunction op addr sz cntBuf pktBuf lenPktBuf ch =
     (if lenPktBuf < FDK_MAXSZ_PKT then (1, pktBuf, ch)
      else
        let pkt0 = blit 0 (replicate lenPktBuf 0) pktBuf
        in case build_request op addr sz cntBuf pkt0 of
            None \<Rightarrow> (1, pkt0, ch)
          | Some (len, pkt1) \<Rightarrow>
              if len = 0 then (1, pkt1, ch)
              else
                let pkt2 = finish_request op len pkt1;
                    (e, sent, wr) = writePacket pkt2 (ch_wr ch);
                    ch1 = ch\<lparr>ch_wr := wr, ch_tx := ch_tx ch @ sent\<rparr>
                in if e \<noteq> 0 then (1, pkt2, ch1)
                   else
                     let (n, pkt3, rx) = readPacket pkt2 lenPktBuf (ch_rx ch1);
                         ch2 = ch1\<lparr>ch_rx := rx\<rparr>
                     in if n \<le> 0 then (1, pkt3, ch2)
                        else (verifyResponsePacket pkt3 op, pkt3, ch2))"

lemma sigpipe_pending: "sigpipe ch ch' \<Longrightarrow> WrPipe \<in> set (ch_wr ch)"
  by (auto simp: sigpipe_def dest: in_set_takeD)

lemma not_sigpipe: "list_all wr_ok (ch_wr ch) \<Longrightarrow> \<not> sigpipe ch ch'"
  by (fastforce simp: list_all_iff dest: sigpipe_pending)

lemma executeFunction_wr:
  "executeFunction op addr sz cntBuf pktBuf lenPktBuf ch = (e, buf, ch') \<Longrightarrow> suffix (ch_wr ch') (ch_wr ch)"
  using writePacket_suffix
  by (auto simp: executeFunction_def Let_def split: if_split_asm option.split_asm prod.split_asm)

section \<open>Which responses are accepted\<close>

text \<open>The requests are the odd codes up to the last listing; their response is the next code.\<close>

definition is_request :: "fdkOpCode_t \<Rightarrow> bool" where
  "is_request op \<longleftrightarrow> odd (op_num op) \<and> op_num op < 29"

lemma is_request_cases:
  "is_request op \<longleftrightarrow> op \<in> {FDK_REQ_CONNECT, FDK_REQ_DISCONNECT, FDK_REQ_MEM_READ, FDK_REQ_MEM_WRITE,
     FDK_REQ_IO_READ, FDK_REQ_IO_WRITE, FDK_REQ_PCI_READ, FDK_REQ_PCI_WRITE, FDK_REQ_IDE_READ,
     FDK_REQ_IDE_WRITE, FDK_REQ_CMOS_READ, FDK_REQ_CMOS_WRITE, FDK_REQ_PCI_LIST, FDK_REQ_E820_LIST}"
  by (cases op) (simp_all add: is_request_def)

lemma verifyResponsePacket_iff:
  "verifyResponsePacket pkt op = 0 \<longleftrightarrow> is_request op \<and> unat (hdr_opCode pkt) = op_num op + 1"
proof -
  have c: "hdr_opCode pkt = op_code q \<longleftrightarrow> unat (hdr_opCode pkt) = op_num q" for q
    by (metis unat_op_code word_unat_eq_iff)
  show ?thesis
    by (auto simp: verifyResponsePacket_def is_request_def less_fdkOpCode_t_def c Let_def)
qed

section \<open>Building requests\<close>

lemma fillPayload_length:
  assumes "fillPayload pkt off cnt sz = (len, pkt')" and "length pkt = FDK_MAXSZ_PKT"
    and "\<forall>bs. cnt = Some bs \<longrightarrow> length bs = unat sz" and "off \<le> FDK_MAXSZ_PKT"
  shows "length pkt' = FDK_MAXSZ_PKT \<and> len \<le> FDK_MAXSZ_PKT \<and> (len \<noteq> 0 \<longrightarrow> off \<le> len)"
  using assms by (auto simp: fillPayload_def split: option.splits if_splits)

lemma build_request_bounds:
  assumes "build_request op addr sz cnt pkt = Some (len, pkt')" and "length pkt = FDK_MAXSZ_PKT"
    and "\<forall>bs. cnt = Some bs \<longrightarrow> length bs = unat sz"
  shows "length pkt' = FDK_MAXSZ_PKT \<and> len \<le> FDK_MAXSZ_PKT \<and> (len \<noteq> 0 \<longrightarrow> 8 \<le> len) \<and> is_request op"
  using assms fillPayload_length
  by (cases op) (fastforce simp: build_request_def layout is_request_def)+

lemma finish_request_eq:
  assumes "length pkt = FDK_MAXSZ_PKT"
  shows "finish_request op len pkt = le_bytes 2 (unat (op_code op)) @ bytes_at 2 2 pkt @
    le_bytes 4 (unat (word_of_nat len :: u32)) @ drop 8 pkt"
  using assms
  by (simp add: finish_request_def put_defs blit_def bytes_at_def layout min_def numeral_2_eq_2
      drop_take del: le_bytes.simps unat_op_code)

lemma finish_request_facts:
  assumes "length pkt = FDK_MAXSZ_PKT" and "len \<le> FDK_MAXSZ_PKT"
  shows "length (finish_request op len pkt) = FDK_MAXSZ_PKT"
    "hdr_opCode (finish_request op len pkt) = op_code op"
    "unat (hdr_pktLen (finish_request op len pkt)) = len"
    "8 \<le> p \<Longrightarrow> bytes_at p n (finish_request op len pkt) = bytes_at p n pkt"
proof -
  have 4: "length (bytes_at 2 2 pkt) = 2" using assms(1) by simp
  have "unat (word_of_nat len :: u32) = len"
    using assms(2) by (simp add: unat_of_nat take_bit_nat_eq_self)
  then show "unat (hdr_pktLen (finish_request op len pkt)) = len"
    unfolding finish_request_eq [OF assms(1)]
    using assms by (simp add: hdr_defs layout get_defs bytes_at_append_skip bytes_at_append_here
        le_nat_le_bytes del: le_bytes.simps)
  show "hdr_opCode (finish_request op len pkt) = op_code op"
    unfolding finish_request_eq [OF assms(1)]
    by (simp add: hdr_defs layout get_defs bytes_at_append_here word_of_le_bytes
        del: le_bytes.simps unat_op_code)
  show "length (finish_request op len pkt) = FDK_MAXSZ_PKT"
    unfolding finish_request_eq [OF assms(1)] using assms(1) 4 by simp
  show "bytes_at p n (finish_request op len pkt) = bytes_at p n pkt" if "8 \<le> p"
    unfolding finish_request_eq [OF assms(1)] using that assms(1)
    by (simp add: bytes_at_def del: le_bytes.simps)
qed

text \<open>The bytes a request puts on the wire.\<close>

definition request_bytes :: "fdkOpCode_t \<Rightarrow> u64 \<Rightarrow> u32 \<Rightarrow> u8 list option \<Rightarrow> u8 list" where
  "request_bytes op addr sz cntBuf =
     (case build_request op addr sz cntBuf (replicate FDK_MAXSZ_PKT 0) of
        None \<Rightarrow> []
      | Some (len, pkt) \<Rightarrow> take len (finish_request op len pkt))"

lemma request_bytes_ok:
  assumes "build_request op addr sz cnt (replicate FDK_MAXSZ_PKT 0) = Some (len, pkt)" and "len \<noteq> 0"
    and "\<forall>bs. cnt = Some bs \<longrightarrow> length bs = unat sz"
  shows "packet_ok (request_bytes op addr sz cnt)" "length (request_bytes op addr sz cnt) = len"
    "hdr_opCode (request_bytes op addr sz cnt) = op_code op"
    "8 \<le> p \<Longrightarrow> p + n \<le> len \<Longrightarrow> bytes_at p n (request_bytes op addr sz cnt) = bytes_at p n pkt"
proof -
  have b: "length pkt = FDK_MAXSZ_PKT" "len \<le> FDK_MAXSZ_PKT" "8 \<le> len"
    using build_request_bounds [OF assms(1) _ assms(3)] assms(2) by simp_all
  note f = finish_request_facts [OF b(1,2), where op = op]
  have r: "request_bytes op addr sz cnt = take len (finish_request op len pkt)"
    by (simp add: request_bytes_def assms(1) [simplified])
  show len: "length (request_bytes op addr sz cnt) = len" using f(1) b(2) by (simp add: r)
  have tk: "take len (request_bytes op addr sz cnt) = take len (finish_request op len pkt)"
    by (simp add: r)
  show "hdr_opCode (request_bytes op addr sz cnt) = op_code op"
    using hdr_cong_take(1) [OF tk b(3)] f(2) by simp
  show "packet_ok (request_bytes op addr sz cnt)"
    using hdr_cong_take(3) [OF tk b(3)] f(3) b len by (simp add: packet_ok_def)
  show "bytes_at p n (request_bytes op addr sz cnt) = bytes_at p n pkt" if "8 \<le> p" "p + n \<le> len"
    using bytes_at_cong_take [OF tk that(2)] f(4) [OF that(1)] by simp
qed

section \<open>An exchange\<close>

text \<open>
  With a working connection, \<open>executeFunction\<close> sends exactly the request, receives exactly one
  response, and its result is the verdict on the response's code.
\<close>

lemma executeFunction_exchange:
  assumes "build_request op addr sz cnt (replicate FDK_MAXSZ_PKT 0) = Some (len, pkt)" and "len \<noteq> 0"
    and "\<forall>bs. cnt = Some bs \<longrightarrow> length bs = unat sz"
    and "length pktBuf = FDK_MAXSZ_PKT" and "list_all wr_ok (ch_wr ch)"
    and "rx_flat (ch_rx ch) = out @ rest" and "packet_ok out"
  shows "\<exists>buf rx wr. executeFunction op addr sz cnt pktBuf FDK_MAXSZ_PKT ch =
      (verifyResponsePacket out op, buf,
       ch\<lparr>ch_rx := rx, ch_wr := wr, ch_tx := ch_tx ch @ request_bytes op addr sz cnt\<rparr>) \<and>
    take (length out) buf = out \<and> length buf = FDK_MAXSZ_PKT \<and>
    rx_flat rx = rest \<and> list_all wr_ok wr"
proof -
  have b: "length pkt = FDK_MAXSZ_PKT" "len \<le> FDK_MAXSZ_PKT" "8 \<le> len"
    using build_request_bounds [OF assms(1) _ assms(3)] assms(2) by simp_all
  let ?q = "finish_request op len pkt"
  note f = finish_request_facts [OF b(1,2), where op = op]
  have rq: "request_bytes op addr sz cnt = response ?q"
    by (simp add: request_bytes_def assms(1) [simplified] response_def f(3))
  obtain wr where w: "writePacket ?q (ch_wr ch) = (0, response ?q, wr)" "list_all wr_ok wr"
    using writePacket_all [OF assms(5), of ?q] f(1,3) b(2) by (auto simp: response_def)
  obtain rx where r: "readPacket ?q FDK_MAXSZ_PKT (ch_rx ch) =
      (int (length out), out @ drop (length out) ?q, rx)" "rx_flat rx = rest"
    using framing.rd_packet [OF f(1) assms(7,6)] by blast
  have pos: "8 \<le> length out" "length out \<le> FDK_MAXSZ_PKT" using assms(7) by (simp_all add: packet_ok_def)
  have v: "verifyResponsePacket (out @ drop (length out) ?q) op = verifyResponsePacket out op"
    using pos by (simp add: verifyResponsePacket_def hdr_opCode_def layout get_append)
  have z: "blit 0 (replicate FDK_MAXSZ_PKT 0) pktBuf = replicate FDK_MAXSZ_PKT 0"
    using assms(4) by (simp add: blit_full)
  have nz: "out \<noteq> []" using pos by auto
  show ?thesis
    using r(2) w(2) pos f(1) nz assms(2)
    by (intro exI [of _ "out @ drop (length out) ?q"] exI [of _ rx] exI [of _ wr])
      (simp add: executeFunction_def z [simplified] assms(1) [simplified] w(1) r(1) [simplified] rq v Let_def)
qed

text \<open>Whatever the other end does, only a prefix of the request is sent, and the buffer keeps its size.\<close>

lemma executeFunction_any:
  assumes "build_request op addr sz cnt (replicate FDK_MAXSZ_PKT 0) = Some (len, pkt)" and "len \<noteq> 0"
    and "\<forall>bs. cnt = Some bs \<longrightarrow> length bs = unat sz" and "length pktBuf = FDK_MAXSZ_PKT"
  shows "\<exists>e buf rx wr k. executeFunction op addr sz cnt pktBuf FDK_MAXSZ_PKT ch =
      (e, buf, ch\<lparr>ch_rx := rx, ch_wr := wr, ch_tx := ch_tx ch @ take k (request_bytes op addr sz cnt)\<rparr>) \<and>
    length buf = FDK_MAXSZ_PKT"
proof -
  have b: "length pkt = FDK_MAXSZ_PKT" "len \<le> FDK_MAXSZ_PKT"
    using build_request_bounds [OF assms(1) _ assms(3)] assms(2) by simp_all
  let ?q = "finish_request op len pkt"
  note f = finish_request_facts [OF b, where op = op]
  have rq: "request_bytes op addr sz cnt = response ?q"
    by (simp add: request_bytes_def assms(1) [simplified] response_def f(3))
  obtain e sent wr where w: "writePacket ?q (ch_wr ch) = (e, sent, wr)" by (metis prod_cases3)
  have "\<exists>k. sent = take k (response ?q)"
    using transferAll_write_prefix [of "response ?q" "ch_wr ch"] w
    by (auto simp: writePacket_def response_def Let_def split: prod.splits)
  then obtain k where k: "sent = take k (request_bytes op addr sz cnt)" by (auto simp: rq)
  have z: "blit 0 (replicate FDK_MAXSZ_PKT 0) pktBuf = replicate FDK_MAXSZ_PKT 0"
    using assms(4) by (simp add: blit_full)
  obtain n buf rx where r: "readPacket ?q FDK_MAXSZ_PKT (ch_rx ch) = (n, buf, rx)" by (metis prod_cases3)
  have buf: "length buf = FDK_MAXSZ_PKT" using readPacket_unfold [OF f(1) _ r] by simp
  show ?thesis
  proof (cases "e = 0")
    case False
    then have "executeFunction op addr sz cnt pktBuf FDK_MAXSZ_PKT ch =
        (1, ?q, ch\<lparr>ch_rx := ch_rx ch, ch_wr := wr, ch_tx := ch_tx ch @ sent\<rparr>)"
      using assms(2) by (simp add: executeFunction_def z [simplified] assms(1) [simplified] w Let_def)
    then show ?thesis using k f(1) by blast
  next
    case True
    then have "\<exists>e'. executeFunction op addr sz cnt pktBuf FDK_MAXSZ_PKT ch =
        (e', buf, ch\<lparr>ch_rx := rx, ch_wr := wr, ch_tx := ch_tx ch @ sent\<rparr>)"
      using assms(2) r [simplified] by (simp add: executeFunction_def z [simplified] assms(1) [simplified] w Let_def)
    then show ?thesis using k buf by blast
  qed
qed

end
