(* ===== verification/Lib_Comm.thy ===== *)
theory Lib_Comm
  imports C_Text "HOL-Library.Monad_Syntax"
begin

unbundle bit_operations_syntax

text \<open>
  Command-line numbers and the bit display, \<open>lib/libcomm.c\<close>.
\<close>

section \<open>Numbers\<close>

text \<open>
  \<open>parseHex (buf, end, val)\<close>: \<open>end\<close> is a position in the string, \<open>None\<close> for the null pointer. The
  result is the verdict and the value stored, which keeps \<open>val\<close> when the token is refused early.
\<close>

definition parseHex :: "string \<Rightarrow> nat option \<Rightarrow> u64 \<Rightarrow> bool \<times> u64" where
  "parseHex buf end' val =
     (let len = (case end' of Some e \<Rightarrow> e | None \<Rightarrow> length buf)
      in if len < 3 \<or> len > 18 \<or> buf ! 0 \<noteq> CHR ''0'' \<or>
            (of_char (buf ! 1) OR 0x20 :: nat) \<noteq> of_char (CHR ''x'') then (False, val)
         else let (v, stop) = strtoull (drop 2 buf) 16 in (2 + stop = len, v))"

definition ParseOneParameter :: "string \<Rightarrow> u64 \<Rightarrow> bool \<times> u64" where
  "ParseOneParameter buf first = parseHex buf None first"

text \<open>\<open>strchr (buf, '/')\<close>.\<close>

definition strchr :: "string \<Rightarrow> char \<Rightarrow> nat option" where
  "strchr buf c = (if c \<in> set buf then Some (length (takeWhile (\<lambda>d. d \<noteq> c) buf)) else None)"

text \<open>The second value is only stored when the first one was accepted.\<close>

definition ParseTwoParameters :: "string \<Rightarrow> u64 \<Rightarrow> u64 \<Rightarrow> bool \<times> u64 \<times> u64" where
  "ParseTwoParameters buf first second =
     (case strchr buf (CHR ''/'') of
        None \<Rightarrow> (False, first, second)
      | Some sep \<Rightarrow>
          (let (ok1, v1) = parseHex buf (Some sep) first
           in if \<not> ok1 then (False, v1, second)
              else let (ok2, v2) = parseHex (drop (Suc sep) buf) None second in (ok2, v1, v2)))"

section \<open>Bits\<close>

definition FDK_GET_BIT :: "u32 \<Rightarrow> nat \<Rightarrow> nat" where
  "FDK_GET_BIT value b = unat (drop_bit b value AND 1)"

definition bit_cell :: "u32 \<Rightarrow> nat \<Rightarrow> string" where
  "bit_cell value b =
     '' '' @ [if FDK_GET_BIT value b = 1 then CHR ''1'' else CHR ''0''] @
     (if b = 0 then [CHR 0x0A] else if b mod 8 \<noteq> 0 then '' '' else ''|'')"

definition DisplayInBits :: "u32 \<Rightarrow> string" where
  "DisplayInBits value =
     [CHR 0x0A] @ replicate 95 (CHR ''='') @ [CHR 0x0A] @
     ''31 30 29 28 27 26 25 24|23 22 21 20 19 18 17 16|15 14 13 12 11 10 09 08|07 06 05 04 03 02 01 00'' @
     [CHR 0x0A] @ replicate 95 (CHR ''-'') @ [CHR 0x0A] @
     concat (map (bit_cell value) (rev [0..<32])) @
     replicate 95 (CHR ''='') @ [CHR 0x0A, CHR 0x0A]"

section \<open>Properties\<close>

lemma length_fmt_X_le: "v < 16 ^ 16 \<Longrightarrow> p \<le> 16 \<Longrightarrow> length (fmt_X p v) \<le> 16"
  using length_hex_digits [of v 15] by (simp add: fmt_X_def Let_def) arith

lemma unat_lt_16_16: "unat (v :: u64) < 16 ^ 16"
  using unsigned_less [of v, where ?'a = nat] by simp

lemma strtoull_fmt_X:
  assumes "0 < p" and "p \<le> 16" and "rest = [] \<or> rest = CHR ''/'' # r"
  shows "strtoull (fmt_X p (unat (v :: u64)) @ rest) 16 = (v, length (fmt_X p (unat v)))"
proof -
  note d = fmt_X_digits [OF assms(1), of "unat v"]
  have "\<not> isxdigit (CHR ''/'')" by (simp add: isxdigit_def isdigit_def char_in_def)
  then have "strtoull (fmt_X p (unat v) @ rest) 16 =
      (word_of_nat (digits_value 16 (fmt_X p (unat v))), length (fmt_X p (unat v)))"
    using d assms length_fmt_X_le [OF unat_lt_16_16]
    by (intro strtoull_hex_digits) auto
  with d show ?thesis by simp
qed

lemma x_char: "(of_char (CHR ''x'') OR 0x20 :: nat) = of_char (CHR ''x'')"
  by simp

lemma parseHex_fmt:
  assumes "0 < p" and "p \<le> 16"
  shows "parseHex (''0x'' @ fmt_X p (unat v)) None a = (True, v)"
    "parseHex (''0x'' @ fmt_X p (unat v) @ ''/'' @ r) (Some (2 + length (fmt_X p (unat v)))) a = (True, v)"
proof -
  have n: "0 < length (fmt_X p (unat v))" "length (fmt_X p (unat v)) \<le> 16"
    using fmt_X_digits [OF assms(1), of "unat v"] length_fmt_X_le [OF unat_lt_16_16 assms(2)] by auto
  show "parseHex (''0x'' @ fmt_X p (unat v)) None a = (True, v)"
    using n strtoull_fmt_X [OF assms, of "[]"] by (simp add: parseHex_def Let_def)
  show "parseHex (''0x'' @ fmt_X p (unat v) @ ''/'' @ r) (Some (2 + length (fmt_X p (unat v)))) a = (True, v)"
    using n strtoull_fmt_X [OF assms, of "''/'' @ r" r] by (simp add: parseHex_def Let_def)
qed

lemma ParseTwoParameters_fmt:
  assumes "0 < p" and "p \<le> 16" and "0 < q" and "q \<le> 16"
  shows "ParseOneParameter (''0x'' @ fmt_X p (unat v)) a = (True, v) \<and>
    ParseTwoParameters (''0x'' @ fmt_X p (unat v) @ ''/'' @ ''0x'' @ fmt_X q (unat w)) a b = (True, v, w)"
proof -
  let ?t = "''0x'' @ fmt_X p (unat v)" and ?u = "''0x'' @ fmt_X q (unat w)"
  have sl: "CHR ''/'' \<notin> set ?t"
    using fmt_X_digits [OF assms(1), of "unat v"] by (auto simp: isxdigit_def isdigit_def char_in_def)
  then have tw: "takeWhile (\<lambda>d. d \<noteq> CHR ''/'') (?t @ ''/'' @ ?u) = ?t"
    by (subst takeWhile_append2) auto
  have sc: "strchr (?t @ ''/'' @ ?u) (CHR ''/'') = Some (2 + length (fmt_X p (unat v)))"
    by (simp only: strchr_def tw) simp
  have "ParseTwoParameters (?t @ ''/'' @ ?u) a b = (True, v, w)"
    unfolding ParseTwoParameters_def sc
    using parseHex_fmt(2) [OF assms(1,2), of v ?u] parseHex_fmt(1) [OF assms(3,4), of w] by simp
  then show ?thesis
    using parseHex_fmt(1) [OF assms(1,2)] by (simp add: ParseOneParameter_def)
qed

text \<open>
  C40: every address and value printed in the programs' own notation, \<open>0x\<close> and one to sixteen
  hexadecimal digits, is read back, alone and as a pair.
\<close>

theorem ParseTwoParameters_round_trip:
  assumes "0 < p" and "p \<le> 16" and "0 < q" and "q \<le> 16"
  shows "ParseOneParameter (''0x'' @ fmt_X p (unat v)) a = (True, v) \<and>
    ParseTwoParameters (''0x'' @ fmt_X p (unat v) @ ''/'' @ ''0x'' @ fmt_X q (unat w)) a b = (True, v, w)"
  by (rule ParseTwoParameters_fmt [OF assms])

theorem ParseTwoParameters_round_trip_witness:
  "ParseOneParameter (''0x'' @ fmt_X 8 (unat (0xFED00000 :: u64))) 0 = (True, 0xFED00000) \<and>
   ParseTwoParameters (''0x'' @ fmt_X 8 (unat (0xFED00000 :: u64)) @ ''/'' @ ''0x'' @
     fmt_X 1 (unat (0x10 :: u64))) 0 0 = (True, 0xFED00000, 0x10)"
  by (rule ParseTwoParameters_round_trip) simp_all

text \<open>
  The token grammar is wider than announced: \<open>strtoull\<close> after the prefix also takes white space,
  a sign or a second prefix, so \<open>0x-1\<close> is accepted as the highest address of all.
\<close>

theorem parseHex_accepts_sign:
  "ParseOneParameter ''0x-1'' a = (True, 0xFFFFFFFFFFFFFFFF) \<and>
   ParseOneParameter ''0x 12'' a = (True, 0x12) \<and> ParseOneParameter ''0x0x12'' a = (True, 0x12)"
  by (simp add: ParseOneParameter_def parseHex_def strtoull_def isspace_def char_in_def sign_prefix_def
      radix_prefix_def isxdigit_def isdigit_def digits_value_def digit_val_def split_def Let_def)

end
