(* ===== verification/Client_Session.thy ===== *)
theory Client_Session
  imports Request_Exec Fdkd_Server Phys_Memory
begin

text \<open>
  A client and a server at the two ends of a connection: what \<open>executeFunction\<close> returns when the
  other end is the server, and what the two memory requests do to the machine. Both clients,
  \<open>memvr\<close> and \<open>cfdk\<close>, build on it.
\<close>

section \<open>A connected client\<close>

text \<open>
  The packet buffer and the channel of a client whose remaining requests are \<open>ps\<close>: what it will read
  is what the server answers to them.
\<close>

definition connected ::
  "'w os \<Rightarrow> s32 \<Rightarrow> string option \<Rightarrow> u8 list list \<Rightarrow> u8 list \<Rightarrow> channel \<Rightarrow> 'w sys \<Rightarrow> bool" where
  "connected K memfd dev ps pktBuf ch s \<longleftrightarrow>
     length pktBuf = FDK_MAXSZ_PKT \<and> list_all wr_ok (ch_wr ch) \<and>
     (\<exists>rest. rx_flat (ch_rx ch) = fst (serve_spec K memfd dev ps s) @ rest)"

lemma answer_packet_ok:
  assumes "packet_ok p" and "answer_packet K memfd dev p s = (r, out, s')"
  shows "packet_ok out"
proof -
  let ?c = "\<lparr>cn_cfd = 0, cn_memfd = memfd, cn_diskPath = dev, cn_packet = fresh_buffer p\<rparr>"
  let ?n = "word_of_int (int (length p)) :: u32"
  have p: "8 \<le> length p" "length p \<le> FDK_MAXSZ_PKT" using assms(1) by (simp_all add: packet_ok_def)
  then have n: "unat ?n = length p" by (simp add: unat_of_nat take_bit_nat_eq_self)
  have ok: "conn_ok ?c ?n" using p n by (simp add: conn_ok_def fresh_buffer_def)
  show ?thesis
    using handleRequestPacket_valid [OF ok, of K s] assms(2) n
    by (auto simp: answer_packet_def handleRequestPacket_def split: prod.splits)
qed

lemma executeFunction_answered:
  assumes "connected K memfd dev (request_bytes op addr sz cnt # ps) pktBuf ch s"
    and "build_request op addr sz cnt (replicate FDK_MAXSZ_PKT 0) = Some (len, pkt)" and "len \<noteq> 0"
    and "\<forall>bs. cnt = Some bs \<longrightarrow> length bs = unat sz"
    and "answer_packet K memfd dev (request_bytes op addr sz cnt) s = (r, out, s')"
  shows "\<exists>buf ch'. executeFunction op addr sz cnt pktBuf FDK_MAXSZ_PKT ch =
      (verifyResponsePacket out op, buf, ch') \<and> take (length out) buf = out \<and>
    (r = FDKD_REPLY \<longrightarrow> connected K memfd dev ps buf ch' s') \<and>
    ch_tx ch' = ch_tx ch @ request_bytes op addr sz cnt"
proof -
  have out: "packet_ok out"
    using answer_packet_ok [OF request_bytes_ok(1) [OF assms(2-4)] assms(5)] .
  let ?more = "if r = FDKD_REPLY_AND_CLOSE then [] else fst (serve_spec K memfd dev ps s')"
  obtain rest where rx: "rx_flat (ch_rx ch) = out @ ?more @ rest"
    using assms(1,5) by (auto simp: connected_def split: prod.splits if_splits)
  have c: "length pktBuf = FDK_MAXSZ_PKT" "list_all wr_ok (ch_wr ch)"
    using assms(1) by (simp_all add: connected_def)
  obtain buf rx' wr' where e: "executeFunction op addr sz cnt pktBuf FDK_MAXSZ_PKT ch =
      (verifyResponsePacket out op, buf,
       ch\<lparr>ch_rx := rx', ch_wr := wr', ch_tx := ch_tx ch @ request_bytes op addr sz cnt\<rparr>)"
    "take (length out) buf = out" "length buf = FDK_MAXSZ_PKT"
    "rx_flat rx' = ?more @ rest" "list_all wr_ok wr'"
    using executeFunction_exchange [OF assms(2-4) c rx out] by blast
  then show ?thesis
    by (intro exI [of _ buf] exI [of _ "ch\<lparr>ch_rx := rx', ch_wr := wr', ch_tx := ch_tx ch @ request_bytes op addr sz cnt\<rparr>"])
      (auto simp: connected_def FDKD_REPLY_def FDKD_REPLY_AND_CLOSE_def)
qed

lemma executeFunction_connected:
  assumes "connected K memfd dev (request_bytes op addr sz cnt # ps) pktBuf ch s"
    and "build_request op addr sz cnt (replicate FDK_MAXSZ_PKT 0) = Some (len, pkt)" and "len \<noteq> 0"
    and "\<forall>bs. cnt = Some bs \<longrightarrow> length bs = unat sz"
    and "answer_packet K memfd dev (request_bytes op addr sz cnt) s = (FDKD_REPLY, out, s')"
  shows "\<exists>buf ch'. executeFunction op addr sz cnt pktBuf FDK_MAXSZ_PKT ch =
      (verifyResponsePacket out op, buf, ch') \<and> take (length out) buf = out \<and>
    connected K memfd dev ps buf ch' s' \<and> ch_tx ch' = ch_tx ch @ request_bytes op addr sz cnt"
  using executeFunction_answered [OF assms] by simp

text \<open>The requests that are only a header.\<close>

definition connect_request :: "u8 list" where
  "connect_request = request_bytes FDK_REQ_CONNECT 0 0 None"

definition disconnect_request :: "u8 list" where
  "disconnect_request = request_bytes FDK_REQ_DISCONNECT 0 0 None"

lemma build_header_only:
  "build_request FDK_REQ_CONNECT 0 0 None pkt = Some (8, pkt)"
  "build_request FDK_REQ_DISCONNECT 0 0 None pkt = Some (8, pkt)"
  by (simp_all add: build_request_def layout)

lemma hdr_opCode_fresh: "8 \<le> length q \<Longrightarrow> hdr_opCode (fresh_buffer q) = hdr_opCode q"
  by (simp add: fresh_buffer_def hdr_opCode_def layout get_append)

lemma length_fresh: "length q \<le> FDK_MAXSZ_PKT \<Longrightarrow> length (fresh_buffer q) = FDK_MAXSZ_PKT"
  by (simp add: fresh_buffer_def)

lemma header_request_fields:
  "length connect_request = 8" "hdr_opCode (fresh_buffer connect_request) = op_code FDK_REQ_CONNECT"
  "length disconnect_request = 8" "hdr_opCode (fresh_buffer disconnect_request) = op_code FDK_REQ_DISCONNECT"
proof -
  note r = request_bytes_ok [OF build_header_only(1) [of "replicate FDK_MAXSZ_PKT 0"], folded connect_request_def, simplified]
  note q = request_bytes_ok [OF build_header_only(2) [of "replicate FDK_MAXSZ_PKT 0"], folded disconnect_request_def, simplified]
  show l: "length connect_request = 8" "length disconnect_request = 8" by (rule r(2), rule q(2))
  show "hdr_opCode (fresh_buffer connect_request) = op_code FDK_REQ_CONNECT"
    "hdr_opCode (fresh_buffer disconnect_request) = op_code FDK_REQ_DISCONNECT"
    using l r(3) q(3) by (simp_all add: hdr_opCode_fresh)
qed

lemma answer_connect:
  "\<exists>out. answer_packet K memfd dev connect_request s = (FDKD_REPLY, out, s) \<and>
    hdr_opCode out = op_code FDK_RSP_CONNECT \<and> hdr_errorCode out = FDK_SUCCESS"
proof -
  let ?p = "fresh_buffer connect_request"
  let ?out = "response (setResponse FDK_RSP_CONNECT 8 True ?p)"
  have "length ?p = FDK_MAXSZ_PKT" by (rule length_fresh) (simp add: header_request_fields)
  then have "?out = hdr_bytes FDK_RSP_CONNECT FDK_SUCCESS 8 @ []"
    using response_setResponse [of ?p 8] by simp
  then show ?thesis
    using hdr_of_bytes [where r = "[]"] by (intro exI [of _ ?out])
      (simp add: answer_packet_def handle_packet_eq header_request_fields request_of_def)
qed

lemma answer_disconnect:
  "\<exists>out. answer_packet K memfd dev disconnect_request s = (FDKD_REPLY_AND_CLOSE, out, s)"
  by (simp add: answer_packet_def handle_packet_eq header_request_fields request_of_def)

text \<open>
  A client in a session: it is connected, \<open>ps\<close> are the requests it still has to make, it will have sent
  \<open>sent\<close> at the end and leave the machine in the state \<open>fin\<close>.
\<close>

definition in_session ::
  "'w os \<Rightarrow> s32 \<Rightarrow> string option \<Rightarrow> 'w sys \<Rightarrow> u8 list \<Rightarrow> u8 list list \<Rightarrow> u8 list \<Rightarrow> channel \<Rightarrow> 'w sys \<Rightarrow> bool" where
  "in_session K memfd dev fin sent ps pktBuf ch s \<longleftrightarrow>
     connected K memfd dev ps pktBuf ch s \<and> ch_tx ch @ concat ps = sent \<and> snd (serve_spec K memfd dev ps s) = fin"

lemma in_session_start:
  assumes "connected K memfd dev ps pktBuf ch s"
  shows "in_session K memfd dev (snd (serve_spec K memfd dev ps s)) (ch_tx ch @ concat ps) ps pktBuf ch s"
  using assms by (simp add: in_session_def)

lemma served:
  "answer_packet K memfd dev p s = (FDKD_REPLY, out, s') \<Longrightarrow>
    snd (serve_spec K memfd dev (p # ps) s) = snd (serve_spec K memfd dev ps s')"
  by (simp add: FDKD_REPLY_def FDKD_REPLY_AND_CLOSE_def split: prod.split)

text \<open>One request of a session that is answered with the matching response.\<close>

lemma session_exchange:
  assumes "in_session K memfd dev fin sent (request_bytes op addr sz cnt # ps) pktBuf ch s"
    and "build_request op addr sz cnt (replicate FDK_MAXSZ_PKT 0) = Some (len, pkt)" and "len \<noteq> 0"
    and "\<forall>bs. cnt = Some bs \<longrightarrow> length bs = unat sz"
    and ans: "answer_packet K memfd dev (request_bytes op addr sz cnt) s = (FDKD_REPLY, out, s')"
    and "hdr_opCode out = op_code q" and "is_request op" and "op_num q = op_num op + 1"
  shows "\<exists>buf ch'. executeFunction op addr sz cnt pktBuf FDK_MAXSZ_PKT ch = (0, buf, ch') \<and>
    take (length out) buf = out \<and> in_session K memfd dev fin sent ps buf ch' s'"
proof -
  have v: "verifyResponsePacket out op = 0" using assms(6-8) by (simp add: verifyResponsePacket_iff)
  have c: "connected K memfd dev (request_bytes op addr sz cnt # ps) pktBuf ch s"
    using assms(1) by (simp add: in_session_def)
  obtain buf ch' where "executeFunction op addr sz cnt pktBuf FDK_MAXSZ_PKT ch = (0, buf, ch')"
    "take (length out) buf = out" "connected K memfd dev ps buf ch' s'" "ch_tx ch' = ch_tx ch @ request_bytes op addr sz cnt"
    using executeFunction_connected [OF c assms(2-4) ans] v by auto
  then show ?thesis
    using assms(1) served [OF ans, of ps] by (auto simp: in_session_def simp del: serve_spec.simps)
qed

text \<open>Connecting, and the disconnect request, which ends the session.\<close>

lemma session_connect:
  assumes "in_session K memfd dev fin sent (connect_request # ps) pktBuf ch s"
  shows "\<exists>buf ch'. executeFunction FDK_REQ_CONNECT 0 0 None pktBuf FDK_MAXSZ_PKT ch = (0, buf, ch') \<and>
    in_session K memfd dev fin sent ps buf ch' s"
proof -
  obtain out where o: "answer_packet K memfd dev (request_bytes FDK_REQ_CONNECT 0 0 None) s = (FDKD_REPLY, out, s)"
    "hdr_opCode out = op_code FDK_RSP_CONNECT"
    using answer_connect [of K memfd dev s] unfolding connect_request_def by blast
  show ?thesis
    using session_exchange [OF assms [unfolded connect_request_def] build_header_only(1) _ _ o] by (auto simp: is_request_def)
qed

lemma session_disconnect:
  assumes "in_session K memfd dev fin sent [disconnect_request] pktBuf ch s"
  shows "\<exists>e buf ch'. executeFunction FDK_REQ_DISCONNECT 0 0 None pktBuf FDK_MAXSZ_PKT ch = (e, buf, ch') \<and>
    ch_tx ch' = sent \<and> s = fin"
proof -
  obtain out where o: "answer_packet K memfd dev (request_bytes FDK_REQ_DISCONNECT 0 0 None) s = (FDKD_REPLY_AND_CLOSE, out, s)"
    using answer_disconnect [of K memfd dev s] unfolding disconnect_request_def by blast
  have c: "connected K memfd dev (request_bytes FDK_REQ_DISCONNECT 0 0 None # []) pktBuf ch s"
    using assms by (simp add: in_session_def disconnect_request_def)
  obtain buf ch' where "executeFunction FDK_REQ_DISCONNECT 0 0 None pktBuf FDK_MAXSZ_PKT ch =
      (verifyResponsePacket out FDK_REQ_DISCONNECT, buf, ch')" "ch_tx ch' = ch_tx ch @ disconnect_request"
    using executeFunction_answered [OF c build_header_only(2) _ _ o] by (auto simp: disconnect_request_def)
  moreover have "s = fin" "ch_tx ch @ disconnect_request = sent"
    using assms o by (simp_all add: in_session_def disconnect_request_def)
  ultimately show ?thesis by simp
qed

section \<open>The two memory requests\<close>

definition mem_read_request :: "u64 \<Rightarrow> u32 \<Rightarrow> u8 list" where
  "mem_read_request a n = request_bytes FDK_REQ_MEM_READ a n None"

definition mem_write_request :: "u64 \<Rightarrow> u8 list \<Rightarrow> u8 list" where
  "mem_write_request a bs = request_bytes FDK_REQ_MEM_WRITE a (word_of_nat (length bs)) (Some bs)"

lemma build_mem_read:
  "build_request FDK_REQ_MEM_READ a n None pkt = Some (20, put32 16 n (put64 8 a pkt))"
  by (simp add: build_request_def layout)

lemma build_mem_write:
  assumes "0 < length bs" and "length bs \<le> 8172"
  shows "build_request FDK_REQ_MEM_WRITE a (word_of_nat (length bs)) (Some bs) pkt =
    Some (20 + length bs, blit 20 bs (put32 16 (word_of_nat (length bs)) (put64 8 a pkt)))"
proof -
  have "unat (word_of_nat (length bs) :: u32) = length bs"
    using assms by (simp add: unat_of_nat take_bit_nat_eq_self)
  then show ?thesis using assms by (auto simp: build_request_def layout fillPayload_def)
qed

lemma get_of_bytes_at:
  "bytes_at p 4 xs = bytes_at p 4 ys \<Longrightarrow> get32 p xs = get32 p ys"
  "bytes_at p 8 xs = bytes_at p 8 ys \<Longrightarrow> get64 p xs = get64 p ys"
  by (simp_all add: get_defs)

lemma bytes_at_fresh: "p + n \<le> length q \<Longrightarrow> bytes_at p n (fresh_buffer q) = bytes_at p n q"
  by (simp add: fresh_buffer_def bytes_at_def)

lemma mem_read_fields:
  "packet_ok (mem_read_request a n)" "length (mem_read_request a n) = 20"
  "hdr_opCode (fresh_buffer (mem_read_request a n)) = op_code FDK_REQ_MEM_READ"
  "get64 8 (fresh_buffer (mem_read_request a n)) = a" "get32 16 (fresh_buffer (mem_read_request a n)) = n"
proof -
  note r = request_bytes_ok [OF build_mem_read [of a n "replicate FDK_MAXSZ_PKT 0"], folded mem_read_request_def, simplified]
  show "packet_ok (mem_read_request a n)" by (rule r(1))
  show len: "length (mem_read_request a n) = 20" by (rule r(2))
  show "hdr_opCode (fresh_buffer (mem_read_request a n)) = op_code FDK_REQ_MEM_READ"
    using r(3) len by (simp add: hdr_opCode_fresh)
  show "get64 8 (fresh_buffer (mem_read_request a n)) = a"
    using r(4) [of 8 8] len
    by (subst get_of_bytes_at(2) [where ys = "put32 16 n (put64 8 a (replicate 8192 0))"])
      (simp_all add: bytes_at_fresh put_defs buf_simps)
  show "get32 16 (fresh_buffer (mem_read_request a n)) = n"
    using r(4) [of 16 4] len
    by (subst get_of_bytes_at(1) [where ys = "put32 16 n (put64 8 a (replicate 8192 0))"])
      (simp_all add: bytes_at_fresh buf_simps put_defs)
qed

lemma mem_write_fields:
  assumes "0 < length bs" and "length bs \<le> 8172"
  shows "packet_ok (mem_write_request a bs)" "length (mem_write_request a bs) = 20 + length bs"
    "hdr_opCode (fresh_buffer (mem_write_request a bs)) = op_code FDK_REQ_MEM_WRITE"
    "get64 8 (fresh_buffer (mem_write_request a bs)) = a"
    "get32 16 (fresh_buffer (mem_write_request a bs)) = word_of_nat (length bs)"
    "bytes_at 20 (length bs) (fresh_buffer (mem_write_request a bs)) = bs"
proof -
  let ?pkt = "blit 20 bs (put32 16 (word_of_nat (length bs)) (put64 8 a (replicate 8192 0)))"
  have n: "unat (word_of_nat (length bs) :: u32) = length bs"
    using assms by (simp add: unat_of_nat take_bit_nat_eq_self)
  note b = build_mem_write [OF assms, of a "replicate FDK_MAXSZ_PKT 0"]
  have nz: "20 + length bs \<noteq> 0" by simp
  have cnt: "\<forall>xs. Some bs = Some xs \<longrightarrow> length xs = unat (word_of_nat (length bs) :: u32)"
    using n by simp
  note r = request_bytes_ok [OF b nz cnt, folded mem_write_request_def]
  show "packet_ok (mem_write_request a bs)" by (rule r(1))
  show len: "length (mem_write_request a bs) = 20 + length bs" by (rule r(2))
  show "hdr_opCode (fresh_buffer (mem_write_request a bs)) = op_code FDK_REQ_MEM_WRITE"
    using r(3) len by (simp add: hdr_opCode_fresh)
  have g: "bytes_at p k (fresh_buffer (mem_write_request a bs)) = bytes_at p k ?pkt"
    if "8 \<le> p" "p + k \<le> 20 + length bs" for p k
    using r(4) [OF that] that len by (simp add: bytes_at_fresh)
  show "get64 8 (fresh_buffer (mem_write_request a bs)) = a"
    using assms by (subst get_of_bytes_at(2) [OF g]) (simp_all add: put_defs buf_simps)
  show "get32 16 (fresh_buffer (mem_write_request a bs)) = word_of_nat (length bs)"
    using assms by (subst get_of_bytes_at(1) [OF g]) (simp_all add: put_defs buf_simps)
  show "bytes_at 20 (length bs) (fresh_buffer (mem_write_request a bs)) = bs"
    using g [of 20 "length bs"] by (simp add: put_defs buf_simps)
qed

text \<open>What the server answers to them, on a machine whose memory can be mapped.\<close>

lemma answer_mem_read:
  assumes K: "maps_memory K phys vm" "mappable K memfd a n s" and n: "unat n \<le> 8172"
  shows "\<exists>out s'. answer_packet K memfd dev (mem_read_request a n) s = (FDKD_REPLY, out, s') \<and>
    phys (env s') = phys (env s) \<and> length out = 20 + unat n \<and>
    hdr_opCode out = op_code FDK_RSP_MEM_READ \<and> hdr_errorCode out = FDK_SUCCESS \<and>
    get32 16 out = n \<and> bytes_at 20 (unat n) out = phys_bytes (phys (env s)) a (unat n)"
proof -
  let ?p = "fresh_buffer (mem_read_request a n)"
  have len: "length ?p = FDK_MAXSZ_PKT" by (rule length_fresh) (simp add: mem_read_fields)
  let ?ans = "answer_read (memReadBuffer K memfd) a n FDK_RSP_MEM_READ fdkRspMemReadPkt_t ''memContent'' ?p s"
  have off: "offsetof fdkRspMemReadPkt_t ''memContent'' = 20" by (simp add: layout)
  have rd: "fst (memReadBuffer K memfd a n (bytes_at 20 (unat n) ?p) s) = (0, phys_bytes (phys (env s)) a (unat n)) \<and>
    phys (env (snd (memReadBuffer K memfd a n (bytes_at 20 (unat n) ?p) s))) = phys (env s)"
    using n len by (intro memReadBuffer_reads [OF K]) simp
  obtain s' where m: "memReadBuffer K memfd a n (bytes_at 20 (unat n) ?p) s =
      ((0, phys_bytes (phys (env s)) a (unat n)), s')" and s': "phys (env s') = phys (env s)"
    using rd by (metis prod.collapse)
  have ans: "answer_packet K memfd dev (mem_read_request a n) s = (FDKD_REPLY, response (fst ?ans), s')"
    using n by (simp add: answer_packet_def handle_packet_eq mem_read_fields request_of_def
        req_mem_read_def layout wire_sizes Let_def answer_read_def m)
  let ?d = "phys_bytes (phys (env s)) a (unat n)"
  have h12: "bytes_at 8 12 ?p = bytes_at 8 8 ?p @ bytes_at 16 4 ?p"
    using take_add [of 8 4 "drop 8 ?p"] by (simp add: bytes_at_def)
  have out: "response (fst ?ans) = hdr_bytes FDK_RSP_MEM_READ FDK_SUCCESS (20 + unat n) @ bytes_at 8 12 ?p @ ?d"
    using mem_reader.answer_read_response [OF len, where t = fdkRspMemReadPkt_t and f = "''memContent''" and sz = n
        and op = FDK_RSP_MEM_READ and K = K and fd = memfd and a = a and s = s]
      n len by (simp add: off m)
  have l12: "length (bytes_at 8 12 ?p) = 12" using len by simp
  have ld: "length ?d = unat n" by (simp add: phys_bytes_def)
  have "bytes_at 16 4 (response (fst ?ans)) = bytes_at 16 4 ?p"
    using l12 len unfolding out h12
    by (simp add: bytes_at_append_skip bytes_at_append_here)
  then have "get32 16 (response (fst ?ans)) = n"
    using get_of_bytes_at(1) [of 16 "response (fst ?ans)" ?p] by (simp add: mem_read_fields)
  moreover have "bytes_at 20 (unat n) (response (fst ?ans)) = ?d"
    unfolding out using l12 ld by (simp add: bytes_at_append_skip bytes_at_def)
  moreover have "length (response (fst ?ans)) = 20 + unat n" unfolding out using l12 ld by simp
  ultimately show ?thesis
    using ans s' out hdr_of_bytes by (intro exI [of _ "response (fst ?ans)"] exI [of _ s']) simp
qed

lemma answer_mem_write:
  assumes K: "maps_memory K phys vm" "mappable K memfd a (word_of_nat (length bs)) s"
    and n: "0 < length bs" "length bs \<le> 8172"
  shows "\<exists>out s'. answer_packet K memfd dev (mem_write_request a bs) s = (FDKD_REPLY, out, s') \<and>
    phys (env s') = phys_store (phys (env s)) a bs \<and>
    length out = 20 \<and> hdr_opCode out = op_code FDK_RSP_MEM_WRITE \<and> hdr_errorCode out = FDK_SUCCESS"
proof -
  let ?p = "fresh_buffer (mem_write_request a bs)"
  note f = mem_write_fields [OF n]
  have len: "length ?p = FDK_MAXSZ_PKT" using n(2) by (intro length_fresh) (simp add: f)
  have u: "unat (word_of_nat (length bs) :: u32) = length bs"
    using n by (simp add: unat_of_nat take_bit_nat_eq_self)
  have "fst (memWriteBuffer K memfd a (word_of_nat (length bs)) bs s) = 0 \<and>
    phys (env (snd (memWriteBuffer K memfd a (word_of_nat (length bs)) bs s))) = phys_store (phys (env s)) a bs"
    by (rule memWriteBuffer_phys [OF K u [symmetric]])
  then obtain s' where m: "memWriteBuffer K memfd a (word_of_nat (length bs)) bs s = (0, s')"
    and s': "phys (env s') = phys_store (phys (env s)) a bs" by (metis prod.collapse)
  let ?out = "response (setResponse FDK_RSP_MEM_WRITE 20 True ?p)"
  have op: "op_of_code (hdr_opCode ?p) = Some FDK_REQ_MEM_WRITE" by (simp add: f)
  have rq: "request_of K memfd dev FDK_REQ_MEM_WRITE (20 + length bs) ?p s =
      Some (setResponse FDK_RSP_MEM_WRITE 20 True ?p, s')"
    using n(2) by (simp add: request_of_def req_mem_write_def f(4,5,6) u layout wire_sizes Let_def
        answer_write_def m)
  have ans: "answer_packet K memfd dev (mem_write_request a bs) s = (FDKD_REPLY, ?out, s')"
    by (simp add: answer_packet_def handle_packet_eq op f(2) rq)
  have "?out = hdr_bytes FDK_RSP_MEM_WRITE FDK_SUCCESS 20 @ bytes_at 8 12 ?p"
    using response_setResponse [OF len, of 20] by simp
  moreover have "length (bytes_at 8 12 ?p) = 12" using len by simp
  ultimately show ?thesis
    using ans s' hdr_of_bytes by (intro exI [of _ ?out] exI [of _ s']) simp
qed

end
