(* ===== verification/Memvr.thy ===== *)
theory Memvr
  imports Client_Session Lib_Comm Fdk_Common
begin

unbundle bit_operations_syntax

text \<open>
  The memory viewer, \<open>src_memvr/client.c\<close> and \<open>src_memvr/memvr.c\<close>: the four memory operations of the
  client, the dump, read and modify commands with what they print, and the command line.
\<close>

section \<open>client.c\<close>

text \<open>The packet buffer of the program and its connection.\<close>

record client =
  cl_pktBuf :: "u8 list"
  cl_ch :: channel

definition responseOk :: "client \<Rightarrow> bool" where
  "responseOk cl \<longleftrightarrow> hdr_errorCode (cl_pktBuf cl) = FDK_SUCCESS"

text \<open>\<open>executeFunction\<close> with the program's packet buffer.\<close>

definition request :: "fdkOpCode_t \<Rightarrow> u64 \<Rightarrow> u32 \<Rightarrow> u8 list option \<Rightarrow> client \<Rightarrow> s32 \<times> client" where
  "request op addr sz cntBuf cl =
     (case executeFunction op addr sz cntBuf (cl_pktBuf cl) FDK_MAXSZ_PKT (cl_ch cl) of
        (ret, buf, ch) \<Rightarrow> (ret, \<lparr>cl_pktBuf = buf, cl_ch = ch\<rparr>))"

definition connectToFdkServer :: "client \<Rightarrow> s32 \<times> client" where
  "connectToFdkServer cl = request FDK_REQ_CONNECT 0 0 None cl"

definition disconnectFromFdkServer :: "client \<Rightarrow> client" where
  "disconnectFromFdkServer cl = snd (request FDK_REQ_DISCONNECT 0 0 None cl)"

text \<open>The destination buffer is passed in and returned with the first \<open>len\<close> bytes replaced.\<close>

definition memoryReadBuffer :: "u64 \<Rightarrow> u32 \<Rightarrow> u8 list \<Rightarrow> client \<Rightarrow> (s32 \<times> u8 list) \<times> client" where
  "memoryReadBuffer address len buf cl =
     (if unat len > FDK_PKT_MAX_PAYLOAD fdkRspMemReadPkt_t ''memContent'' then ((- 1, buf), cl)
      else
        let (ret, cl1) = request FDK_REQ_MEM_READ address len None cl;
            pkt = cl_pktBuf cl1
        in if ret \<noteq> 0 \<or> get32 (offsetof fdkRspMemReadPkt_t ''size'') pkt \<noteq> len \<or> \<not> responseOk cl1
           then ((- 1, buf), cl1)
           else ((0, blit 0 (bytes_at (offsetof fdkRspMemReadPkt_t ''memContent'') (unat len) pkt) buf), cl1))"

definition memoryReadDWord :: "u64 \<Rightarrow> u32 \<Rightarrow> client \<Rightarrow> (s32 \<times> u32) \<times> client" where
  "memoryReadDWord address val cl =
     (case memoryReadBuffer address 4 (le_bytes 4 (unat val)) cl of
        ((ret, buf), cl1) \<Rightarrow> ((ret, word_of_nat (le_nat buf)), cl1))"

definition memoryWriteDWord :: "u64 \<Rightarrow> u32 \<Rightarrow> client \<Rightarrow> s32 \<times> client" where
  "memoryWriteDWord address val cl =
     (let (ret, cl1) = request FDK_REQ_MEM_WRITE address 4 (Some (le_bytes 4 (unat val))) cl
      in (if ret \<noteq> 0 \<or> \<not> responseOk cl1 then - 1 else 0, cl1))"

definition memoryORDWord :: "u64 \<Rightarrow> u32 \<Rightarrow> client \<Rightarrow> s32 \<times> client" where
  "memoryORDWord address val cl =
     (case memoryReadDWord address 0 cl of
        ((ret, tmp), cl1) \<Rightarrow> if ret \<noteq> 0 then (- 1, cl1) else memoryWriteDWord address (tmp OR val) cl1)"

definition memoryANDDWord :: "u64 \<Rightarrow> u32 \<Rightarrow> client \<Rightarrow> s32 \<times> client" where
  "memoryANDDWord address val cl =
     (case memoryReadDWord address 0 cl of
        ((ret, tmp), cl1) \<Rightarrow> if ret \<noteq> 0 then (- 1, cl1) else memoryWriteDWord address (tmp AND val) cl1)"

section \<open>Constants\<close>

definition MEMVR_VERSION :: string where "MEMVR_VERSION = ''1.1.0''"

definition MEMVR_MEM_READ :: u32 where "MEMVR_MEM_READ = 0x01"

definition MEMVR_MEM_WRITE :: u32 where "MEMVR_MEM_WRITE = 0x02"

definition MEMVR_MEM_OR :: u32 where "MEMVR_MEM_OR = 0x04"

definition MEMVR_MEM_AND :: u32 where "MEMVR_MEM_AND = 0x08"

definition MEMVR_MEM_DUMP :: u32 where "MEMVR_MEM_DUMP = 0x10"

definition MEMVR_MEM_MAXLEN :: u32 where "MEMVR_MEM_MAXLEN = 0x1000"

definition MEMVR_BYTE_PER_LINE :: nat where "MEMVR_BYTE_PER_LINE = 16"

definition memvr_help :: "print list" where
  "memvr_help =
     [Stderr (NL @ FDK_COPYRIGHT_TEXT @ NL @ NL),
      Stderr (MEMVR_PROGRAM_NAME @ '', Rev. '' @ MEMVR_VERSION @ NL @ NL),
      Stderr (FDK_AUTHOR_NAME @ NL @ NL),
      Stderr (''usage: memvr ( -r <address> | -w <address/value> | '' @ ''-d <address/length> |'' @ NL @
        ''               -o <address/value> | -a <address/value> ) '' @ ''[-i host] [-p port] [-vbq] [-h]'' @
        NL @ NL),
      Stderr (TAB @ ''-h'' @ TAB @ ''Print help and exit'' @ NL),
      Stderr (TAB @ ''-i'' @ TAB @ ''Server address, default is '' @ FDK_DEF_IPADDR @ NL),
      Stderr (TAB @ ''-p'' @ TAB @ ''Server TCP port, default is '' @ fmt_d (nat FDK_DEF_PORT) @ NL),
      Stderr (TAB @ ''-v'' @ TAB @ ''Display more information'' @ NL),
      Stderr (TAB @ ''-b'' @ TAB @ ''Display value in bit format'' @ NL),
      Stderr (TAB @ ''-q'' @ TAB @ ''Quiet mode, only show result value in hex'' @ NL),
      Stderr (TAB @ ''-r'' @ TAB @ ''Read  a 32-bit value from specified address'' @ NL),
      Stderr (TAB @ ''-w'' @ TAB @ ''Write a 32-bit value to specified address'' @ NL),
      Stderr (TAB @ ''-o'' @ TAB @ ''OR    a 32-bit value to specified address'' @ NL),
      Stderr (TAB @ ''-a'' @ TAB @ ''AND   a 32-bit value to specified address'' @ NL),
      Stderr (TAB @ ''-d'' @ TAB @ ''Dump up to 0x'' @ fmt_X 1 (unat MEMVR_MEM_MAXLEN) @
        '' bytes of memory from address'' @ NL @ NL @
        ''Addresses and values are hexadecimal with a 0x prefix, e.g.'' @ NL @
        ''  memvr -r 0xFED00000'' @ NL @ ''  memvr -d 0xF0000/0x100'' @ NL @ NL)]"

section \<open>Commands\<close>

text \<open>The two parts of a row of the dump: sixteen cells of three columns, and the characters.\<close>

definition ascii_char :: "u8 \<Rightarrow> char" where
  "ascii_char c = (if 33 \<le> c \<and> c \<le> 126 then char_of (unat c) else CHR ''.'')"

definition dump_cell :: "u8 list \<Rightarrow> nat \<Rightarrow> nat \<Rightarrow> string" where
  "dump_cell buf len k = (if k < len then fmt_X 2 (unat (buf ! k)) @ '' '' else ''   '')"

definition dump_row :: "u64 \<Rightarrow> u8 list \<Rightarrow> nat \<Rightarrow> nat \<Rightarrow> string" where
  "dump_row baseAddr buf len i =
     fmt_X 16 (unat (baseAddr + word_of_nat i)) @ '' : '' @
     concat (map (\<lambda>j. dump_cell buf len (i + j)) [0..<MEMVR_BYTE_PER_LINE]) @ ''| '' @
     map (\<lambda>j. ascii_char (buf ! (i + j))) [0..<min MEMVR_BYTE_PER_LINE (len - i)] @ NL"

definition dump_rows :: "u64 \<Rightarrow> u8 list \<Rightarrow> nat \<Rightarrow> string list" where
  "dump_rows baseAddr buf len =
     map (\<lambda>k. dump_row baseAddr buf len (MEMVR_BYTE_PER_LINE * k))
       [0..<(len + MEMVR_BYTE_PER_LINE - 1) div MEMVR_BYTE_PER_LINE]"

definition dumpMemData :: "u64 \<Rightarrow> u32 \<Rightarrow> client \<Rightarrow> (s32 \<times> print list) \<times> client" where
  "dumpMemData baseAddr len cl =
     (case memoryReadBuffer baseAddr len (replicate (unat MEMVR_MEM_MAXLEN) 0) cl of
        ((ret, buf), cl1) \<Rightarrow>
          if ret \<noteq> 0 then ((- 1, [Stderr (''Cannot read memory at 0x'' @ fmt_X 1 (unat baseAddr) @ NL)]), cl1)
          else ((0,
            [Stdout (NL @ NL @ ''== Dump Memory Start =='' @ NL @ NL),
             Stdout (''     Address     | 00 01 02 03 04 05 06 07 08 09 0A 0B 0C 0D 0E 0F |'' @ '' ASCII DATA'' @ NL),
             Stdout (replicate 83 (CHR ''-'') @ NL)] @
            map Stdout (dump_rows baseAddr buf (unat len)) @
            [Stdout (replicate 83 (CHR ''-'') @ NL),
             Stdout (NL @ ''== Dump Memory End =='' @ NL @ NL)]), cl1))"

definition doRead :: "u64 \<Rightarrow> bool \<Rightarrow> bool \<Rightarrow> bool \<Rightarrow> client \<Rightarrow> (s32 \<times> print list) \<times> client" where
  "doRead address verbose dbit quiet cl =
     (let p0 = (if verbose then [Stdout (''Read value from address: 0x'' @ fmt_X 1 (unat address) @ NL)] else [])
      in case memoryReadDWord address 0 cl of
          ((ret, val), cl1) \<Rightarrow>
            if ret \<noteq> 0 then
              ((- 1, p0 @ [Stderr (''Cannot read memory at 0x'' @ fmt_X 1 (unat address) @ NL)]), cl1)
            else ((0, p0 @
              [Stdout (if quiet then ''0x'' @ fmt_X 8 (unat val) @ NL
                 else NL @ ''[READ] Address = 0x'' @ fmt_X 1 (unat address) @ '', Value = 0x'' @
                      fmt_X 8 (unat val) @ NL)] @
              (if dbit then [Stdout (DisplayInBits val)] else [])), cl1))"

text \<open>What \<open>doModify\<close> prints after the operation.\<close>

definition modify_report :: "u32 \<Rightarrow> string \<Rightarrow> u64 \<Rightarrow> u32 \<Rightarrow> u32 \<Rightarrow> u32 \<Rightarrow> bool \<Rightarrow> bool \<Rightarrow> print list" where
  "modify_report opflags opstr address val orig res dbit quiet =
     (if quiet then [Stdout (''0x'' @ fmt_X 8 (unat res) @ NL)]
      else
        [Stdout (NL @ ''['' @ opstr @ ''] Address = 0x'' @ fmt_X 1 (unat address) @ '', Value = 0x'' @
           fmt_X 8 (unat val) @ NL),
         Stdout (''['' @ opstr @ ''] Origin  = 0x'' @ fmt_X 8 (unat orig) @ '', Result = 0x'' @
           fmt_X 8 (unat res) @ NL @ NL)] @
        (if val \<noteq> res \<and> opflags AND MEMVR_MEM_WRITE \<noteq> 0
         then [Stdout (''[WARNING] Value and Result are different'' @ NL @ NL)] else [])) @
     (if dbit then
        [Stdout ''[Origin]'', Stdout (DisplayInBits orig), Stdout ''[Value]'', Stdout (DisplayInBits val),
         Stdout ''[Result]'', Stdout (DisplayInBits res)]
      else [])"

definition doModify ::
  "u32 \<Rightarrow> u64 \<Rightarrow> u32 \<Rightarrow> bool \<Rightarrow> bool \<Rightarrow> bool \<Rightarrow> client \<Rightarrow> (s32 \<times> print list) \<times> client" where
  "doModify opflags address val verbose dbit quiet cl =
     (let p0 = (if verbose
              then [Stdout (''Write value: 0x'' @ fmt_X 8 (unat val) @ '' to address: 0x'' @
                      fmt_X 1 (unat address) @ NL)]
              else []);
          ((ret, orig), cl1) = memoryReadDWord address 0 cl
      in if ret \<noteq> 0 then
           ((- 1, p0 @ [Stderr (''Cannot read memory at 0x'' @ fmt_X 1 (unat address) @ NL)]), cl1)
         else
           let (opstr, err, cl2) =
                 (if opflags AND MEMVR_MEM_WRITE \<noteq> 0 then (''WRITE'', memoryWriteDWord address val cl1)
                  else if opflags AND MEMVR_MEM_OR \<noteq> 0 then (''OR'', memoryORDWord address val cl1)
                  else (''AND'', memoryANDDWord address val cl1));
               ((ret2, res), cl3) = (if err \<noteq> 0 then ((0, 0), cl2) else memoryReadDWord address 0 cl2)
           in if err \<noteq> 0 \<or> ret2 \<noteq> 0 then
                ((- 1, p0 @ [Stderr (''Cannot write memory at 0x'' @ fmt_X 1 (unat address) @ NL)]), cl3)
              else ((0, p0 @ modify_report opflags opstr address val orig res dbit quiet), cl3))"

section \<open>Command line\<close>

text \<open>The results of \<open>getopt\<close> are the list of option characters with their arguments.\<close>

record memvr_opts =
  mo_ipAddr :: string
  mo_port :: s32
  mo_verbose :: bool
  mo_dbit :: bool
  mo_quiet :: bool
  mo_opflags :: u32
  mo_address :: u64
  mo_value :: u64
  mo_length :: u64

definition memvr_defaults :: memvr_opts where
  "memvr_defaults = \<lparr>mo_ipAddr = FDK_DEF_IPADDR, mo_port = FDK_DEF_PORT, mo_verbose = False,
     mo_dbit = False, mo_quiet = False, mo_opflags = 0, mo_address = 0, mo_value = 0, mo_length = 0\<rparr>"

definition memvr_invalid :: "s32 \<times> print list" where
  "memvr_invalid = (1, Stderr (NL @ ''Error: Invalid Parameters'' @ NL) # memvr_help)"

text \<open>One turn of the option loop: the new settings, or the exit of \<open>main\<close>.\<close>

definition memvr_option :: "char \<Rightarrow> string \<Rightarrow> memvr_opts \<Rightarrow> (s32 \<times> print list) + memvr_opts" where
  "memvr_option c optarg mo =
     (if c = CHR ''r'' then
        (let (ok, a) = ParseOneParameter optarg (mo_address mo)
         in if \<not> ok then Inl memvr_invalid
            else Inr (mo\<lparr>mo_address := a, mo_opflags := mo_opflags mo OR MEMVR_MEM_READ\<rparr>))
      else if c = CHR ''w'' \<or> c = CHR ''o'' \<or> c = CHR ''a'' then
        (let (ok, a, v) = ParseTwoParameters optarg (mo_address mo) (mo_value mo)
         in if \<not> ok \<or> v > 0xFFFFFFFF then Inl memvr_invalid
            else Inr (mo\<lparr>mo_address := a, mo_value := v, mo_opflags := mo_opflags mo OR
              (if c = CHR ''w'' then MEMVR_MEM_WRITE else if c = CHR ''o'' then MEMVR_MEM_OR else MEMVR_MEM_AND)\<rparr>))
      else if c = CHR ''d'' then
        (let (ok, a, l) = ParseTwoParameters optarg (mo_address mo) (mo_length mo)
         in if \<not> ok \<or> l = 0 then Inl memvr_invalid
            else Inr (mo\<lparr>mo_address := a,
              mo_length := (if l > ucast MEMVR_MEM_MAXLEN then ucast MEMVR_MEM_MAXLEN else l),
              mo_opflags := mo_opflags mo OR MEMVR_MEM_DUMP\<rparr>))
      else if c = CHR ''i'' then Inr (mo\<lparr>mo_ipAddr := optarg\<rparr>)
      else if c = CHR ''p'' then Inr (mo\<lparr>mo_port := atoi optarg\<rparr>)
      else if c = CHR ''v'' then Inr (mo\<lparr>mo_verbose := True, mo_quiet := False\<rparr>)
      else if c = CHR ''b'' then Inr (mo\<lparr>mo_dbit := True, mo_quiet := False\<rparr>)
      else if c = CHR ''q'' then Inr (mo\<lparr>mo_quiet := True, mo_verbose := False, mo_dbit := False\<rparr>)
      else if c = CHR ''h'' then Inl (0, memvr_help)
      else Inl memvr_invalid)"

fun memvr_options :: "(char \<times> string) list \<Rightarrow> memvr_opts \<Rightarrow> (s32 \<times> print list) + memvr_opts" where
  "memvr_options [] mo = Inr mo"
| "memvr_options ((c, optarg) # r) mo =
     (case memvr_option c optarg mo of Inl e \<Rightarrow> Inl e | Inr mo1 \<Rightarrow> memvr_options r mo1)"

text \<open>The command that the flags select.\<close>

definition memvr_command :: "memvr_opts \<Rightarrow> client \<Rightarrow> (s32 \<times> print list) \<times> client" where
  "memvr_command mo cl =
     (if mo_opflags mo AND MEMVR_MEM_READ \<noteq> 0 then
        doRead (mo_address mo) (mo_verbose mo) (mo_dbit mo) (mo_quiet mo) cl
      else if mo_opflags mo AND (MEMVR_MEM_WRITE OR MEMVR_MEM_OR OR MEMVR_MEM_AND) \<noteq> 0 then
        doModify (mo_opflags mo) (mo_address mo) (ucast (mo_value mo)) (mo_verbose mo) (mo_dbit mo) (mo_quiet mo) cl
      else
        (case dumpMemData (mo_address mo) (ucast (mo_length mo)) cl of
           ((ret, out), cl1) \<Rightarrow>
             ((ret, (if mo_verbose mo \<or> \<not> mo_quiet mo
                then [Stdout (NL @ ''[DUMP MEMORY] Address = 0x'' @ fmt_X 1 (unat (mo_address mo)) @
                        '', len = 0x'' @ fmt_X 1 (unat (ucast (mo_length mo) :: u32)) @ NL)] else []) @ out), cl1)))"

text \<open>
  \<open>main\<close> over what \<open>connectSocket\<close> returns for the address and port: the exit status, the output, and
  after a connection the client and the descriptors closed. \<open>None\<close> is a run that \<open>SIGPIPE\<close> ends, in the
  connect request, in the command or in the disconnect request.
\<close>

definition memvr_main ::
  "(char \<times> string) list \<Rightarrow> (string \<Rightarrow> s32 \<Rightarrow> (s32 \<times> channel) option) \<Rightarrow>
   ((s32 \<times> print list) \<times> (client \<times> s32 list) option) option" where
  "memvr_main args connectSocket =
     (case memvr_options args memvr_defaults of
        Inl e \<Rightarrow> Some (e, None)
      | Inr mo \<Rightarrow>
          if mo_opflags mo = 0 then Some ((1, memvr_help), None)
          else
            case connectSocket (mo_ipAddr mo) (mo_port mo) of
              None \<Rightarrow> Some ((1, [Stderr (''Cannot connect to '' @ mo_ipAddr mo @ '' port '' @
                         fmt_int (mo_port mo) @ NL)]), None)
            | Some (sfd, ch) \<Rightarrow>
                let deinit = (if 0 \<le> sfd then [sfd] else []);
                    (ret, cl1) = connectToFdkServer \<lparr>cl_pktBuf = replicate FDK_MAXSZ_PKT 0, cl_ch = ch\<rparr>
                in if sigpipe ch (cl_ch cl1) then None
                   else if ret \<noteq> 0 then Some ((1, [Stderr (''Cannot connect to FDK server'' @ NL)]), Some (cl1, deinit))
                   else
                     case memvr_command mo cl1 of
                       ((ret2, out), cl2) \<Rightarrow>
                         (let cl3 = disconnectFromFdkServer cl2
                          in if sigpipe (cl_ch cl1) (cl_ch cl2) \<or> sigpipe (cl_ch cl2) (cl_ch cl3) then None
                             else Some ((if ret2 \<noteq> 0 then 1 else 0, out), Some (cl3, deinit))))"

end
