(* ===== verification/Memvr_Session.thy ===== *)
theory Memvr_Session
  imports Memvr
begin

unbundle bit_operations_syntax

text \<open>
  The memory viewer against the server: what its operations and commands do to physical memory when
  the other end of the connection is the request handler on a machine whose memory can be mapped.
\<close>

section \<open>A memory service\<close>

definition dword :: "(u64 \<Rightarrow> u8) \<Rightarrow> u64 \<Rightarrow> u32" where
  "dword m a = word_of_nat (le_nat (phys_bytes m a 4))"

definition store_dword :: "u64 \<Rightarrow> u32 \<Rightarrow> (u64 \<Rightarrow> u8) \<Rightarrow> (u64 \<Rightarrow> u8)" where
  "store_dword a v m = phys_store m a (le_bytes 4 (unat v))"

lemma dword_store [simp]: "dword (store_dword a v m) a = v"
proof -
  have "phys_bytes (phys_store m a (le_bytes 4 (unat v))) a 4 = le_bytes 4 (unat v)"
    using phys_bytes_store [of "le_bytes 4 (unat v)" m a] by simp
  then show ?thesis by (simp add: dword_def store_dword_def word_of_le_bytes del: le_bytes.simps)
qed

text \<open>
  Reading and writing 32-bit values over a session: \<open>session ps c m\<close> says that the client \<open>c\<close> is
  connected, that \<open>ps\<close> are the requests it still has to make, and that the memory is \<open>m\<close>.
\<close>

locale memory_service =
  fixes rd :: "u64 \<Rightarrow> u32 \<Rightarrow> 'c \<Rightarrow> (s32 \<times> u32) \<times> 'c"
    and wr :: "u64 \<Rightarrow> u32 \<Rightarrow> 'c \<Rightarrow> s32 \<times> 'c"
    and session :: "'p list \<Rightarrow> 'c \<Rightarrow> (u64 \<Rightarrow> u8) \<Rightarrow> bool"
    and rq :: "u64 \<Rightarrow> 'p"
    and wq :: "u64 \<Rightarrow> u32 \<Rightarrow> 'p"
  assumes rd_dword: "session (rq a # ps) c m \<Longrightarrow> \<exists>c'. rd a v0 c = ((0, dword m a), c') \<and> session ps c' m"
    and wr_dword: "session (wq a v # ps) c m \<Longrightarrow>
      \<exists>c'. wr a v c = (0, c') \<and> session ps c' (store_dword a v m)"
begin

lemma modify_dword:
  assumes "session (rq a # wq a (f (dword m a)) # ps) c m"
  shows "\<exists>c'. (case rd a v0 c of ((ret, tmp), c1) \<Rightarrow> if ret \<noteq> 0 then (- 1, c1) else wr a (f tmp) c1) = (0, c') \<and>
    session ps c' (store_dword a (f (dword m a)) m)"
  using rd_dword [OF assms, of v0] wr_dword by fastforce

text \<open>The shape of a command: read, operate, read back.\<close>

lemma read_operate_read:
  assumes "session (rq a # qs @ rq a # ps) c m"
    and "\<And>c1. session (qs @ rq a # ps) c1 m \<Longrightarrow> \<exists>c2. op c1 = (0 :: s32, c2) \<and> session (rq a # ps) c2 (store_dword a v m)"
  shows "\<exists>c1 c2 c3. rd a v0 c = ((0, dword m a), c1) \<and> op c1 = (0, c2) \<and>
    rd a v1 c2 = ((0, v), c3) \<and> session ps c3 (store_dword a v m)"
proof -
  obtain c1 where c1: "rd a v0 c = ((0, dword m a), c1)" "session (qs @ rq a # ps) c1 m"
    using rd_dword [OF assms(1)] by blast
  obtain c2 where c2: "op c1 = (0, c2)" "session (rq a # ps) c2 (store_dword a v m)"
    using assms(2) [OF c1(2)] by blast
  obtain c3 where "rd a v1 c2 = ((0, v), c3)" "session ps c3 (store_dword a v m)"
    using rd_dword [OF c2(2), of v1] by auto
  with c1 c2 show ?thesis by blast
qed

end

section \<open>The viewer's client is one\<close>

text \<open>
  The client is connected to a server of a machine \<open>K\<close> with memory \<open>phys\<close> that can be mapped
  everywhere, has the requests \<open>ps\<close> before it, will have sent \<open>sent\<close> at the end and leave the
  machine in the state \<open>fin\<close>.
\<close>

definition viewer_session ::
  "'w os \<Rightarrow> ('w \<Rightarrow> u64 \<Rightarrow> u8) \<Rightarrow> ('w \<Rightarrow> u64 \<Rightarrow> u64 option) \<Rightarrow> s32 \<Rightarrow> string option \<Rightarrow>
   'w sys \<Rightarrow> u8 list \<Rightarrow> u8 list list \<Rightarrow> client \<Rightarrow> (u64 \<Rightarrow> u8) \<Rightarrow> bool" where
  "viewer_session K phys vm memfd dev fin sent ps cl m \<longleftrightarrow>
     mapped_machine K phys vm memfd \<and>
     (\<exists>s. in_session K memfd dev fin sent ps (cl_pktBuf cl) (cl_ch cl) s \<and> phys (env s) = m)"

text \<open>One request of a session.\<close>

lemma session_request:
  assumes v: "viewer_session K phys vm memfd dev fin sent (request_bytes op addr sz cnt # ps) cl m"
    and b: "build_request op addr sz cnt (replicate FDK_MAXSZ_PKT 0) = Some (len, pkt)" "len \<noteq> 0"
      "\<forall>bs. cnt = Some bs \<longrightarrow> length bs = unat sz"
    and ans: "\<And>s. phys (env s) = m \<Longrightarrow>
      \<exists>out s'. answer_packet K memfd dev (request_bytes op addr sz cnt) s = (FDKD_REPLY, out, s') \<and>
        phys (env s') = m' \<and> hdr_opCode out = op_code q \<and> Q out"
    and q: "is_request op" "op_num q = op_num op + 1"
  shows "\<exists>out cl'. request op addr sz cnt cl = (0, cl') \<and> Q out \<and> hdr_opCode out = op_code q \<and>
    take (length out) (cl_pktBuf cl') = out \<and>
    viewer_session K phys vm memfd dev fin sent ps cl' m'"
proof -
  obtain s where c: "in_session K memfd dev fin sent (request_bytes op addr sz cnt # ps) (cl_pktBuf cl) (cl_ch cl) s"
    and s: "phys (env s) = m" using v unfolding viewer_session_def by blast
  obtain out s' where a: "answer_packet K memfd dev (request_bytes op addr sz cnt) s = (FDKD_REPLY, out, s')"
    and s': "phys (env s') = m'" and o: "hdr_opCode out = op_code q" and Q: "Q out"
    using ans [OF s] by blast
  obtain buf ch' where "executeFunction op addr sz cnt (cl_pktBuf cl) FDK_MAXSZ_PKT (cl_ch cl) = (0, buf, ch')"
    "take (length out) buf = out" "in_session K memfd dev fin sent ps buf ch' s'"
    using session_exchange [OF c b a o q] by blast
  then show ?thesis
    using v s' o Q by (intro exI [of _ out] exI [of _ "\<lparr>cl_pktBuf = buf, cl_ch = ch'\<rparr>"])
      (auto simp: viewer_session_def request_def)
qed

lemma memoryReadBuffer_session:
  assumes v: "viewer_session K phys vm memfd dev fin sent (mem_read_request a n # ps) cl m"
    and n: "0 < n" "unat n \<le> 8172" "unat n \<le> length buf"
  shows "\<exists>cl'. memoryReadBuffer a n buf cl = ((0, phys_bytes m a (unat n) @ drop (unat n) buf), cl') \<and>
    viewer_session K phys vm memfd dev fin sent ps cl' m"
proof -
  have K: "maps_memory K phys vm" "mappable K memfd a n s" for s
    using v n(1) by (simp_all add: viewer_session_def mapped_machine_def)
  let ?Q = "\<lambda>out. length out = 20 + unat n \<and> hdr_errorCode out = FDK_SUCCESS \<and>
      get32 16 out = n \<and> bytes_at 20 (unat n) out = phys_bytes m a (unat n)"
  have "\<exists>out s'. answer_packet K memfd dev (request_bytes FDK_REQ_MEM_READ a n None) s = (FDKD_REPLY, out, s') \<and>
      phys (env s') = m \<and> hdr_opCode out = op_code FDK_RSP_MEM_READ \<and> ?Q out" if "phys (env s) = m" for s
    using answer_mem_read [OF K n(2), of dev s] that unfolding mem_read_request_def by auto
  then obtain out cl' where r: "request FDK_REQ_MEM_READ a n None cl = (0, cl')" and o: "?Q out"
    and t: "take (length out) (cl_pktBuf cl') = out"
    and s: "viewer_session K phys vm memfd dev fin sent ps cl' m"
    using session_request [OF v [unfolded mem_read_request_def] build_mem_read, where Q = ?Q and m' = m
        and q = FDK_RSP_MEM_READ] by (auto simp: is_request_def)
  have tk: "take (20 + unat n) (cl_pktBuf cl') = take (20 + unat n) out" using t o by simp
  have "get32 16 (cl_pktBuf cl') = n" using get_cong_take(3) [OF tk, of 16] o by simp
  moreover have "responseOk cl'"
    using hdr_cong_take(2) [OF tk] o by (simp add: responseOk_def)
  moreover have "bytes_at 20 (unat n) (cl_pktBuf cl') = phys_bytes m a (unat n)"
    using bytes_at_cong_take [OF tk, of 20 "unat n"] o by simp
  moreover have "length (phys_bytes m a (unat n)) = unat n" by (simp add: phys_bytes_def)
  ultimately show ?thesis
    using r s n by (intro exI [of _ cl']) (simp add: memoryReadBuffer_def layout wire_sizes Let_def blit_def)
qed

lemma memoryReadDWord_session:
  assumes "viewer_session K phys vm memfd dev fin sent (mem_read_request a 4 # ps) cl m"
  shows "\<exists>cl'. memoryReadDWord a v0 cl = ((0, dword m a), cl') \<and>
    viewer_session K phys vm memfd dev fin sent ps cl' m"
  using memoryReadBuffer_session [OF assms, of "le_bytes 4 (unat v0)"]
  by (auto simp: memoryReadDWord_def dword_def simp del: le_bytes.simps)

lemma memoryWriteDWord_session:
  assumes v: "viewer_session K phys vm memfd dev fin sent (mem_write_request a (le_bytes 4 (unat w)) # ps) cl m"
  shows "\<exists>cl'. memoryWriteDWord a w cl = (0, cl') \<and>
    viewer_session K phys vm memfd dev fin sent ps cl' (store_dword a w m)"
proof -
  let ?bs = "le_bytes 4 (unat w)"
  have rq: "mem_write_request a ?bs = request_bytes FDK_REQ_MEM_WRITE a 4 (Some ?bs)"
    by (simp add: mem_write_request_def del: le_bytes.simps)
  have K: "maps_memory K phys vm" "mappable K memfd a (word_of_nat (length ?bs)) s" for s
    using v by (simp_all add: viewer_session_def mapped_machine_def del: le_bytes.simps)
  have b: "build_request FDK_REQ_MEM_WRITE a 4 (Some ?bs) (replicate FDK_MAXSZ_PKT 0) =
      Some (24, blit 20 ?bs (put32 16 4 (put64 8 a (replicate FDK_MAXSZ_PKT 0))))"
    using build_mem_write [of ?bs a "replicate FDK_MAXSZ_PKT 0"] by (simp del: le_bytes.simps)
  let ?Q = "\<lambda>out. length out = 20 \<and> hdr_errorCode out = FDK_SUCCESS"
  have "\<exists>out s'. answer_packet K memfd dev (request_bytes FDK_REQ_MEM_WRITE a 4 (Some ?bs)) s = (FDKD_REPLY, out, s') \<and>
      phys (env s') = store_dword a w m \<and> hdr_opCode out = op_code FDK_RSP_MEM_WRITE \<and> ?Q out"
    if "phys (env s) = m" for s
    using answer_mem_write [OF K, of dev s] that unfolding rq store_dword_def
    by (auto simp del: le_bytes.simps)
  then obtain out cl' where r: "request FDK_REQ_MEM_WRITE a 4 (Some ?bs) cl = (0, cl')" and o: "?Q out"
    and q: "hdr_opCode out = op_code FDK_RSP_MEM_WRITE"
    and t: "take (length out) (cl_pktBuf cl') = out"
    and s: "viewer_session K phys vm memfd dev fin sent ps cl' (store_dword a w m)"
    using session_request [OF v [unfolded rq] b, where Q = ?Q and m' = "store_dword a w m"
        and q = FDK_RSP_MEM_WRITE] by (auto simp: is_request_def simp del: le_bytes.simps)
  then have "responseOk cl'"
    using t o hdr_cong_take(2) [of "length out" "cl_pktBuf cl'" out] by (simp add: responseOk_def)
  then show ?thesis
    using r s by (intro exI [of _ cl']) (simp add: memoryWriteDWord_def Let_def del: le_bytes.simps)
qed

interpretation viewer: memory_service memoryReadDWord memoryWriteDWord
  "viewer_session K phys vm memfd dev fin sent" "\<lambda>a. mem_read_request a 4"
  "\<lambda>a w. mem_write_request a (le_bytes 4 (unat w))" for K phys vm memfd dev fin sent
  by standard (simp_all only: memoryReadDWord_session memoryWriteDWord_session)

section \<open>Modifying memory\<close>

text \<open>What a modification stores over the value \<open>old\<close>, its name, and the requests it takes.\<close>

definition modified :: "u32 \<Rightarrow> u32 \<Rightarrow> u32 \<Rightarrow> u32" where
  "modified flag v old =
     (if flag = MEMVR_MEM_WRITE then v else if flag = MEMVR_MEM_OR then old OR v else old AND v)"

definition modify_name :: "u32 \<Rightarrow> string" where
  "modify_name flag =
     (if flag = MEMVR_MEM_WRITE then ''WRITE'' else if flag = MEMVR_MEM_OR then ''OR'' else ''AND'')"

definition modify_requests :: "u32 \<Rightarrow> u64 \<Rightarrow> u32 \<Rightarrow> u32 \<Rightarrow> u8 list list" where
  "modify_requests flag a v old =
     mem_read_request a 4 # (if flag = MEMVR_MEM_WRITE then [] else [mem_read_request a 4]) @
     [mem_write_request a (le_bytes 4 (unat (modified flag v old))), mem_read_request a 4]"

lemma doModify_session:
  assumes f: "flag \<in> {MEMVR_MEM_WRITE, MEMVR_MEM_OR, MEMVR_MEM_AND}"
    and s: "viewer_session K phys vm memfd dev fin sent (modify_requests flag a v (dword m a) @ ps) cl m"
  shows "\<exists>cl'. doModify flag a v False dbit quiet cl =
      ((0, modify_report flag (modify_name flag) a v (dword m a) (modified flag v (dword m a)) dbit quiet), cl') \<and>
    viewer_session K phys vm memfd dev fin sent ps cl' (store_dword a (modified flag v (dword m a)) m)"
proof -
  let ?new = "modified flag v (dword m a)"
  let ?op = "if flag = MEMVR_MEM_WRITE then memoryWriteDWord a v
    else if flag = MEMVR_MEM_OR then memoryORDWord a v else memoryANDDWord a v"
  let ?qs = "(if flag = MEMVR_MEM_WRITE then [] else [mem_read_request a 4]) @
    [mem_write_request a (le_bytes 4 (unat ?new))]"
  have "\<exists>c2. ?op c1 = (0, c2) \<and>
      viewer_session K phys vm memfd dev fin sent (mem_read_request a 4 # ps) c2 (store_dword a ?new m)"
    if "viewer_session K phys vm memfd dev fin sent (?qs @ mem_read_request a 4 # ps) c1 m" for c1
  proof -
    consider "flag = MEMVR_MEM_WRITE" | "flag \<noteq> MEMVR_MEM_WRITE" "flag = MEMVR_MEM_OR"
      | "flag \<noteq> MEMVR_MEM_WRITE" "flag \<noteq> MEMVR_MEM_OR" "flag = MEMVR_MEM_AND" using f by blast
    then show ?thesis
    proof cases
      case 1
      then show ?thesis using that viewer.wr_dword by (simp add: modified_def del: le_bytes.simps)
    next
      case 2
      then show ?thesis
        using that viewer.modify_dword [where f = "\<lambda>x. x OR v" and ?v0.0 = 0]
        by (simp add: modified_def memoryORDWord_def del: le_bytes.simps)
    next
      case 3
      then show ?thesis
        using that viewer.modify_dword [where f = "\<lambda>x. x AND v" and ?v0.0 = 0]
        by (simp add: modified_def memoryANDDWord_def del: le_bytes.simps)
    qed
  qed
  with s obtain c1 c2 c3 where "memoryReadDWord a 0 cl = ((0, dword m a), c1)" "?op c1 = (0, c2)"
    "memoryReadDWord a 0 c2 = ((0, ?new), c3)"
    "viewer_session K phys vm memfd dev fin sent ps c3 (store_dword a ?new m)"
    using viewer.read_operate_read [where qs = ?qs and op = ?op and v = ?new and ?v0.0 = 0 and ?v1.0 = 0]
    by (fastforce simp: modify_requests_def simp del: le_bytes.simps)
  then show ?thesis
    using f by (auto simp: doModify_def modify_name_def MEMVR_MEM_WRITE_def MEMVR_MEM_OR_def
        MEMVR_MEM_AND_def split: if_splits)
qed

end
