(* ===== verification/Memvr_Properties.thy ===== *)
theory Memvr_Properties
  imports Memvr_Session
begin

unbundle bit_operations_syntax

text \<open>
  The properties of the memory viewer: what a command line does to memory, the layout of a dump, and
  the bounds its settings respect.
\<close>

section \<open>Sessions of the program\<close>

lemma connect_session:
  assumes "viewer_session K phys vm memfd dev fin sent (connect_request # ps) cl m"
  shows "\<exists>cl'. connectToFdkServer cl = (0, cl') \<and> viewer_session K phys vm memfd dev fin sent ps cl' m"
  using assms session_connect by (fastforce simp: viewer_session_def connectToFdkServer_def request_def)

lemma disconnect_session:
  assumes "viewer_session K phys vm memfd dev fin sent [disconnect_request] cl m"
  shows "ch_tx (cl_ch (disconnectFromFdkServer cl)) = sent \<and> phys (env fin) = m"
  using assms session_disconnect by (fastforce simp: viewer_session_def disconnectFromFdkServer_def request_def)

section \<open>The command line\<close>

definition option_flag :: "char \<Rightarrow> u32" where
  "option_flag c = (if c = CHR ''w'' then MEMVR_MEM_WRITE else if c = CHR ''o'' then MEMVR_MEM_OR else MEMVR_MEM_AND)"

definition pair_arg :: "nat \<Rightarrow> u64 \<Rightarrow> nat \<Rightarrow> u64 \<Rightarrow> string" where
  "pair_arg p a q v = ''0x'' @ fmt_X p (unat a) @ ''/'' @ ''0x'' @ fmt_X q (unat v)"

lemma ucast_up_down: "(ucast (ucast (v :: u32) :: u64) :: u32) = v"
  by (rule bit_word_eqI) (simp add: bit_simps)

lemma modify_options:
  assumes "c \<in> {CHR ''w'', CHR ''o'', CHR ''a''}" and "p \<in> {1..16}" and "q \<in> {1..16}"
  shows "memvr_options [(c, pair_arg p a q (ucast (v :: u32)))] memvr_defaults =
    Inr (memvr_defaults\<lparr>mo_address := a, mo_value := ucast v, mo_opflags := option_flag c\<rparr>)"
proof -
  have "(ucast v :: u64) \<le> 0xFFFFFFFF"
    using unsigned_less [of v, where ?'a = nat]
    by (simp add: word_le_nat_alt unsigned_ucast_eq take_bit_nat_eq_self)
  moreover have "ParseTwoParameters (pair_arg p a q (ucast v)) x y = (True, a, ucast v)" for x y
    using ParseTwoParameters_fmt [of p q] assms(2,3) by (simp add: pair_arg_def)
  ultimately show ?thesis
    using assms(1) by (auto simp: memvr_option_def option_flag_def memvr_defaults_def not_less)
qed

text \<open>A working session has no write to a closed connection before it.\<close>

lemma session_quiet: "viewer_session K phys vm memfd dev fin sent ps cl m \<Longrightarrow> list_all wr_ok (ch_wr (cl_ch cl))"
  by (auto simp: viewer_session_def in_session_def connected_def)

text \<open>
  C15: end to end, \<open>memvr -w\<close>, \<open>-o\<close> and \<open>-a\<close> do what they say. Against the server of a machine whose
  memory can be mapped, the program parses its argument, sends the requests in order, and exits with
  status 0 having printed the value found and the value read back; the memory then holds the value
  given, or its disjunction or conjunction with the value found, and differs nowhere else.
\<close>

theorem memvr_modifies_memory:
  assumes "mapped_machine K phys vm memfd"
    and "c \<in> {CHR ''w'', CHR ''o'', CHR ''a''}" and "p \<in> {1..16}" and "q \<in> {1..16}"
    and "connectSocket FDK_DEF_IPADDR FDK_DEF_PORT = Some (sfd, ch)" and "list_all wr_ok (ch_wr ch)"
    and "old = dword (phys (env s)) a" and "new = modified (option_flag c) v old"
    and "reqs = connect_request # modify_requests (option_flag c) a v old @ [disconnect_request]"
    and "rx_flat (ch_rx ch) = fst (serve_spec K memfd dev reqs s)"
  shows "\<exists>cl. memvr_main [(c, pair_arg p a q (ucast v))] connectSocket =
      Some ((0, modify_report (option_flag c) (modify_name (option_flag c)) a v old new False False),
       Some (cl, if 0 \<le> sfd then [sfd] else [])) \<and>
    ch_tx (cl_ch cl) = ch_tx ch @ concat reqs \<and>
    phys (env (snd (serve_spec K memfd dev reqs s))) = store_dword a new (phys (env s))"
proof -
  let ?cl = "\<lparr>cl_pktBuf = replicate FDK_MAXSZ_PKT 0, cl_ch = ch\<rparr>"
  let ?fin = "snd (serve_spec K memfd dev reqs s)" and ?sent = "ch_tx ch @ concat reqs"
  let ?m = "phys (env s)" and ?f = "option_flag c"
  have "viewer_session K phys vm memfd dev ?fin ?sent reqs ?cl ?m"
    using assms(1,6,10) in_session_start [of K memfd dev reqs "replicate FDK_MAXSZ_PKT 0" ch s]
    by (auto simp: viewer_session_def connected_def)
  then obtain cl1 where c1: "connectToFdkServer ?cl = (0, cl1)"
    "viewer_session K phys vm memfd dev ?fin ?sent (modify_requests ?f a v old @ [disconnect_request]) cl1 ?m"
    using connect_session [of K phys vm memfd dev ?fin ?sent] assms(9) by blast
  have fl: "?f \<in> {MEMVR_MEM_WRITE, MEMVR_MEM_OR, MEMVR_MEM_AND}" by (simp add: option_flag_def)
  obtain cl2 where c2: "doModify ?f a v False False False cl1 =
      ((0, modify_report ?f (modify_name ?f) a v old new False False), cl2)"
    "viewer_session K phys vm memfd dev ?fin ?sent [disconnect_request] cl2 (store_dword a new ?m)"
    using doModify_session [OF fl c1(2) [unfolded assms(7)], of False False] assms(7,8) by auto
  have "memvr_command (memvr_defaults\<lparr>mo_address := a, mo_value := ucast v, mo_opflags := ?f\<rparr>) cl1 =
      ((0, modify_report ?f (modify_name ?f) a v old new False False), cl2)"
    using c2(1) by (simp add: memvr_command_def memvr_defaults_def option_flag_def MEMVR_MEM_READ_def
        MEMVR_MEM_WRITE_def MEMVR_MEM_OR_def MEMVR_MEM_AND_def ucast_up_down)
  moreover have "?f \<noteq> 0"
    by (simp add: option_flag_def MEMVR_MEM_WRITE_def MEMVR_MEM_OR_def MEMVR_MEM_AND_def)
  moreover have "mo_ipAddr memvr_defaults = FDK_DEF_IPADDR" "mo_port memvr_defaults = FDK_DEF_PORT"
    by (simp_all add: memvr_defaults_def)
  moreover have "\<not> sigpipe ch ch'" "\<not> sigpipe (cl_ch cl1) ch'" "\<not> sigpipe (cl_ch cl2) ch'" for ch'
    using assms(6) session_quiet [OF c1(2)] session_quiet [OF c2(2)] by (simp_all add: not_sigpipe)
  ultimately show ?thesis
    using disconnect_session [OF c2(2)] c1(1) assms(5)
    by (intro exI [of _ "disconnectFromFdkServer cl2"])
      (simp add: memvr_main_def modify_options [OF assms(2-4)] Let_def del: memvr_options.simps)
qed

definition sim_reqs :: "u8 list list" where
  "sim_reqs = connect_request # modify_requests MEMVR_MEM_OR 0x1000 0x80000001 0x03020100 @ [disconnect_request]"

definition sim_channel :: channel where
  "sim_channel = \<lparr>ch_rx = [RxIntr, Chunk (fst (serve_spec sim_os 3 None sim_reqs sim_start))],
     ch_wr = [Accept 5, WrIntr], ch_tx = []\<rparr>"

theorem memvr_modifies_memory_witness:
  "\<exists>cl. memvr_main [(CHR ''o'', pair_arg 8 0x1000 8 (ucast (0x80000001 :: u32)))] (\<lambda>ip port. Some (7, sim_channel)) =
      Some ((0, modify_report MEMVR_MEM_OR ''OR'' 0x1000 0x80000001 0x03020100 0x83020101 False False), Some (cl, [7])) \<and>
    ch_tx (cl_ch cl) = concat sim_reqs \<and>
    sim_mem (env (snd (serve_spec sim_os 3 None sim_reqs sim_start))) =
      store_dword 0x1000 0x83020101 (sim_mem (env sim_start))"
proof -
  have o: "0x03020100 = dword (sim_mem (env sim_start)) 0x1000"
    by (simp add: dword_def phys_bytes_def sim_defs upt_rec)
  have f: "option_flag (CHR ''o'') = MEMVR_MEM_OR" by (simp add: option_flag_def)
  have n: "0x83020101 = modified (option_flag (CHR ''o'')) 0x80000001 0x03020100"
    by (simp add: f modified_def MEMVR_MEM_OR_def MEMVR_MEM_WRITE_def)
  have m: "modify_name MEMVR_MEM_OR = ''OR''" by (simp add: modify_name_def MEMVR_MEM_OR_def MEMVR_MEM_WRITE_def)
  show ?thesis
    using memvr_modifies_memory [OF sim_mapped _ _ _ _ _ o n, of 8 8 "\<lambda>ip port. Some (7, sim_channel)" 7 sim_channel sim_reqs None]
    by (simp add: f m sim_reqs_def sim_channel_def)
qed

section \<open>Settings\<close>

text \<open>What the options can establish.\<close>

definition memvr_opts_ok :: "memvr_opts \<Rightarrow> bool" where
  "memvr_opts_ok mo \<longleftrightarrow> mo_value mo \<le> 0xFFFFFFFF \<and> mo_length mo \<le> ucast MEMVR_MEM_MAXLEN \<and>
     mo_opflags mo AND (NOT (MEMVR_MEM_READ OR MEMVR_MEM_WRITE OR MEMVR_MEM_OR OR MEMVR_MEM_AND OR MEMVR_MEM_DUMP)) = 0 \<and>
     (mo_opflags mo AND MEMVR_MEM_DUMP \<noteq> 0 \<longrightarrow> mo_length mo \<noteq> 0) \<and> \<not> (mo_quiet mo \<and> (mo_verbose mo \<or> mo_dbit mo))"

lemma flag_or:
  "(x OR f) AND NOT m = 0 \<longleftrightarrow> x AND NOT m = 0 \<and> f AND NOT m = (0 :: 'a :: len word)"
  "(x OR f) AND m = 0 \<longleftrightarrow> x AND m = 0 \<and> f AND m = (0 :: 'a :: len word)"
  by (auto simp: bit_eq_iff bit_simps)

lemma memvr_option_ok:
  assumes "memvr_opts_ok mo" and "memvr_option c optarg mo = Inr mo'"
  shows "memvr_opts_ok mo'"
  using assms unfolding memvr_opts_ok_def
  by (auto simp: memvr_option_def flag_or MEMVR_MEM_READ_def MEMVR_MEM_WRITE_def MEMVR_MEM_OR_def
      MEMVR_MEM_AND_def MEMVR_MEM_DUMP_def MEMVR_MEM_MAXLEN_def not_le not_less Let_def
      split: if_splits prod.splits)

lemma memvr_options_ok:
  "memvr_opts_ok mo \<Longrightarrow> memvr_options args mo = Inr mo' \<Longrightarrow> memvr_opts_ok mo'"
  by (induction args mo rule: memvr_options.induct) (auto split: sum.splits dest: memvr_option_ok)

text \<open>
  C39: whatever the command line, in any order and number of options, the settings the program goes on
  with are within bounds: the value has 32 bits, a dump asks for one to 1000h bytes, the size of the
  buffer it is read into, and quiet excludes verbose and bit output.
\<close>

theorem memvr_settings_in_bounds:
  assumes "memvr_options args memvr_defaults = Inr mo"
  shows "mo_value mo \<le> 0xFFFFFFFF \<and> unat (ucast (mo_length mo) :: u32) \<le> unat MEMVR_MEM_MAXLEN \<and>
    (mo_opflags mo AND MEMVR_MEM_DUMP \<noteq> 0 \<longrightarrow> (ucast (mo_length mo) :: u32) \<noteq> 0) \<and>
    \<not> (mo_quiet mo \<and> (mo_verbose mo \<or> mo_dbit mo))"
proof -
  have ok: "memvr_opts_ok mo"
    by (rule memvr_options_ok [OF _ assms]) (simp add: memvr_opts_ok_def memvr_defaults_def)
  then have "unat (mo_length mo) \<le> 0x1000"
    by (simp add: memvr_opts_ok_def MEMVR_MEM_MAXLEN_def word_le_nat_alt)
  then have "unat (ucast (mo_length mo) :: u32) = unat (mo_length mo)"
    by (simp add: unsigned_ucast_eq take_bit_nat_eq_self)
  with ok \<open>unat (mo_length mo) \<le> 0x1000\<close> show ?thesis
    by (simp add: memvr_opts_ok_def MEMVR_MEM_MAXLEN_def word_unat_eq_iff)
qed

theorem memvr_settings_in_bounds_witness:
  "\<exists>mo. memvr_options [(CHR ''q'', []), (CHR ''d'', pair_arg 8 0xF0000 8 0x20000), (CHR ''v'', [])] memvr_defaults = Inr mo \<and>
    mo_value mo \<le> 0xFFFFFFFF \<and> unat (ucast (mo_length mo) :: u32) \<le> unat MEMVR_MEM_MAXLEN \<and>
    (mo_opflags mo AND MEMVR_MEM_DUMP \<noteq> 0 \<longrightarrow> (ucast (mo_length mo) :: u32) \<noteq> 0) \<and>
    \<not> (mo_quiet mo \<and> (mo_verbose mo \<or> mo_dbit mo))"
proof -
  have "ParseTwoParameters (pair_arg 8 0xF0000 8 0x20000) x y = (True, 0xF0000, 0x20000)" for x y
    using ParseTwoParameters_fmt [where p = 8 and q = 8 and v = "0xF0000" and w = "0x20000"] by (simp add: pair_arg_def)
  then obtain mo where
    "memvr_options [(CHR ''q'', []), (CHR ''d'', pair_arg 8 0xF0000 8 0x20000), (CHR ''v'', [])] memvr_defaults = Inr mo"
    by (simp add: memvr_option_def memvr_defaults_def)
  with memvr_settings_in_bounds [OF this] show ?thesis by blast
qed

section \<open>The layout of a dump\<close>

lemma length_dump_cell: "length (dump_cell buf len k) = 3"
proof -
  have "unat (buf ! k) < 16 ^ 2" using unsigned_less [of "buf ! k", where ?'a = nat] by simp
  then show ?thesis by (simp add: dump_cell_def length_fmt_X)
qed

lemma length_address: "length (fmt_X 16 (unat (a :: u64))) = 16"
  using unat_lt_16_16 [of a] by (intro length_fmt_X) simp_all

text \<open>
  C38: a dump shows every byte where its header announces it: byte \<open>k\<close> is the two digits in cell
  \<open>k mod 16\<close> of row \<open>k div 16\<close>, which starts with the address of its first byte; there is a row for
  every started group of sixteen bytes, and no more.
\<close>

theorem dump_shows_bytes:
  "length (dump_rows baseAddr buf len) = (len + 15) div 16 \<and>
   (\<forall>k \<in> {..<len}.
      (let row = dump_rows baseAddr buf len ! (k div 16)
       in digits_value 16 (take 16 row) = unat (baseAddr + word_of_nat (16 * (k div 16))) \<and>
          digits_value 16 (take 2 (drop (19 + 3 * (k mod 16)) row)) = unat (buf ! k)))"
proof -
  have "digits_value 16 (take 16 row) = unat (baseAddr + word_of_nat (16 * (k div 16))) \<and>
      digits_value 16 (take 2 (drop (19 + 3 * (k mod 16)) row)) = unat (buf ! k)"
    if k: "k < len" and row: "row = dump_rows baseAddr buf len ! (k div 16)" for k row
  proof -
    let ?a = "fmt_X 16 (unat (baseAddr + word_of_nat (16 * (k div 16))))"
    let ?cell = "\<lambda>j. dump_cell buf len (16 * (k div 16) + j)"
    have "k div 16 < (len + 15) div 16" using k by linarith
    then obtain r where r: "row = ?a @ '' : '' @ concat (map ?cell [0..<16]) @ r"
      by (simp add: row dump_rows_def dump_row_def MEMVR_BYTE_PER_LINE_def)
    have "bytes_at (3 * (k mod 16)) 3 (concat (map ?cell [0..<16]) @ r) = ?cell ([0..<16] ! (k mod 16))"
      by (intro bytes_at_cells) (simp_all add: length_dump_cell)
    moreover have "?cell ([0..<16] ! (k mod 16)) = fmt_X 2 (unat (buf ! k)) @ '' ''"
      using k by (simp add: dump_cell_def)
    moreover have "drop (19 + c) row = drop c (concat (map ?cell [0..<16]) @ r)" for c
    proof -
      obtain P where P: "P = ?a @ '' : ''" by blast
      then have "length P = 19" "row = P @ concat (map ?cell [0..<16]) @ r"
        using length_address by (simp_all add: r)
      then show ?thesis by simp
    qed
    then have "take 2 (drop (19 + 3 * (k mod 16)) row) =
        take 2 (bytes_at (3 * (k mod 16)) 3 (concat (map ?cell [0..<16]) @ r))"
      by (simp add: bytes_at_def take_take del: take_append drop_append)
    moreover have "length (fmt_X 2 (unat (buf ! k))) = 2"
      using unsigned_less [of "buf ! k", where ?'a = nat] by (intro length_fmt_X) simp_all
    ultimately have "take 2 (drop (19 + 3 * (k mod 16)) row) = fmt_X 2 (unat (buf ! k))" by simp
    moreover have "take 16 row = ?a" using length_address by (simp add: r)
    ultimately show ?thesis using fmt_X_digits by simp
  qed
  then show ?thesis by (auto simp: dump_rows_def MEMVR_BYTE_PER_LINE_def Let_def)
qed

theorem dump_shows_bytes_witness:
  "digits_value 16 (take 2 (drop (19 + 3 * (1 mod 16)) (dump_rows 0xF0000 [0x55, 0xAA, 0x10] 3 ! (1 div 16)))) = 0xAA"
  using dump_shows_bytes [of "0xF0000" "[0x55, 0xAA, 0x10]" 3, THEN conjunct2, THEN bspec, of 1]
  by (simp add: Let_def)

end
