(* ===== verification/Cfdk_Client.thy ===== *)
theory Cfdk_Client
  imports Client_Session
begin

unbundle bit_operations_syntax

text \<open>
  The console client's state, \<open>include/cfdk.h\<close>, and its requests, \<open>src_cfdk/client.c\<close>. The windows of
  the screen are a finite map from window names to their geometry, colour and text.
\<close>

section \<open>State\<close>

text \<open>
  What \<open>getch\<close> returns: a named key of curses, \<open>ERR\<close> after the timeout, a character, or another code.
  Curses keeps the codes of the named keys apart from each other and from the characters.
\<close>

datatype key =
  KEY_UP | KEY_DOWN | KEY_LEFT | KEY_RIGHT | KEY_PPAGE | KEY_NPAGE | KEY_F nat | ERR | Key_char u8 | Key_other

definition KBPRS_ESC :: key where "KBPRS_ESC = Key_char 0x1B"

definition KBPRS_SPACE :: key where "KBPRS_SPACE = Key_char 0x20"

definition KBPRS_ENTER :: key where "KBPRS_ENTER = Key_char 0x0A"

datatype fdkHwFunc_t = KHF_INIT | KHF_MEM | KHF_IO | KHF_PCI | KHF_PCIL | KHF_IDE | KHF_CMOS

datatype fdkColorPairs_t =
    WHITE_RED | WHITE_BLUE | WHITE_YELLOW | WHITE_BLACK | BLACK_WHITE | BLACK_GREEN | BLACK_YELLOW
  | BLACK_BLUE | BLACK_CYAN | CYAN_BLUE | CYAN_WHITE | YELLOW_BLUE | YELLOW_RED | YELLOW_BLACK
  | YELLOW_WHITE | RED_WHITE | RED_BLUE | MAGENTA_BLUE | GREEN_BLUE | GREEN_WHITE

text \<open>The windows declared in the base panel, the dump panel and the panel of the device listing.\<close>

datatype window_name =
    Base_background | Base_logo | Base_copyright | Base_status | Base_time | Base_help
  | Dump_top | Dump_offset | Dump_left | Dump_rtop | Dump_value | Dump_ascii | Dump_info
  | Dump_highlight | Dump_bits | Dump_baseaddr | Dump_hlascii | Dump_ftitle | Dump_stitle | Dump_error
  | List_title | List_content | List_highlight

record window =
  wi_line :: int
  wi_column :: int
  wi_x :: int
  wi_y :: int
  wi_color :: fdkColorPairs_t
  wi_text :: string

type_synonym screen = "window_name \<Rightarrow> window option"

record fdkBasePanel_t =
  lastSecond :: int
  statusStr :: "string option"
  strIdx :: int
  toggleHelp :: bool

record fdkDumpPanel_t =
  byteBase :: u64
  byteOffset :: int
  infoStr :: "string option"
  toggleBits :: bool
  toggleEditing :: bool
  editingBuf :: u8

record fdkPciListPanel_t =
  hlIndex :: int
  pageOffset :: int

definition FDK_MAX_PCINAME :: nat where "FDK_MAX_PCINAME = 75"

record fdkPciIds_t =
  venTxt :: string
  devTxt :: string

text \<open>
  \<open>infoStr\<close> and \<open>statusStr\<close> may be null pointers. \<open>fd\<close> is the channel; \<open>pFdkCommPkt\<close> always points to \<open>pktBuf\<close>. The lists have \<open>numOfPciDevice\<close> and
  \<open>numOfE820Record\<close> entries once read, and are null pointers before.
\<close>

record fdkUiProperty_t =
  ui_ch :: channel
  inputBuf :: key
  fdkHwFunc :: fdkHwFunc_t
  fdkPreviousHwFunc :: fdkHwFunc_t
  pktBuf :: "u8 list"
  fdkBasePanel :: fdkBasePanel_t
  fdkDumpPanel :: fdkDumpPanel_t
  fdkPciListPanel :: fdkPciListPanel_t
  pFdkPciDev :: "fdkPciDev_t list option"
  pFdkPciIds :: "fdkPciIds_t list option"
  numOfPciDevice :: u32
  pciIdsPath :: string
  pciIdsVersion :: string
  pFdkE820record :: "fdkE820record_t list option"
  numOfE820Record :: u32
  ui_screen :: screen
  editorColorCount :: u32

section \<open>Windows\<close>

text \<open>The macros of \<open>cfdk.h\<close>. A window that exists keeps its place and size when it is drawn again.\<close>

definition printWindowAt ::
  "window_name \<Rightarrow> int \<Rightarrow> int \<Rightarrow> int \<Rightarrow> int \<Rightarrow> fdkColorPairs_t \<Rightarrow> string \<Rightarrow> screen \<Rightarrow> screen" where
  "printWindowAt name line column x y color txt sc =
     sc(name \<mapsto>
       (case sc name of
          None \<Rightarrow> \<lparr>wi_line = line, wi_column = column, wi_x = x, wi_y = y, wi_color = color, wi_text = txt\<rparr>
        | Some w \<Rightarrow> w\<lparr>wi_color := color, wi_text := txt\<rparr>))"

definition destroyWindow :: "window_name \<Rightarrow> screen \<Rightarrow> screen" where
  "destroyWindow name sc = sc(name := None)"

definition printWindowMove ::
  "window_name \<Rightarrow> int \<Rightarrow> int \<Rightarrow> int \<Rightarrow> int \<Rightarrow> fdkColorPairs_t \<Rightarrow> string \<Rightarrow> screen \<Rightarrow> screen" where
  "printWindowMove name line column x y color txt sc =
     printWindowAt name line column x y color txt (destroyWindow name sc)"

definition FDK_BYTE_PER_SCREEN :: u32 where "FDK_BYTE_PER_SCREEN = 256"

section \<open>Requests\<close>

definition execute ::
  "fdkUiProperty_t \<Rightarrow> fdkOpCode_t \<Rightarrow> u64 \<Rightarrow> u32 \<Rightarrow> u8 list option \<Rightarrow> s32 \<times> fdkUiProperty_t" where
  "execute ui op addr sz cntBuf =
     (case executeFunction op addr sz cntBuf (pktBuf ui) FDK_MAXSZ_PKT (ui_ch ui) of
        (ret, buf, ch) \<Rightarrow> (ret, ui\<lparr>pktBuf := buf, ui_ch := ch\<rparr>))"

text \<open>\<open>base + (u64)byteOffset\<close> and the one byte of the editing buffer.\<close>

definition writeEditedByte :: "fdkUiProperty_t \<Rightarrow> fdkOpCode_t \<Rightarrow> u64 \<Rightarrow> s32 \<times> fdkUiProperty_t" where
  "writeEditedByte ui op base =
     execute ui op (base + word_of_int (byteOffset (fdkDumpPanel ui))) 1
       (Some [editingBuf (fdkDumpPanel ui)])"

definition cfdk_connectToFdkServer :: "fdkUiProperty_t \<Rightarrow> s32 \<times> fdkUiProperty_t" where
  "cfdk_connectToFdkServer ui = execute ui FDK_REQ_CONNECT 0 0 None"

definition cfdk_disconnectFromFdkServer :: "fdkUiProperty_t \<Rightarrow> fdkUiProperty_t" where
  "cfdk_disconnectFromFdkServer ui = snd (execute ui FDK_REQ_DISCONNECT 0 0 None)"

text \<open>
  The listings. \<open>alloc\<close> is the outcome of the two \<open>calloc\<close>s, whose zeroed entries are replaced by the
  records of the response; \<open>names\<close> is \<open>loadPciNames\<close>.
\<close>

definition blank_ids :: fdkPciIds_t where
  "blank_ids = \<lparr>venTxt = [], devTxt = []\<rparr>"

definition readPciList ::
  "(fdkUiProperty_t \<Rightarrow> s32 \<times> fdkUiProperty_t) \<Rightarrow> bool \<times> bool \<Rightarrow> fdkUiProperty_t \<Rightarrow> s32 \<times> fdkUiProperty_t" where
  "readPciList names alloc ui =
     (let (ret, ui1) = execute ui FDK_REQ_PCI_LIST 0 0 None
      in if ret \<noteq> 0 then (1, ui1)
         else
           let n = get32 (offsetof fdkRspPciListPkt_t ''numOfPciDevice'') (pktBuf ui1)
           in if unat n > FDK_PKT_MAX_PAYLOAD fdkRspPciListPkt_t ''pciListContent'' div sizeof fdkPciDev_layout
              then (1, ui1)
              else
                let recs = records_at (sizeof fdkPciDev_layout) pciDev_at
                             (offsetof fdkRspPciListPkt_t ''pciListContent'') (unat n) (pktBuf ui1);
                    ui2 = ui1\<lparr>pFdkPciDev := (if fst alloc then Some recs else None),
                              pFdkPciIds := (if snd alloc then Some (replicate (unat n) blank_ids) else None)\<rparr>
                in if \<not> fst alloc \<or> \<not> snd alloc then (1, ui2)
                   else (0, snd (names (ui2\<lparr>numOfPciDevice := n\<rparr>))))"

definition getPciDevice :: "fdkUiProperty_t \<Rightarrow> u64 \<Rightarrow> fdkPciDev_t option" where
  "getPciDevice ui num =
     (if num \<ge> ucast (numOfPciDevice ui) then None else Some (the (pFdkPciDev ui) ! unat num))"

definition readE820List :: "bool \<Rightarrow> fdkUiProperty_t \<Rightarrow> s32 \<times> fdkUiProperty_t" where
  "readE820List alloc ui =
     (let (ret, ui1) = execute ui FDK_REQ_E820_LIST 0 0 None
      in if ret \<noteq> 0 then (1, ui1)
         else
           let n = get32 (offsetof fdkRspE820ListPkt_t ''numOfE820Record'') (pktBuf ui1)
           in if unat n > FDK_PKT_MAX_PAYLOAD fdkRspE820ListPkt_t ''e820ListContent'' div sizeof fdkE820record_layout
              then (1, ui1)
              else if \<not> alloc then (1, ui1\<lparr>pFdkE820record := None\<rparr>)
              else (0, ui1\<lparr>pFdkE820record := Some (records_at (sizeof fdkE820record_layout) e820_at
                       (offsetof fdkRspE820ListPkt_t ''e820ListContent'') (unat n) (pktBuf ui1)),
                     numOfE820Record := n\<rparr>))"

text \<open>Reading a screen and writing the edited byte, for each address space.\<close>

definition readMemory :: "fdkUiProperty_t \<Rightarrow> s32 \<times> fdkUiProperty_t" where
  "readMemory ui = execute ui FDK_REQ_MEM_READ (byteBase (fdkDumpPanel ui)) FDK_BYTE_PER_SCREEN None"

definition writeMemoryByEditing :: "fdkUiProperty_t \<Rightarrow> s32 \<times> fdkUiProperty_t" where
  "writeMemoryByEditing ui = writeEditedByte ui FDK_REQ_MEM_WRITE (byteBase (fdkDumpPanel ui))"

definition readIo :: "fdkUiProperty_t \<Rightarrow> s32 \<times> fdkUiProperty_t" where
  "readIo ui = execute ui FDK_REQ_IO_READ (byteBase (fdkDumpPanel ui)) FDK_BYTE_PER_SCREEN None"

definition writeIoByEditing :: "fdkUiProperty_t \<Rightarrow> s32 \<times> fdkUiProperty_t" where
  "writeIoByEditing ui = writeEditedByte ui FDK_REQ_IO_WRITE (byteBase (fdkDumpPanel ui))"

definition readIde :: "fdkUiProperty_t \<Rightarrow> s32 \<times> fdkUiProperty_t" where
  "readIde ui = execute ui FDK_REQ_IDE_READ (byteBase (fdkDumpPanel ui)) FDK_BYTE_PER_SCREEN None"

definition writeIdeByEditing :: "fdkUiProperty_t \<Rightarrow> s32 \<times> fdkUiProperty_t" where
  "writeIdeByEditing ui = writeEditedByte ui FDK_REQ_IDE_WRITE (byteBase (fdkDumpPanel ui))"

definition readCmos :: "fdkUiProperty_t \<Rightarrow> s32 \<times> fdkUiProperty_t" where
  "readCmos ui = execute ui FDK_REQ_CMOS_READ (byteBase (fdkDumpPanel ui)) FDK_BYTE_PER_SCREEN None"

definition writeCmosByEditing :: "fdkUiProperty_t \<Rightarrow> s32 \<times> fdkUiProperty_t" where
  "writeCmosByEditing ui = writeEditedByte ui FDK_REQ_CMOS_WRITE (byteBase (fdkDumpPanel ui))"

definition calculatePciAddress :: "u16 \<Rightarrow> u8 \<Rightarrow> u8 \<Rightarrow> u32" where
  "calculatePciAddress bus dev func =
     0x80000000 OR push_bit 16 (ucast bus AND 0x7FFF) OR push_bit 11 (ucast dev AND 0x1F) OR
     push_bit 8 (ucast func AND 0x07)"

definition readPci :: "fdkUiProperty_t \<Rightarrow> s32 \<times> fdkUiProperty_t" where
  "readPci ui =
     (case getPciDevice ui (byteBase (fdkDumpPanel ui)) of
        None \<Rightarrow> (1, ui)
      | Some d \<Rightarrow>
          execute ui FDK_REQ_PCI_READ (ucast (calculatePciAddress (pd_bus d) (pd_dev d) (pd_fun d)))
            FDK_BYTE_PER_SCREEN None)"

definition writePciByEditing :: "fdkUiProperty_t \<Rightarrow> s32 \<times> fdkUiProperty_t" where
  "writePciByEditing ui =
     (case getPciDevice ui (byteBase (fdkDumpPanel ui)) of
        None \<Rightarrow> (1, ui)
      | Some d \<Rightarrow>
          writeEditedByte ui FDK_REQ_PCI_WRITE (ucast (calculatePciAddress (pd_bus d) (pd_dev d) (pd_fun d))))"

end
