(* ===== verification/Cfdk_PciList.thy ===== *)
theory Cfdk_PciList
  imports Cfdk_Client
begin

text \<open>
  The panel of the device listing, \<open>src_cfdk/pciListPanel.c\<close>: formatting the lines, drawing a page,
  and moving the highlight.
\<close>

section \<open>Constants\<close>

definition FDK_MAX_LINE :: int where "FDK_MAX_LINE = 23"

definition FDK_MAX_COLUMN :: int where "FDK_MAX_COLUMN = 80"

definition FDK_STRING_NLINE :: int where "FDK_STRING_NLINE = 1"

definition FDK_PCIL_TITLE :: string where
  "FDK_PCIL_TITLE = ''PCI/PCI-E Device Listing                                   Ven  '' @ ''Dev  Bus Dev Fun''"

definition FDK_PCIL_TITLE_COLUMN :: int where "FDK_PCIL_TITLE_COLUMN = FDK_MAX_COLUMN"

definition FDK_PCIL_TITLE_LINE :: int where "FDK_PCIL_TITLE_LINE = 1"

definition FDK_PCIL_TITLE_X_POS :: int where "FDK_PCIL_TITLE_X_POS = 1"

definition FDK_PCIL_TITLE_Y_POS :: int where "FDK_PCIL_TITLE_Y_POS = 0"

definition FDK_PCIL_CON_COLUMN :: int where "FDK_PCIL_CON_COLUMN = FDK_MAX_COLUMN"

definition FDK_PCIL_CON_LINE :: int where "FDK_PCIL_CON_LINE = FDK_MAX_LINE - 2"

definition FDK_PCIL_CON_X_POS :: int where "FDK_PCIL_CON_X_POS = 2"

definition FDK_PCIL_CON_Y_POS :: int where "FDK_PCIL_CON_Y_POS = 0"

definition FDK_BUF_SIZE :: nat where
  "FDK_BUF_SIZE = nat (FDK_PCIL_CON_COLUMN * FDK_PCIL_CON_LINE + 1)"

definition FDK_REC_PER_PAGE :: int where "FDK_REC_PER_PAGE = 21"

section \<open>Drawing\<close>

definition printPciListBasePanel :: "fdkUiProperty_t \<Rightarrow> fdkUiProperty_t" where
  "printPciListBasePanel ui =
     ui\<lparr>ui_screen := printWindowAt List_title FDK_PCIL_TITLE_LINE FDK_PCIL_TITLE_COLUMN
          FDK_PCIL_TITLE_X_POS FDK_PCIL_TITLE_Y_POS YELLOW_BLACK FDK_PCIL_TITLE (ui_screen ui)\<rparr>"

text \<open>\<open>%-n.ns\<close>: cut to \<open>n\<close> characters and padded on the right.\<close>

definition fmt_left :: "nat \<Rightarrow> string \<Rightarrow> string" where
  "fmt_left n s = take n s @ replicate (n - length s) (CHR '' '')"

text \<open>\<open>FDK_PCIL_LINE_FMT\<close>.\<close>

definition pci_line :: "fdkPciIds_t \<Rightarrow> fdkPciDev_t \<Rightarrow> string" where
  "pci_line ids dev =
     fmt_left 12 (venTxt ids) @ '','' @ fmt_left 45 (devTxt ids) @ '' '' @
     fmt_X 4 (unat (pd_vendorId dev)) @ '' '' @ fmt_X 4 (unat (pd_deviceId dev)) @ ''  '' @
     fmt_X 2 (unat (pd_bus dev)) @ ''  '' @ fmt_X 2 (unat (pd_dev dev)) @ ''  '' @ fmt_X 2 (unat (pd_fun dev))"

text \<open>The result of \<open>snprintf\<close>, the full length, and the text stored.\<close>

definition formatPciLine :: "fdkUiProperty_t \<Rightarrow> nat \<Rightarrow> nat \<Rightarrow> nat \<times> string" where
  "formatPciLine ui i len =
     (let s = pci_line (the (pFdkPciIds ui) ! i) (the (pFdkPciDev ui) ! i)
      in (length s, snprintf_text len s))"

text \<open>
  The loop from device \<open>i\<close> on, \<open>n\<close> turns left. \<open>off\<close> is \<open>p - buf\<close>, the size argument of \<open>snprintf\<close> is
  computed in \<open>size_t\<close>, and \<open>calls\<close> collects the offset and size of every call.
\<close>

fun list_loop ::
  "fdkUiProperty_t \<Rightarrow> nat \<Rightarrow> nat \<Rightarrow> nat \<Rightarrow> string \<Rightarrow> string \<Rightarrow> (nat \<times> nat) list \<Rightarrow>
   string \<times> string \<times> (nat \<times> nat) list" where
  "list_loop ui i 0 off buf hlbuf calls = (buf, hlbuf, calls)"
| "list_loop ui i (Suc n) off buf hlbuf calls =
     (let sz = unat (word_of_nat FDK_BUF_SIZE - word_of_nat off :: u64);
          (k, txt) = formatPciLine ui i sz;
          hl = hlIndex (fdkPciListPanel ui) + pageOffset (fdkPciListPanel ui)
      in list_loop ui (Suc i) n (off + k)
           (if length buf < off then buf else take off buf @ txt)
           (if int i = hl then snd (formatPciLine ui i (nat FDK_PCIL_CON_COLUMN + 1)) else hlbuf)
           (calls @ [(off, sz)]))"

definition list_page :: "fdkUiProperty_t \<Rightarrow> string \<times> string \<times> (nat \<times> nat) list" where
  "list_page ui =
     (let start = pageOffset (fdkPciListPanel ui);
          num = int (unat (numOfPciDevice ui));
          end' = (if start + FDK_REC_PER_PAGE > num then num else start + FDK_REC_PER_PAGE)
      in list_loop ui (nat start) (nat (end' - start)) 0 [] [] [])"

definition printPciListUpdatePanel :: "fdkUiProperty_t \<Rightarrow> fdkUiProperty_t" where
  "printPciListUpdatePanel ui =
     (if numOfPciDevice ui = 0 then
        ui\<lparr>ui_screen := printWindowAt List_content FDK_PCIL_CON_LINE FDK_PCIL_CON_COLUMN FDK_PCIL_CON_X_POS
             FDK_PCIL_CON_Y_POS WHITE_BLUE ''No PCI devices found.'' (ui_screen ui)\<rparr>
      else
        (case list_page ui of
           (buf, hlbuf, calls) \<Rightarrow>
             ui\<lparr>ui_screen :=
               printWindowMove List_highlight FDK_STRING_NLINE FDK_PCIL_CON_COLUMN
                 (FDK_PCIL_CON_X_POS + hlIndex (fdkPciListPanel ui)) FDK_PCIL_CON_Y_POS BLACK_CYAN hlbuf
                 (printWindowAt List_content FDK_PCIL_CON_LINE FDK_PCIL_CON_COLUMN FDK_PCIL_CON_X_POS
                   FDK_PCIL_CON_Y_POS WHITE_BLUE buf (ui_screen ui))\<rparr>))"

definition clearPciListBasePanel :: "fdkUiProperty_t \<Rightarrow> fdkUiProperty_t" where
  "clearPciListBasePanel ui = ui\<lparr>ui_screen := destroyWindow List_title (ui_screen ui)\<rparr>"

definition clearPciListUpdatePanel :: "fdkUiProperty_t \<Rightarrow> fdkUiProperty_t" where
  "clearPciListUpdatePanel ui =
     ui\<lparr>ui_screen := destroyWindow List_highlight (destroyWindow List_content (ui_screen ui))\<rparr>"

section \<open>Keys\<close>

text \<open>The panel after a key; \<open>num\<close> is the number of devices.\<close>

definition list_key :: "key \<Rightarrow> int \<Rightarrow> fdkPciListPanel_t \<Rightarrow> fdkPciListPanel_t" where
  "list_key key num p =
     (case key of
        KEY_UP \<Rightarrow>
          (if hlIndex p \<noteq> 0 then p\<lparr>hlIndex := hlIndex p - 1\<rparr>
           else if pageOffset p \<noteq> 0 then p\<lparr>pageOffset := pageOffset p - 1\<rparr> else p)
      | KEY_DOWN \<Rightarrow>
          (if hlIndex p < FDK_REC_PER_PAGE - 1 \<and> pageOffset p + hlIndex p < num - 1
           then p\<lparr>hlIndex := hlIndex p + 1\<rparr>
           else if pageOffset p + FDK_REC_PER_PAGE < num then p\<lparr>pageOffset := pageOffset p + 1\<rparr> else p)
      | KEY_PPAGE \<Rightarrow>
          (if num < FDK_REC_PER_PAGE then p
           else p\<lparr>pageOffset := (if pageOffset p \<ge> FDK_REC_PER_PAGE then pageOffset p - FDK_REC_PER_PAGE else 0),
                  hlIndex := 0\<rparr>)
      | KEY_NPAGE \<Rightarrow>
          (if num < FDK_REC_PER_PAGE then p
           else
             let po = pageOffset p + FDK_REC_PER_PAGE
             in p\<lparr>pageOffset := (if po > num - FDK_REC_PER_PAGE then num - FDK_REC_PER_PAGE else po),
                  hlIndex := FDK_REC_PER_PAGE - 1\<rparr>)
      | _ \<Rightarrow> p)"

definition handleKeyPressForPciListPanel :: "fdkUiProperty_t \<Rightarrow> s32 \<times> fdkUiProperty_t" where
  "handleKeyPressForPciListPanel ui =
     (let p = fdkPciListPanel ui; num = int (unat (numOfPciDevice ui))
      in if inputBuf ui = KBPRS_ENTER then
           (if num = 0 then (0, ui)
            else (1, ui\<lparr>fdkDumpPanel := (fdkDumpPanel ui)
                     \<lparr>byteBase := word_of_int (hlIndex p + pageOffset p)\<rparr>\<rparr>))
         else (0, ui\<lparr>fdkPciListPanel := list_key (inputBuf ui) num p\<rparr>))"

end
