(* ===== verification/Cfdk_Dump.thy ===== *)
theory Cfdk_Dump
  imports Cfdk_PciList Lib_Comm
begin

unbundle bit_operations_syntax

text \<open>
  The dump panel, \<open>src_cfdk/dumpPanel.c\<close>: the text of a screen of bytes, the decoded PCI header, the
  cursor, and the keys that move it, page and edit. \<open>byteOffset\<close> is never negative (an invariant proved
  below), so \<open>div\<close> and \<open>mod\<close> on it are those of C.
\<close>

section \<open>Constants\<close>

definition FDK_INFO_LINE :: int where "FDK_INFO_LINE = FDK_MAX_LINE - 1"

definition FDK_INFO_COLUMN :: int where "FDK_INFO_COLUMN = 0"

definition FDK_INFO_MEMORY_BASE :: string where "FDK_INFO_MEMORY_BASE = ''Type: '' @ ''Memory'' @ ''    Address: ''"

definition FDK_INFO_IO_BASE :: string where "FDK_INFO_IO_BASE = ''Type: '' @ ''I/O'' @ ''    Address: ''"

definition FDK_INFO_PCI_BASE :: string where "FDK_INFO_PCI_BASE = ''Type: '' @ ''PCI/PCI-E'' @ ''    ''"

definition FDK_INFO_IDE_BASE :: string where "FDK_INFO_IDE_BASE = ''Type: '' @ ''Disk'' @ ''    Offset: ''"

definition FDK_INFO_CMOS_BASE :: string where "FDK_INFO_CMOS_BASE = ''Type: '' @ ''CMOS'' @ ''    Address: ''"

text \<open>Formats, as functions of their arguments.\<close>

definition FDK_INFO_MEMORY_BASE_FMT :: "nat \<Rightarrow> nat \<Rightarrow> string" where
  "FDK_INFO_MEMORY_BASE_FMT hi lo = fmt_X 8 hi @ ''-'' @ fmt_X 8 lo @ ''h''"

definition FDK_INFO_IO_BASE_FMT :: "nat \<Rightarrow> string" where
  "FDK_INFO_IO_BASE_FMT port = fmt_X 4 port @ ''h''"

definition FDK_INFO_PCI_BASE_FMT :: "nat \<Rightarrow> nat \<Rightarrow> nat \<Rightarrow> string" where
  "FDK_INFO_PCI_BASE_FMT bus dev func = ''Bus: '' @ fmt_X 2 bus @ ''h, Dev: '' @ fmt_X 2 dev @ ''h, Fun: '' @ fmt_X 2 func @ ''h''"

definition FDK_INFO_CMOS_BASE_FMT :: "nat \<Rightarrow> string" where
  "FDK_INFO_CMOS_BASE_FMT addr = fmt_X 2 addr @ ''h''"

definition FDK_FTITLE_PCI :: string where "FDK_FTITLE_PCI = ''Vendor''"

definition FDK_STITLE_PCI :: string where "FDK_STITLE_PCI = ''Device''"

definition FDK_DUMP_OFF_LINE :: int where "FDK_DUMP_OFF_LINE = 4"

definition FDK_DUMP_OFF_COLUMN :: int where "FDK_DUMP_OFF_COLUMN = 1"

definition FDK_DUMP_HL_DIGITS :: int where "FDK_DUMP_HL_DIGITS = 2"

definition FDK_DUMP_HLA_DIGITS :: int where "FDK_DUMP_HLA_DIGITS = 1"

definition FDK_DUMP_BITS_DIGITS :: int where "FDK_DUMP_BITS_DIGITS = 9"

definition FDK_DUMP_BASEADDR_LINE :: int where "FDK_DUMP_BASEADDR_LINE = FDK_INFO_LINE"

definition FDK_DUMP_FTITLE_LINE :: int where "FDK_DUMP_FTITLE_LINE = 1"

definition FDK_DUMP_FTITLE_COLUMN :: int where "FDK_DUMP_FTITLE_COLUMN = 1"

definition FDK_DUMP_STITLE_LINE :: int where "FDK_DUMP_STITLE_LINE = FDK_DUMP_FTITLE_LINE + 1"

definition FDK_DUMP_ERROR_LINE :: int where "FDK_DUMP_ERROR_LINE = 3"

definition FDK_DUMP_ERROR_COLUMN :: int where "FDK_DUMP_ERROR_COLUMN = 6"

definition FDK_DUMP_TOP_BAR :: string where
  "FDK_DUMP_TOP_BAR = ''00 01 02 03 04 05 06 07 08 09 0A 0B 0C 0D 0E 0F''"

definition FDK_DUMP_LEFT_BAR :: string where
  "FDK_DUMP_LEFT_BAR = ''000000100020003000400050006000700080009000A000B000C000D000E000F0''"

definition FDK_DUMP_RTOP_BAR :: string where "FDK_DUMP_RTOP_BAR = ''0123456789ABCDEF''"

definition FDK_DUMP_TOP_LINE :: int where "FDK_DUMP_TOP_LINE = 4"

definition FDK_DUMP_TOP_COLUMN :: int where "FDK_DUMP_TOP_COLUMN = 6"

definition FDK_DUMP_LEFT_LINE :: int where "FDK_DUMP_LEFT_LINE = FDK_DUMP_TOP_LINE + 1"

definition FDK_DUMP_LEFT_COLUMN :: int where "FDK_DUMP_LEFT_COLUMN = 1"

definition FDK_DUMP_RTOP_LINE :: int where "FDK_DUMP_RTOP_LINE = FDK_DUMP_TOP_LINE"

definition FDK_DUMP_RTOP_COLUMN :: int where
  "FDK_DUMP_RTOP_COLUMN = FDK_DUMP_TOP_COLUMN + int (length FDK_DUMP_TOP_BAR) + 2"

definition FDK_DUMP_BYTE_PER_LINE :: int where "FDK_DUMP_BYTE_PER_LINE = 16"

definition FDK_DUMP_BUF_PER_LINE :: int where "FDK_DUMP_BUF_PER_LINE = FDK_DUMP_BYTE_PER_LINE * 3 - 1"

definition FDK_DUMP_VALUE_LINE :: int where "FDK_DUMP_VALUE_LINE = FDK_DUMP_TOP_LINE + 1"

definition FDK_DUMP_VALUE_COLUMN :: int where "FDK_DUMP_VALUE_COLUMN = FDK_DUMP_LEFT_COLUMN + 5"

definition FDK_DUMP_ASCII_LINE :: int where "FDK_DUMP_ASCII_LINE = FDK_DUMP_TOP_LINE + 1"

definition FDK_DUMP_ASCII_COLUMN :: int where "FDK_DUMP_ASCII_COLUMN = FDK_DUMP_RTOP_COLUMN"

definition FDK_DUMP_ASCII_FILTER :: "u8 \<Rightarrow> char" where
  "FDK_DUMP_ASCII_FILTER x = (if 33 \<le> x \<and> x \<le> 126 then char_of (unat x) else CHR ''.'')"

definition FDK_DUMP_ABUF_SZ :: nat where "FDK_DUMP_ABUF_SZ = 256"

definition FDK_DUMP_VBUF_SZ :: nat where "FDK_DUMP_VBUF_SZ = 256 * 3"

definition FDK_PCIBAR_IO :: u32 where "FDK_PCIBAR_IO = 0x00000001"

definition FDK_PCIBAR_MEMBA_MASK :: u32 where "FDK_PCIBAR_MEMBA_MASK = 0xFFFFFFF0"

definition FDK_PCIBAR_IOBA_MASK :: u32 where "FDK_PCIBAR_IOBA_MASK = 0xFFFFFFFC"

definition FDK_MAXADDR_IO :: u64 where "FDK_MAXADDR_IO = 0xFFFF"

text \<open>The members of \<open>fdkPciConfig_t\<close> that are shown.\<close>

definition fdkPciConfig_t :: layout where
  "fdkPciConfig_t =
     [(''vendorId'', 2), (''deviceId'', 2), (''command'', 2), (''status'', 2), (''revisionId'', 1),
      (''classCode1'', 1), (''classCode2'', 2), (''cacheLine'', 1), (''latencyTimer'', 1),
      (''headerType'', 1), (''bist'', 1), (''baseAddrReg'', 24), (''cardbusCisPointer'', 4),
      (''subSysVendorId'', 2), (''subSysId'', 2), (''expRomBaseAddr'', 4), (''capPointer'', 1),
      (''reserved1'', 1), (''reserved2'', 2), (''reserved3'', 4), (''intLine'', 1), (''intPin'', 1),
      (''minGnt'', 1), (''maxLatency'', 1)]"

section \<open>Data and text of a screen\<close>

text \<open>\<open>dumpData\<close> as an offset into the packet buffer, and the bytes from there.\<close>

definition dumpData :: "fdkUiProperty_t \<Rightarrow> nat" where
  "dumpData ui =
     (case fdkHwFunc ui of
        KHF_PCI \<Rightarrow> offsetof fdkRspPciReadPkt_t ''pciContent''
      | KHF_IO \<Rightarrow> offsetof fdkRspIoReadPkt_t ''ioContent''
      | KHF_IDE \<Rightarrow> offsetof fdkRspIdeReadPkt_t ''ideContent''
      | KHF_CMOS \<Rightarrow> offsetof fdkRspCmosReadPkt_t ''cmosContent''
      | _ \<Rightarrow> offsetof fdkRspMemReadPkt_t ''memContent'')"

definition screen_data :: "fdkUiProperty_t \<Rightarrow> u8 list" where
  "screen_data ui = bytes_at (dumpData ui) (unat FDK_BYTE_PER_SCREEN) (pktBuf ui)"

text \<open>The loop of \<open>printDumpUpdatePanel\<close>: two digits for each byte, with a space before all but the first of a line.\<close>

definition value_cell :: "u8 list \<Rightarrow> nat \<Rightarrow> string" where
  "value_cell data i =
     (if i mod nat FDK_DUMP_BYTE_PER_LINE \<noteq> 0 then '' '' @ fmt_X 2 (unat (data ! i)) else fmt_X 2 (unat (data ! i)))"

definition value_text :: "u8 list \<Rightarrow> string" where
  "value_text data = concat (map (value_cell data) [0..<unat FDK_BYTE_PER_SCREEN])"

definition ascii_text :: "u8 list \<Rightarrow> string" where
  "ascii_text data = map (\<lambda>i. FDK_DUMP_ASCII_FILTER (data ! i)) [0..<unat FDK_BYTE_PER_SCREEN]"

definition summary_head :: "u8 list \<Rightarrow> string" where
  "summary_head data =
     ''VEN ID: '' @ fmt_X 4 (unat (get16 (offsetof fdkPciConfig_t ''vendorId'') data)) @ ''h'' @ [CHR 0x0A] @
     ''DEV ID: '' @ fmt_X 4 (unat (get16 (offsetof fdkPciConfig_t ''deviceId'') data)) @ ''h'' @ [CHR 0x0A, CHR 0x0A] @
     ''Rev ID  : '' @ fmt_X 2 (unat (get8 (offsetof fdkPciConfig_t ''revisionId'') data)) @ ''h'' @ [CHR 0x0A] @
     ''Int Line: '' @ fmt_X 2 (unat (get8 (offsetof fdkPciConfig_t ''intLine'') data)) @ ''h'' @ [CHR 0x0A] @
     ''Int Pin : '' @ fmt_X 2 (unat (get8 (offsetof fdkPciConfig_t ''intPin'') data)) @ ''h'' @ [CHR 0x0A, CHR 0x0A]"

definition summary_bar :: "u8 list \<Rightarrow> nat \<Rightarrow> string" where
  "summary_bar data i =
     (let bar = get32 (offsetof fdkPciConfig_t ''baseAddrReg'' + 4 * i) data;
          io = bar AND FDK_PCIBAR_IO \<noteq> 0
      in (if io then ''I/O'' else ''Mem'') @ '': '' @
         fmt_X 8 (unat (bar AND (if io then FDK_PCIBAR_IOBA_MASK else FDK_PCIBAR_MEMBA_MASK))) @ ''h'' @ [CHR 0x0A])"

text \<open>One \<open>snprintf\<close> behind the text so far: \<open>n\<close> counts the full lengths, and nothing more is written once it reaches \<open>len\<close>.\<close>

definition summary_add :: "nat \<Rightarrow> nat \<times> string \<Rightarrow> string \<Rightarrow> nat \<times> string" where
  "summary_add len st s =
     (case st of (n, txt) \<Rightarrow>
        if n > 0 \<and> n < len then (n + length s, take n txt @ snprintf_text (len - n) s) else (n, txt))"

definition formatPciSummary :: "u8 list \<Rightarrow> nat \<Rightarrow> string" where
  "formatPciSummary data len =
     (let h = summary_head data;
          st = foldl (\<lambda>st i. summary_add len st (summary_bar data i)) (length h, snprintf_text len h) [0..<6];
          rom = [CHR 0x0A] @ ''ROM: '' @ fmt_X 8 (unat (get32 (offsetof fdkPciConfig_t ''expRomBaseAddr'') data)) @
                ''h'' @ [CHR 0x0A]
      in snd (summary_add len st rom))"

section \<open>Drawing\<close>

definition printDumpBasePanel :: "fdkUiProperty_t \<Rightarrow> fdkUiProperty_t" where
  "printDumpBasePanel ui =
     (let s1 = printWindowAt Dump_top FDK_STRING_NLINE (int (length FDK_DUMP_TOP_BAR)) FDK_DUMP_TOP_LINE
                 FDK_DUMP_TOP_COLUMN GREEN_BLUE FDK_DUMP_TOP_BAR (ui_screen ui);
          s2 = (if fdkHwFunc ui \<noteq> KHF_PCI
                then printWindowAt Dump_rtop FDK_STRING_NLINE FDK_DUMP_BYTE_PER_LINE FDK_DUMP_RTOP_LINE
                       FDK_DUMP_RTOP_COLUMN RED_BLUE FDK_DUMP_RTOP_BAR s1
                else s1);
          s3 = printWindowAt Dump_left FDK_DUMP_BYTE_PER_LINE 4 FDK_DUMP_LEFT_LINE FDK_DUMP_LEFT_COLUMN
                 GREEN_BLUE FDK_DUMP_LEFT_BAR s2;
          s4 = printWindowAt Dump_info FDK_STRING_NLINE FDK_MAX_COLUMN FDK_INFO_LINE FDK_INFO_COLUMN WHITE_BLUE
                 (the (infoStr (fdkDumpPanel ui))) s3
      in ui\<lparr>ui_screen := s4\<rparr>)"

text \<open>\<open>None\<close> is \<open>strlen\<close> of a null \<open>infoStr\<close>, which has no defined behaviour.\<close>

definition draw_address :: "int \<Rightarrow> fdkUiProperty_t \<Rightarrow> fdkUiProperty_t" where
  "draw_address column ui =
     (let pDump = fdkDumpPanel ui;
          draw = (\<lambda>w txt. ui\<lparr>ui_screen := printWindowAt Dump_baseaddr FDK_STRING_NLINE w FDK_DUMP_BASEADDR_LINE column
                    WHITE_BLUE txt (ui_screen ui)\<rparr>)
      in case fdkHwFunc ui of
          KHF_IO \<Rightarrow> draw 5 (FDK_INFO_IO_BASE_FMT (unat (byteBase pDump AND 0xFFFF)))
        | KHF_PCI \<Rightarrow>
            (case getPciDevice ui (byteBase pDump) of
               None \<Rightarrow> ui
             | Some d \<Rightarrow>
                 let ids = the (pFdkPciIds ui) ! unat (byteBase pDump);
                     ui1 = draw 29 (FDK_INFO_PCI_BASE_FMT (unat (pd_bus d)) (unat (pd_dev d)) (unat (pd_fun d)))
                 in ui1\<lparr>ui_screen :=
                      printWindowAt Dump_stitle FDK_STRING_NLINE (int FDK_MAX_PCINAME) FDK_DUMP_STITLE_LINE
                        FDK_DUMP_FTITLE_COLUMN WHITE_BLUE (FDK_STITLE_PCI @ '': '' @ devTxt ids)
                        (printWindowAt Dump_ftitle FDK_STRING_NLINE (int FDK_MAX_PCINAME) FDK_DUMP_FTITLE_LINE
                          FDK_DUMP_FTITLE_COLUMN WHITE_BLUE (FDK_FTITLE_PCI @ '': '' @ venTxt ids)
                          (ui_screen ui1))\<rparr>)
        | KHF_CMOS \<Rightarrow> draw 20 (FDK_INFO_CMOS_BASE_FMT (unat (byteBase pDump AND 0xFF)))
        | _ \<Rightarrow> draw 20 (FDK_INFO_MEMORY_BASE_FMT (unat (drop_bit 32 (byteBase pDump)))
                 (unat (byteBase pDump AND 0xFFFFFFFF))))"

definition printBaseAddress :: "fdkUiProperty_t \<Rightarrow> fdkUiProperty_t option" where
  "printBaseAddress ui = map_option (\<lambda>info. draw_address (int (length info)) ui) (infoStr (fdkDumpPanel ui))"

definition bits_text :: "u8 \<Rightarrow> string" where
  "bits_text cur =
     (let b = (\<lambda>i. [if FDK_GET_BIT (ucast cur) i = 1 then CHR ''1'' else CHR ''0''])
      in b 7 @ b 6 @ b 5 @ b 4 @ ''_'' @ b 3 @ b 2 @ b 1 @ b 0)"

text \<open>The cursor's window, or the byte being edited, which blinks.\<close>

definition cursor_y :: "fdkUiProperty_t \<Rightarrow> int" where
  "cursor_y ui = byteOffset (fdkDumpPanel ui) div FDK_DUMP_BYTE_PER_LINE + FDK_DUMP_VALUE_LINE"

definition cursor_x :: "fdkUiProperty_t \<Rightarrow> int" where
  "cursor_x ui = byteOffset (fdkDumpPanel ui) mod FDK_DUMP_BYTE_PER_LINE * 3 + FDK_DUMP_VALUE_COLUMN"

definition print_highlight :: "u8 \<Rightarrow> fdkUiProperty_t \<Rightarrow> fdkUiProperty_t" where
  "print_highlight cur ui =
     (let pDump = fdkDumpPanel ui
      in if toggleEditing pDump then
           (let ui1 = ui\<lparr>editorColorCount := editorColorCount ui + 1\<rparr>
            in ui1\<lparr>ui_screen := printWindowMove Dump_highlight FDK_STRING_NLINE FDK_DUMP_HL_DIGITS (cursor_y ui) (cursor_x ui)
                 (if editorColorCount ui mod 2 \<noteq> 0 then YELLOW_RED else YELLOW_BLACK)
                 (fmt_X 2 (unat (editingBuf pDump))) (ui_screen ui1)\<rparr>)
         else
           (let ui1 = ui\<lparr>ui_screen := printWindowMove Dump_highlight FDK_STRING_NLINE FDK_DUMP_HL_DIGITS (cursor_y ui) (cursor_x ui)
                 YELLOW_RED (fmt_X 2 (unat cur)) (ui_screen ui)\<rparr>
            in ui1\<lparr>fdkDumpPanel := (fdkDumpPanel ui1)\<lparr>editingBuf := cur\<rparr>\<rparr>))"

definition print_bits :: "u8 \<Rightarrow> fdkUiProperty_t \<Rightarrow> fdkUiProperty_t" where
  "print_bits cur ui =
     (if toggleBits (fdkDumpPanel ui)
      then ui\<lparr>ui_screen := printWindowMove Dump_bits FDK_STRING_NLINE FDK_DUMP_BITS_DIGITS (cursor_y ui + 1) (cursor_x ui) WHITE_RED
             (bits_text cur) (ui_screen ui)\<rparr>
      else ui\<lparr>ui_screen := destroyWindow Dump_bits (ui_screen ui)\<rparr>)"

definition print_hlascii :: "u8 \<Rightarrow> fdkUiProperty_t \<Rightarrow> fdkUiProperty_t" where
  "print_hlascii cur ui =
     (if fdkHwFunc ui \<noteq> KHF_PCI
      then ui\<lparr>ui_screen := printWindowMove Dump_hlascii FDK_STRING_NLINE FDK_DUMP_HLA_DIGITS
             (byteOffset (fdkDumpPanel ui) div FDK_DUMP_BYTE_PER_LINE + FDK_DUMP_ASCII_LINE)
             (byteOffset (fdkDumpPanel ui) mod FDK_DUMP_BYTE_PER_LINE + FDK_DUMP_ASCII_COLUMN)
             YELLOW_RED [FDK_DUMP_ASCII_FILTER cur] (ui_screen ui)\<rparr>
      else ui)"

definition print_cursor :: "u8 \<Rightarrow> fdkUiProperty_t \<Rightarrow> fdkUiProperty_t" where
  "print_cursor cur ui = print_hlascii cur (print_bits cur (print_highlight cur ui))"

text \<open>The windows of the bytes, then address and error, then the cursor.\<close>

definition print_values :: "fdkUiProperty_t \<Rightarrow> fdkUiProperty_t" where
  "print_values ui =
     (let data = screen_data ui;
          asciiBuf = (if fdkHwFunc ui = KHF_PCI then formatPciSummary data (FDK_DUMP_ABUF_SZ + 1) else ascii_text data);
          ui1 = ui\<lparr>ui_screen := printWindowAt Dump_value FDK_DUMP_BYTE_PER_LINE FDK_DUMP_BUF_PER_LINE
                  FDK_DUMP_VALUE_LINE FDK_DUMP_VALUE_COLUMN WHITE_BLUE (value_text data) (ui_screen ui)\<rparr>;
          ui2 = ui1\<lparr>ui_screen := printWindowAt Dump_ascii FDK_DUMP_BYTE_PER_LINE FDK_DUMP_BYTE_PER_LINE
                  FDK_DUMP_ASCII_LINE FDK_DUMP_ASCII_COLUMN WHITE_BLUE asciiBuf (ui_screen ui1)\<rparr>
      in ui2\<lparr>ui_screen := printWindowAt Dump_offset FDK_STRING_NLINE 4 FDK_DUMP_OFF_LINE FDK_DUMP_OFF_COLUMN YELLOW_BLUE
           (fmt_X 4 (nat (byteOffset (fdkDumpPanel ui)))) (ui_screen ui2)\<rparr>)"

definition print_error :: "fdkUiProperty_t \<Rightarrow> fdkUiProperty_t" where
  "print_error ui =
     (if hdr_errorCode (pktBuf ui) \<noteq> FDK_SUCCESS
      then ui\<lparr>ui_screen := printWindowAt Dump_error FDK_STRING_NLINE 48 FDK_DUMP_ERROR_LINE FDK_DUMP_ERROR_COLUMN WHITE_RED
             '' Read failed: not present or denied by kernel '' (ui_screen ui)\<rparr>
      else ui\<lparr>ui_screen := destroyWindow Dump_error (ui_screen ui)\<rparr>)"

definition printDumpUpdatePanel :: "fdkUiProperty_t \<Rightarrow> fdkUiProperty_t option" where
  "printDumpUpdatePanel ui =
     map_option (\<lambda>ui1. print_cursor (screen_data ui ! nat (byteOffset (fdkDumpPanel ui))) (print_error ui1))
       (printBaseAddress (print_values ui))"

definition clearDumpBasePanel :: "fdkUiProperty_t \<Rightarrow> fdkUiProperty_t" where
  "clearDumpBasePanel ui =
     ui\<lparr>ui_screen := fold destroyWindow [Dump_top, Dump_rtop, Dump_left, Dump_info] (ui_screen ui)\<rparr>"

definition clearDumpUpdatePanel :: "fdkUiProperty_t \<Rightarrow> fdkUiProperty_t" where
  "clearDumpUpdatePanel ui =
     ui\<lparr>ui_screen := fold destroyWindow [Dump_value, Dump_ascii, Dump_offset, Dump_baseaddr, Dump_highlight,
          Dump_hlascii, Dump_bits, Dump_ftitle, Dump_stitle, Dump_error] (ui_screen ui)\<rparr>"

section \<open>Keys\<close>

text \<open>The static \<open>writeEditedByte\<close> of \<open>dumpPanel.c\<close>.\<close>

definition dump_writeEditedByte :: "fdkUiProperty_t \<Rightarrow> fdkUiProperty_t" where
  "dump_writeEditedByte ui =
     (case fdkHwFunc ui of
        KHF_MEM \<Rightarrow> snd (writeMemoryByEditing ui)
      | KHF_IO \<Rightarrow> snd (writeIoByEditing ui)
      | KHF_PCI \<Rightarrow> snd (writePciByEditing ui)
      | KHF_IDE \<Rightarrow> snd (writeIdeByEditing ui)
      | KHF_CMOS \<Rightarrow> snd (writeCmosByEditing ui)
      | _ \<Rightarrow> ui)"

definition pageDump :: "fdkHwFunc_t \<Rightarrow> u64 \<Rightarrow> bool \<Rightarrow> u64 \<Rightarrow> u64" where
  "pageDump hw num down base =
     (case hw of
        KHF_PCI \<Rightarrow> if num \<noteq> 0 then (base + (if down then 1 else num - 1)) mod num else base
      | KHF_IO \<Rightarrow> (if down then base + 256 else base - 256) AND (FDK_MAXADDR_IO AND NOT 0xFF)
      | KHF_CMOS \<Rightarrow> base
      | KHF_IDE \<Rightarrow> if down then base + 256 else if base \<ge> 256 then base - 256 else base
      | _ \<Rightarrow> if down then base + 256 else base - 256)"

text \<open>The value of a hexadecimal digit character, as the editor computes it.\<close>

definition key_digit :: "u8 \<Rightarrow> nat" where
  "key_digit k =
     (let c = char_of (unat k)
      in if isdigit c then unat k - 48 else of_char (tolower c) - 97 + 10)"

definition edit_key :: "key \<Rightarrow> u8 \<Rightarrow> u8" where
  "edit_key key buf =
     (case key of
        Key_char k \<Rightarrow> if k < 0x80 \<and> isxdigit (char_of (unat k))
                      then ucast (push_bit 4 (ucast buf :: u32) OR word_of_nat (key_digit k)) else buf
      | _ \<Rightarrow> buf)"

definition move_cursor :: "key \<Rightarrow> int \<Rightarrow> int" where
  "move_cursor key off =
     (let col = off mod FDK_DUMP_BYTE_PER_LINE
      in case key of
          KEY_UP \<Rightarrow> (off - FDK_DUMP_BYTE_PER_LINE + 256) mod 256
        | KEY_DOWN \<Rightarrow> (off + FDK_DUMP_BYTE_PER_LINE) mod 256
        | KEY_LEFT \<Rightarrow> off + (if col \<noteq> 0 then - 1 else FDK_DUMP_BYTE_PER_LINE - 1)
        | KEY_RIGHT \<Rightarrow> off + (if col < FDK_DUMP_BYTE_PER_LINE - 1 then 1 else - (FDK_DUMP_BYTE_PER_LINE - 1))
        | _ \<Rightarrow> off)"

definition handleKeyPressForDumpPanel :: "fdkUiProperty_t \<Rightarrow> fdkUiProperty_t" where
  "handleKeyPressForDumpPanel ui =
     (let key = inputBuf ui; d = fdkDumpPanel ui
      in if toggleEditing d then
           (if key = KBPRS_ENTER then
              (let ui1 = dump_writeEditedByte ui
               in ui1\<lparr>fdkDumpPanel := (fdkDumpPanel ui1)\<lparr>toggleEditing := False\<rparr>\<rparr>)
            else ui\<lparr>fdkDumpPanel := d\<lparr>editingBuf := edit_key key (editingBuf d)\<rparr>\<rparr>)
         else if key \<in> {KEY_UP, KEY_DOWN, KEY_LEFT, KEY_RIGHT} then
           ui\<lparr>fdkDumpPanel := d\<lparr>byteOffset := move_cursor key (byteOffset d)\<rparr>\<rparr>
         else if key = KEY_PPAGE \<or> key = KEY_NPAGE then
           ui\<lparr>fdkDumpPanel := d\<lparr>byteBase := pageDump (fdkHwFunc ui) (ucast (numOfPciDevice ui)) (key = KEY_NPAGE) (byteBase d)\<rparr>\<rparr>
         else if key = KBPRS_ENTER then ui\<lparr>fdkDumpPanel := d\<lparr>toggleEditing := True\<rparr>\<rparr>
         else if key = KBPRS_SPACE then ui\<lparr>fdkDumpPanel := d\<lparr>toggleBits := \<not> toggleBits d\<rparr>\<rparr>
         else ui)"

end
