(* ===== verification/Cfdk_Pciids.thy ===== *)
theory Cfdk_Pciids
  imports Cfdk_Client Fdk_Common
begin

text \<open>
  The PCI identifier data base, \<open>src_cfdk/pciids.c\<close>: choosing the newest file, and giving the listed
  devices their vendor and device names. File contents are a parameter: what \<open>fopen\<close> and reading a
  path gives, or nothing. Texts contain no NUL byte, as \<open>fgets\<close> and the string functions expect.
\<close>

type_synonym files = "string \<Rightarrow> string option"

definition FDK_MAX_READBUF :: nat where "FDK_MAX_READBUF = 512"

definition kPciIdsPaths :: "string list" where
  "kPciIdsPaths =
     [FDK_DATADIR @ ''/pci.ids'', ''data/pci.ids'', ''/usr/share/hwdata/pci.ids'',
      ''/usr/share/misc/pci.ids'', ''/usr/share/pci.ids'']"

section \<open>The version header\<close>

text \<open>A line of the header: the version it states.\<close>

definition version_of_line :: "nat \<Rightarrow> string \<Rightarrow> string option" where
  "version_of_line len line =
     (case strstr line ''Version:'' of
        None \<Rightarrow> None
      | Some v \<Rightarrow>
          let v1 = dropWhile isspace (drop (length ''Version:'') v)
          in Some (snprintf_text len (take (strcspn v1 [CHR '' '', CHR 0x09, CHR 0x0A]) v1)))"

text \<open>\<open>fgets\<close> consumes at least one character, so the text shrinks.\<close>

function version_loop :: "nat \<Rightarrow> string \<Rightarrow> string option" where
  "version_loop len txt =
     (case fgets FDK_MAX_READBUF txt of
        None \<Rightarrow> None
      | Some (line, rest) \<Rightarrow>
          if hd line \<noteq> CHR ''#'' then None
          else
            case version_of_line len line of
              Some v \<Rightarrow> Some v
            | None \<Rightarrow> version_loop len rest)"
  by pat_completeness auto

lemma fgets_shrinks: "1 < n \<Longrightarrow> fgets n txt = Some (line, rest) \<Longrightarrow> length rest < length txt \<and> line \<noteq> []"
  by (auto simp: fgets_def Let_def split: if_splits)

termination version_loop
  by (relation "measure (\<lambda>(len, txt). length txt)")
    (auto simp: FDK_MAX_READBUF_def dest: fgets_shrinks [rotated])

declare version_loop.simps [simp del]

definition readPciIdsVersion :: "files \<Rightarrow> string \<Rightarrow> nat \<Rightarrow> string option" where
  "readPciIdsVersion fs path len = (case fs path of None \<Rightarrow> None | Some txt \<Rightarrow> version_loop len txt)"

section \<open>Choosing the file\<close>

text \<open>One candidate: \<open>Some (path, best)\<close> once a file with a version was found (\<open>ret\<close> is 0).\<close>

definition consider_ids :: "files \<Rightarrow> nat \<Rightarrow> (string \<times> string) option \<Rightarrow> string \<Rightarrow> (string \<times> string) option" where
  "consider_ids fs len best path =
     (case readPciIdsVersion fs path 32 of
        None \<Rightarrow> best
      | Some v \<Rightarrow>
          if (case best of None \<Rightarrow> True | Some (_, b) \<Rightarrow> strcmp v b > 0)
          then Some (snprintf_text len path, snprintf_text 32 v) else best)"

text \<open>The path and the version written, or \<open>None\<close> for the result -1.\<close>

definition findPciIdsFile :: "files \<Rightarrow> nat \<Rightarrow> nat \<Rightarrow> (string \<times> string) option" where
  "findPciIdsFile fs len versionLen =
     map_option (\<lambda>(path, best). (path, snprintf_text versionLen best))
       (foldl (consider_ids fs len) None kPciIdsPaths)"

section \<open>Names\<close>

text \<open>\<open>parseIdLine\<close>: the identifier and the name behind it.\<close>

definition parseIdLine :: "string \<Rightarrow> (u32 \<times> string) option" where
  "parseIdLine line =
     (if line = [] \<or> \<not> isxdigit (hd line) then None
      else
        let (v, stop) = strtoull line 16
        in if stop \<noteq> 4 \<or> length line \<le> 4 \<or> \<not> isspace (line ! 4) then None
           else Some (ucast v, dropWhile isspace (drop 4 line)))"

definition name_text :: "string \<Rightarrow> string" where
  "name_text s = snprintf_text FDK_MAX_PCINAME s"

text \<open>One line of the data base: the current vendor, -1 for none, and the names so far.\<close>

definition ids_line ::
  "fdkPciDev_t list \<Rightarrow> string \<Rightarrow> int \<times> fdkPciIds_t list \<Rightarrow> int \<times> fdkPciIds_t list" where
  "ids_line devs line st =
     (case st of (vendor, ids) \<Rightarrow>
        if hd line \<noteq> CHR 0x09 then
          (case parseIdLine line of
             None \<Rightarrow> (- 1, ids)
           | Some (i, name) \<Rightarrow>
               (int (unat i),
                map2 (\<lambda>d x. if ucast (pd_vendorId d) = i then x\<lparr>venTxt := name_text name\<rparr> else x) devs ids))
        else if \<not> (1 < length line \<and> line ! 1 = CHR 0x09) \<and> vendor \<ge> 0 then
          (case parseIdLine (tl line) of
             None \<Rightarrow> (vendor, ids)
           | Some (i, name) \<Rightarrow>
               (vendor,
                map2 (\<lambda>d x. if int (unat (pd_vendorId d)) = vendor \<and> ucast (pd_deviceId d) = i
                            then x\<lparr>devTxt := name_text name\<rparr> else x) devs ids))
        else (vendor, ids))"

function ids_loop :: "fdkPciDev_t list \<Rightarrow> string \<Rightarrow> int \<times> fdkPciIds_t list \<Rightarrow> fdkPciIds_t list" where
  "ids_loop devs txt st =
     (case fgets FDK_MAX_READBUF txt of
        None \<Rightarrow> snd st
      | Some (line0, rest) \<Rightarrow>
          let line = take (strcspn line0 [CHR 0x0A]) line0
          in if line = [] \<or> hd line = CHR ''#'' then ids_loop devs rest st
             else if hd line = CHR ''C'' \<and> 1 < length line \<and> line ! 1 = CHR '' '' then snd st
             else ids_loop devs rest (ids_line devs line st))"
  by pat_completeness auto

termination ids_loop
  by (relation "measure (\<lambda>(devs, txt, st). length txt)")
    (auto simp: FDK_MAX_READBUF_def dest: fgets_shrinks [rotated])

declare ids_loop.simps [simp del]

definition unknown_ids :: fdkPciIds_t where
  "unknown_ids = \<lparr>venTxt = ''Unknown vendor'', devTxt = ''Unknown device''\<rparr>"

definition loadPciNames :: "files \<Rightarrow> fdkUiProperty_t \<Rightarrow> s32 \<times> fdkUiProperty_t" where
  "loadPciNames fs ui =
     (let devs = the (pFdkPciDev ui);
          ids = replicate (unat (numOfPciDevice ui)) unknown_ids
      in case fs (pciIdsPath ui) of
          None \<Rightarrow> (1, ui\<lparr>pFdkPciIds := Some ids\<rparr>)
        | Some txt \<Rightarrow> (0, ui\<lparr>pFdkPciIds := Some (ids_loop devs txt (- 1, ids))\<rparr>))"

end
