(* ===== verification/Cfdk_Ui.thy ===== *)
theory Cfdk_Ui
  imports Cfdk_Dump Cfdk_Pciids
begin

text \<open>
  The main loop of the console client, \<open>src_cfdk/cfdk.c\<close>: the base panel, switching between the
  functions, one turn of the loop for a key, and the program around it.
\<close>

section \<open>Constants\<close>

definition FDK_MAX_TIMESTR :: int where "FDK_MAX_TIMESTR = 8"

definition FDK_HELP_X_POS :: int where "FDK_HELP_X_POS = 3"

definition FDK_HELP_Y_POS :: int where "FDK_HELP_Y_POS = 2"

definition FDK_STS_INTV_SECS :: int where "FDK_STS_INTV_SECS = 1"

definition FDK_WELCOME_TXT :: string where
  "FDK_WELCOME_TXT = ''Welcome to '' @ CFDK_PROGRAM_NAME @ '' '' @ FDK_REVISION @ ''. '' @ FDK_COPYRIGHT_TEXT @
     ''. Author: '' @ FDK_AUTHOR_NAME @ ''. Press F1 for help.''"

section \<open>The base panel\<close>

text \<open>
  \<open>%2.2d\<close> of a field of \<open>struct tm\<close>. The clock is what \<open>time\<close> returned, -1 for an error, with the hour,
  minute and second of \<open>localtime_r\<close>, or nothing when it fails.
\<close>

definition fmt_d2 :: "nat \<Rightarrow> string" where
  "fmt_d2 n = replicate (2 - length (fmt_d n)) (CHR ''0'') @ fmt_d n"

type_synonym clock = "int \<times> (nat \<times> nat \<times> nat) option"

definition updateStatusTimer :: "clock \<Rightarrow> fdkUiProperty_t \<Rightarrow> fdkUiProperty_t" where
  "updateStatusTimer clk ui =
     (let (now, tm) = clk; pBase = fdkBasePanel ui; width = FDK_MAX_COLUMN - FDK_MAX_TIMESTR
      in if now = - 1 \<or> now - lastSecond pBase < FDK_STS_INTV_SECS then ui
         else
           case tm of
             None \<Rightarrow> ui
           | Some (hour, minute, second) \<Rightarrow>
               let ui1 = ui\<lparr>fdkBasePanel := pBase\<lparr>lastSecond := now\<rparr>,
                     ui_screen := printWindowAt Base_time FDK_STRING_NLINE FDK_MAX_TIMESTR FDK_MAX_LINE width
                       BLACK_WHITE (fmt_d2 hour @ '':'' @ fmt_d2 minute @ '':'' @ fmt_d2 second) (ui_screen ui)\<rparr>
               in case statusStr pBase of
                    None \<Rightarrow> ui1
                  | Some txt \<Rightarrow>
                      let idx = (if strIdx pBase \<ge> int (length txt) then 0 else strIdx pBase)
                      in ui1\<lparr>fdkBasePanel := (fdkBasePanel ui1)\<lparr>strIdx := idx + 1\<rparr>,
                           ui_screen := printWindowAt Base_status FDK_STRING_NLINE width FDK_MAX_LINE 0 BLACK_WHITE
                             (take (nat (width - 1)) (drop (nat idx) txt)) (ui_screen ui1)\<rparr>)"

definition printBasePanel :: "fdkUiProperty_t \<Rightarrow> fdkUiProperty_t" where
  "printBasePanel ui =
     (let authorLen = int (length FDK_AUTHOR_NAME)
      in ui\<lparr>ui_screen :=
           printWindowAt Base_copyright FDK_STRING_NLINE authorLen 0 (FDK_MAX_COLUMN - authorLen) WHITE_RED FDK_AUTHOR_NAME
             (printWindowAt Base_logo FDK_STRING_NLINE FDK_MAX_COLUMN 0 0 WHITE_RED
               (CFDK_PROGRAM_NAME @ '' '' @ FDK_REVISION)
               (printWindowAt Base_background FDK_MAX_LINE FDK_MAX_COLUMN 0 0 WHITE_BLUE [] (ui_screen ui)))\<rparr>)"

definition help_text :: "fdkUiProperty_t \<Rightarrow> string" where
  "help_text ui =
     FDK_COPYRIGHT_TEXT @ [CHR 0x0A] @ ''Author: '' @ FDK_AUTHOR_NAME @ [CHR 0x0A, CHR 0x0A] @
     ''  <F1>:  Help (toggle)'' @ [CHR 0x0A] @
     ''  <F2>:  PCI/PCI-E device listing'' @ [CHR 0x0A] @
     ''  <F3>:  PCI/PCI-E device configuration space'' @ [CHR 0x0A] @
     ''  <F4>:  CPU I/O space (x86 only)'' @ [CHR 0x0A] @
     ''  <F5>:  CPU memory space'' @ [CHR 0x0A] @
     ''  <F6>:  Disk content (first disk, see fdkd -b)'' @ [CHR 0x0A] @
     ''  <F7>:  CMOS content (x86 only)'' @ [CHR 0x0A] @
     ''  <Arrows> move  <PgUp/PgDn> page  <Space> bits'' @ [CHR 0x0A] @
     ''  <Enter> edit/commit byte  <Esc> quit'' @ [CHR 0x0A, CHR 0x0A] @
     ''  PCI IDs: '' @ take 44 (if pciIdsPath ui \<noteq> [] then pciIdsPath ui else ''(none)'') @ [CHR 0x0A] @
     ''  Version: '' @ (if pciIdsVersion ui \<noteq> [] then pciIdsVersion ui else ''-'') @ '', '' @
     fmt_d (unat (numOfPciDevice ui)) @ '' devices''"

definition printBaseHelp :: "fdkUiProperty_t \<Rightarrow> fdkUiProperty_t" where
  "printBaseHelp ui =
     ui\<lparr>ui_screen :=
       (if \<not> toggleHelp (fdkBasePanel ui) then destroyWindow Base_help (ui_screen ui)
        else printWindowMove Base_help (FDK_MAX_LINE - 4) (FDK_MAX_COLUMN - 4) FDK_HELP_X_POS
               FDK_HELP_Y_POS BLACK_WHITE (help_text ui) (ui_screen ui))\<rparr>"

section \<open>Functions\<close>

definition switchFunction :: "fdkUiProperty_t \<Rightarrow> fdkUiProperty_t" where
  "switchFunction ui =
     (let ui1 = clearPciListUpdatePanel (clearPciListBasePanel (clearDumpUpdatePanel (clearDumpBasePanel ui)));
          d = fdkDumpPanel ui1;
          base = (if fdkPreviousHwFunc ui1 \<noteq> KHF_PCIL \<or> fdkHwFunc ui1 \<noteq> KHF_PCI then 0 else byteBase d);
          ui2 = ui1\<lparr>fdkDumpPanel := d\<lparr>byteBase := base, byteOffset := 0, toggleEditing := False\<rparr>,
                    fdkPciListPanel := \<lparr>hlIndex = 0, pageOffset = 0\<rparr>\<rparr>;
          info = (\<lambda>txt. printDumpBasePanel (ui2\<lparr>fdkDumpPanel := (fdkDumpPanel ui2)\<lparr>infoStr := Some txt\<rparr>\<rparr>))
      in case fdkHwFunc ui2 of
          KHF_PCIL \<Rightarrow> printPciListBasePanel ui2
        | KHF_IO \<Rightarrow> info FDK_INFO_IO_BASE
        | KHF_PCI \<Rightarrow> info FDK_INFO_PCI_BASE
        | KHF_IDE \<Rightarrow> info FDK_INFO_IDE_BASE
        | KHF_CMOS \<Rightarrow> info FDK_INFO_CMOS_BASE
        | _ \<Rightarrow> info FDK_INFO_MEMORY_BASE)"

definition readCurrent :: "fdkUiProperty_t \<Rightarrow> s32 \<times> fdkUiProperty_t" where
  "readCurrent ui =
     (case fdkHwFunc ui of
        KHF_IO \<Rightarrow> readIo ui
      | KHF_PCI \<Rightarrow> readPci ui
      | KHF_IDE \<Rightarrow> readIde ui
      | KHF_CMOS \<Rightarrow> readCmos ui
      | _ \<Rightarrow> readMemory ui)"

section \<open>The loop\<close>

text \<open>The function a key selects, and its effect on the help and editing toggles.\<close>

definition next_function :: "key \<Rightarrow> fdkHwFunc_t \<Rightarrow> fdkHwFunc_t" where
  "next_function key hw =
     (if key = KEY_F 1 \<or> key = KBPRS_ESC then hw
      else if key = KEY_F 2 then KHF_PCIL
      else if key = KEY_F 3 then KHF_PCI
      else if key = KEY_F 4 then KHF_IO
      else if key = KEY_F 5 then KHF_MEM
      else if key = KEY_F 6 then KHF_IDE
      else if key = KEY_F 7 then KHF_CMOS
      else if hw = KHF_INIT then KHF_MEM else hw)"

definition key_toggles :: "key \<Rightarrow> fdkUiProperty_t \<Rightarrow> fdkUiProperty_t" where
  "key_toggles key ui =
     (if key = KEY_F 1 then
        ui\<lparr>fdkBasePanel := (fdkBasePanel ui)\<lparr>toggleHelp := \<not> toggleHelp (fdkBasePanel ui)\<rparr>\<rparr>
      else if key = KBPRS_ESC then ui\<lparr>fdkDumpPanel := (fdkDumpPanel ui)\<lparr>toggleEditing := False\<rparr>\<rparr>
      else ui)"

text \<open>The two halves of a turn behind the switch: the listing, then the dump.\<close>

definition list_turn :: "fdkUiProperty_t \<Rightarrow> fdkUiProperty_t" where
  "list_turn ui =
     (if fdkHwFunc ui = KHF_PCIL then
        (case handleKeyPressForPciListPanel ui of
           (r, ui1) \<Rightarrow>
             if r \<noteq> 0 then
               switchFunction (ui1\<lparr>fdkPreviousHwFunc := KHF_PCIL, fdkHwFunc := KHF_PCI, inputBuf := ERR\<rparr>)
             else printPciListUpdatePanel ui1)
      else ui)"

definition dump_turn :: "fdkUiProperty_t \<Rightarrow> fdkUiProperty_t option" where
  "dump_turn ui =
     (if fdkHwFunc ui \<noteq> KHF_PCIL then
        (case readCurrent (handleKeyPressForDumpPanel ui) of
           (r, ui1) \<Rightarrow> if r = 0 then printDumpUpdatePanel ui1 else Some ui1)
      else Some ui)"

definition select_function :: "key \<Rightarrow> fdkUiProperty_t \<Rightarrow> fdkUiProperty_t" where
  "select_function key ui =
     (let hw = fdkHwFunc ui;
          next' = next_function key hw;
          ui1 = (key_toggles key (ui\<lparr>inputBuf := key\<rparr>))\<lparr>fdkPreviousHwFunc := hw, fdkHwFunc := next'\<rparr>
      in if hw \<noteq> next' then switchFunction ui1 else ui1)"

text \<open>One turn for a key and a reading of the clock: the loop returns, the behaviour is undefined, or it goes on.\<close>

datatype turn = Return | Crash | Next fdkUiProperty_t

definition ui_turn :: "key \<Rightarrow> clock \<Rightarrow> fdkUiProperty_t \<Rightarrow> turn" where
  "ui_turn key clk ui =
     (if key = KBPRS_ESC \<and> \<not> toggleEditing (fdkDumpPanel ui) then Return
      else
        case dump_turn (list_turn (select_function key ui)) of
          None \<Rightarrow> Crash
        | Some ui1 \<Rightarrow> Next (updateStatusTimer clk (printBaseHelp ui1)))"

text \<open>\<open>runUi\<close> over the keys and clock readings of a run: the state when it returns or when they are used up.\<close>

fun ui_loop :: "(key \<times> clock) list \<Rightarrow> fdkUiProperty_t \<Rightarrow> fdkUiProperty_t option" where
  "ui_loop [] ui = Some ui"
| "ui_loop ((key, clk) # r) ui =
     (case ui_turn key clk ui of
        Return \<Rightarrow> Some (ui\<lparr>inputBuf := key\<rparr>)
      | Crash \<Rightarrow> None
      | Next ui1 \<Rightarrow> ui_loop r ui1)"

definition runUi :: "(key \<times> clock) list \<Rightarrow> fdkUiProperty_t \<Rightarrow> fdkUiProperty_t option" where
  "runUi input ui = ui_loop input (printBasePanel ui)"

end
