(* ===== verification/Cfdk_Invariant.thy ===== *)
theory Cfdk_Invariant
  imports Cfdk_Ui
begin

unbundle bit_operations_syntax

text \<open>
  The state invariant of the console client: cursor and page stay in range, the lists have the lengths
  that are used to index them, the address shown fits its address space, and no window of another
  function is left on the screen. Every turn of the loop preserves it.
\<close>

section \<open>The listing\<close>

definition list_ok :: "int \<Rightarrow> fdkPciListPanel_t \<Rightarrow> bool" where
  "list_ok num p \<longleftrightarrow>
     0 \<le> hlIndex p \<and> hlIndex p < FDK_REC_PER_PAGE \<and> 0 \<le> pageOffset p \<and>
     (if num = 0 then hlIndex p = 0 \<and> pageOffset p = 0 else hlIndex p + pageOffset p < num) \<and>
     (pageOffset p \<noteq> 0 \<longrightarrow> pageOffset p + FDK_REC_PER_PAGE \<le> num)"

lemma list_key_ok: "0 \<le> num \<Longrightarrow> list_ok num p \<Longrightarrow> list_ok num (list_key key num p)"
  by (cases key) (auto simp: list_ok_def list_key_def FDK_REC_PER_PAGE_def split: if_splits)

section \<open>The address\<close>

definition base_ok :: "fdkHwFunc_t \<Rightarrow> u64 \<Rightarrow> u64 \<Rightarrow> bool" where
  "base_ok hw num base \<longleftrightarrow>
     (case hw of
        KHF_IO \<Rightarrow> base AND 0xFF = 0 \<and> base \<le> 0xFF00
      | KHF_CMOS \<Rightarrow> base = 0
      | KHF_PCI \<Rightarrow> if num = 0 then base = 0 else base < num
      | KHF_MEM \<Rightarrow> base AND 0xFF = 0
      | KHF_IDE \<Rightarrow> base AND 0xFF = 0
      | _ \<Rightarrow> True)"

lemma low_byte: "x AND 0xFF = take_bit 8 (x :: u64)"
  by (simp add: take_bit_eq_mask mask_eq_exp_minus_1)

lemma low_byte_eq: "x AND 0xFF = y AND (0xFF :: u64) \<longleftrightarrow> unat x mod 256 = unat y mod 256"
  by (simp add: low_byte word_unat_eq_iff take_bit_eq_mod unat_mod)

lemma low_byte_shift:
  "(base + 256) AND 0xFF = base AND (0xFF :: u64)" "(base - 256) AND 0xFF = base AND (0xFF :: u64)"
proof -
  have up: "(b + 256) AND 0xFF = b AND (0xFF :: u64)" for b
    by (simp add: low_byte_eq unat_word_ariths mod_mod_cancel)
  show "(base + 256) AND 0xFF = base AND (0xFF :: u64)" by (rule up)
  show "(base - 256) AND 0xFF = base AND (0xFF :: u64)" using up [of "base - 256"] by simp
qed

lemma io_mask: "(x AND (FDK_MAXADDR_IO AND NOT 0xFF)) AND 0xFF = 0" "x AND (FDK_MAXADDR_IO AND NOT 0xFF) \<le> 0xFF00"
proof -
  have "FDK_MAXADDR_IO AND NOT 0xFF = 0xFF00" by (simp add: FDK_MAXADDR_IO_def)
  then show "(x AND (FDK_MAXADDR_IO AND NOT 0xFF)) AND 0xFF = 0"
    "x AND (FDK_MAXADDR_IO AND NOT 0xFF) \<le> 0xFF00"
    by (simp_all add: and.assoc word_and_le1)
qed

lemma pageDump_ok: "base_ok hw num base \<Longrightarrow> base_ok hw num (pageDump hw num down base)"
  using io_mask by (cases hw) (auto simp: base_ok_def pageDump_def low_byte_shift word_mod_less_divisor word_gt_0
      split: if_splits)

lemma move_cursor_ok: "off \<in> {0..<256} \<Longrightarrow> move_cursor key off \<in> {0..<256}"
proof (cases key)
qed (auto simp: move_cursor_def FDK_DUMP_BYTE_PER_LINE_def Let_def split: if_splits, presburger+)

section \<open>The screen\<close>

text \<open>The windows a function may have: none before the first one, and never those of another function.\<close>

definition dump_windows :: "window_name set" where
  "dump_windows = {Dump_top, Dump_offset, Dump_left, Dump_rtop, Dump_value, Dump_ascii, Dump_info, Dump_highlight,
     Dump_bits, Dump_baseaddr, Dump_hlascii, Dump_ftitle, Dump_stitle, Dump_error}"

definition list_windows :: "window_name set" where
  "list_windows = {List_title, List_content, List_highlight}"

definition foreign_windows :: "fdkHwFunc_t \<Rightarrow> window_name set" where
  "foreign_windows hw =
     (case hw of
        KHF_INIT \<Rightarrow> dump_windows \<union> list_windows
      | KHF_PCIL \<Rightarrow> dump_windows
      | KHF_PCI \<Rightarrow> list_windows \<union> {Dump_rtop, Dump_hlascii}
      | _ \<Rightarrow> list_windows \<union> {Dump_ftitle, Dump_stitle})"

definition windows_ok :: "fdkHwFunc_t \<Rightarrow> screen \<Rightarrow> bool" where
  "windows_ok hw sc \<longleftrightarrow> (\<forall>w \<in> foreign_windows hw. sc w = None)"

lemma screen_other [simp]:
  "m \<noteq> n \<Longrightarrow> printWindowAt n l c x y col txt sc m = sc m"
  "m \<noteq> n \<Longrightarrow> printWindowMove n l c x y col txt sc m = sc m"
  "m \<noteq> n \<Longrightarrow> destroyWindow n sc m = sc m"
  "destroyWindow n sc n = None"
  by (simp_all add: printWindowMove_def printWindowAt_def destroyWindow_def)

lemma windows_ok_print [simp]:
  "n \<notin> foreign_windows hw \<Longrightarrow> windows_ok hw (printWindowAt n l c x y col txt sc) = windows_ok hw sc"
  "n \<notin> foreign_windows hw \<Longrightarrow> windows_ok hw (printWindowMove n l c x y col txt sc) = windows_ok hw sc"
  by (auto simp: windows_ok_def) (metis screen_other(1,2))+

lemma windows_ok_destroy: "windows_ok hw sc \<Longrightarrow> windows_ok hw (destroyWindow n sc)"
  by (auto simp: windows_ok_def destroyWindow_def)

section \<open>Requests leave the panels alone\<close>

definition talked :: "fdkUiProperty_t \<Rightarrow> fdkUiProperty_t \<Rightarrow> bool" where
  "talked ui ui' \<longleftrightarrow> (\<exists>b c. ui' = ui\<lparr>pktBuf := b, ui_ch := c\<rparr> \<and> length b = FDK_MAXSZ_PKT)"

lemma talked_refl: "length (pktBuf ui) = FDK_MAXSZ_PKT \<Longrightarrow> talked ui ui"
  unfolding talked_def by (intro exI [of _ "pktBuf ui"] exI [of _ "ui_ch ui"]) simp

text \<open>The requests of the client: a read of one screen, and a write of one byte.\<close>

definition screen_read_op :: "fdkOpCode_t \<Rightarrow> bool" where
  "screen_read_op op \<longleftrightarrow> op \<in> {FDK_REQ_MEM_READ, FDK_REQ_IO_READ, FDK_REQ_PCI_READ, FDK_REQ_IDE_READ, FDK_REQ_CMOS_READ}"

definition byte_write_op :: "fdkOpCode_t \<Rightarrow> bool" where
  "byte_write_op op \<longleftrightarrow> op \<in> {FDK_REQ_MEM_WRITE, FDK_REQ_IO_WRITE, FDK_REQ_PCI_WRITE, FDK_REQ_IDE_WRITE, FDK_REQ_CMOS_WRITE}"

lemma build_screen_read:
  "screen_read_op op \<Longrightarrow> \<exists>len pkt. build_request op addr n None buf = Some (len, pkt) \<and> len \<noteq> 0"
  by (auto simp: screen_read_op_def build_request_def layout)

lemma build_byte_write:
  "byte_write_op op \<Longrightarrow> \<exists>len pkt. build_request op addr 1 (Some [b]) buf = Some (len, pkt) \<and> len \<noteq> 0"
  by (auto simp: byte_write_op_def build_request_def layout fillPayload_def)

lemma execute_sends:
  assumes "length (pktBuf ui) = FDK_MAXSZ_PKT" and "\<forall>bs. cnt = Some bs \<longrightarrow> length bs = unat sz"
    and "\<exists>len pkt. build_request op addr sz cnt (replicate FDK_MAXSZ_PKT 0) = Some (len, pkt) \<and> len \<noteq> 0"
  shows "talked ui (snd (execute ui op addr sz cnt)) \<and>
    (\<exists>k. ch_tx (ui_ch (snd (execute ui op addr sz cnt))) = ch_tx (ui_ch ui) @ take k (request_bytes op addr sz cnt))"
proof -
  obtain len pkt where b: "build_request op addr sz cnt (replicate FDK_MAXSZ_PKT 0) = Some (len, pkt)" "len \<noteq> 0"
    using assms(3) by blast
  obtain e buf rx wr k where "executeFunction op addr sz cnt (pktBuf ui) FDK_MAXSZ_PKT (ui_ch ui) =
      (e, buf, (ui_ch ui)\<lparr>ch_rx := rx, ch_wr := wr, ch_tx := ch_tx (ui_ch ui) @ take k (request_bytes op addr sz cnt)\<rparr>)"
    "length buf = FDK_MAXSZ_PKT"
    using executeFunction_any [OF b assms(2,1), of "ui_ch ui"] by blast
  then show ?thesis by (auto simp: execute_def talked_def)
qed

text \<open>The read request of a function, and the write request that commits an edited byte.\<close>

definition screen_request :: "fdkUiProperty_t \<Rightarrow> u8 list" where
  "screen_request ui =
     (let base = byteBase (fdkDumpPanel ui); rq = (\<lambda>op a. request_bytes op a FDK_BYTE_PER_SCREEN None)
      in case fdkHwFunc ui of
          KHF_IO \<Rightarrow> rq FDK_REQ_IO_READ base
        | KHF_PCI \<Rightarrow>
            (case getPciDevice ui base of None \<Rightarrow> []
             | Some d \<Rightarrow> rq FDK_REQ_PCI_READ (ucast (calculatePciAddress (pd_bus d) (pd_dev d) (pd_fun d))))
        | KHF_IDE \<Rightarrow> rq FDK_REQ_IDE_READ base
        | KHF_CMOS \<Rightarrow> rq FDK_REQ_CMOS_READ base
        | _ \<Rightarrow> rq FDK_REQ_MEM_READ base)"

definition commit_request :: "fdkUiProperty_t \<Rightarrow> u8 list" where
  "commit_request ui =
     (let d = fdkDumpPanel ui;
          rq = (\<lambda>op a. request_bytes op (a + word_of_int (byteOffset d)) 1 (Some [editingBuf d]))
      in case fdkHwFunc ui of
          KHF_MEM \<Rightarrow> rq FDK_REQ_MEM_WRITE (byteBase d)
        | KHF_IO \<Rightarrow> rq FDK_REQ_IO_WRITE (byteBase d)
        | KHF_PCI \<Rightarrow>
            (case getPciDevice ui (byteBase d) of None \<Rightarrow> []
             | Some v \<Rightarrow> rq FDK_REQ_PCI_WRITE (ucast (calculatePciAddress (pd_bus v) (pd_dev v) (pd_fun v))))
        | KHF_IDE \<Rightarrow> rq FDK_REQ_IDE_WRITE (byteBase d)
        | KHF_CMOS \<Rightarrow> rq FDK_REQ_CMOS_WRITE (byteBase d)
        | _ \<Rightarrow> [])"

definition sends :: "u8 list \<Rightarrow> fdkUiProperty_t \<Rightarrow> fdkUiProperty_t \<Rightarrow> bool" where
  "sends rq ui ui' \<longleftrightarrow> talked ui ui' \<and> (\<exists>k. ch_tx (ui_ch ui') = ch_tx (ui_ch ui) @ take k rq)"

lemma sends_nothing: "length (pktBuf ui) = FDK_MAXSZ_PKT \<Longrightarrow> sends rq ui ui"
  by (auto simp: sends_def talked_refl intro: exI [of _ 0])

lemma readCurrent_sends:
  assumes "length (pktBuf ui) = FDK_MAXSZ_PKT"
  shows "sends (screen_request ui) ui (snd (readCurrent ui))"
proof -
  have x: "sends (request_bytes op a FDK_BYTE_PER_SCREEN None) ui (snd (execute ui op a FDK_BYTE_PER_SCREEN None))"
    if "screen_read_op op" for op a
    using execute_sends [OF assms _ build_screen_read [OF that]] by (simp add: sends_def)
  show ?thesis
    by (auto simp: readCurrent_def screen_request_def readMemory_def readIo_def readIde_def readCmos_def readPci_def
        screen_read_op_def Let_def assms sends_nothing intro!: x split: fdkHwFunc_t.split option.split)
qed

lemma commit_sends:
  assumes "length (pktBuf ui) = FDK_MAXSZ_PKT"
  shows "sends (commit_request ui) ui (dump_writeEditedByte ui)"
proof -
  have x: "sends (request_bytes op a 1 (Some [b])) ui (snd (execute ui op a 1 (Some [b])))"
    if "byte_write_op op" for op a b
    using execute_sends [OF assms _ build_byte_write [OF that]] by (simp add: sends_def)
  show ?thesis
    by (auto simp: dump_writeEditedByte_def commit_request_def writeMemoryByEditing_def writeIoByEditing_def
        writeIdeByEditing_def writeCmosByEditing_def writePciByEditing_def writeEditedByte_def
        byte_write_op_def Let_def assms sends_nothing intro!: x split: fdkHwFunc_t.split option.split)
qed

section \<open>The invariant\<close>

definition lists_ok :: "fdkUiProperty_t \<Rightarrow> bool" where
  "lists_ok ui \<longleftrightarrow>
     (\<exists>devs ids. pFdkPciDev ui = Some devs \<and> pFdkPciIds ui = Some ids \<and>
       length devs = unat (numOfPciDevice ui) \<and> length ids = unat (numOfPciDevice ui))"

definition dump_ok :: "fdkHwFunc_t \<Rightarrow> u64 \<Rightarrow> fdkDumpPanel_t \<Rightarrow> bool" where
  "dump_ok hw num d \<longleftrightarrow>
     byteOffset d \<in> {0..<256} \<and>
     (if hw \<in> {KHF_INIT, KHF_PCIL} then byteBase d = 0 \<and> \<not> toggleEditing d else base_ok hw num (byteBase d)) \<and>
     (hw = KHF_INIT \<longrightarrow> infoStr d = None) \<and> (hw \<notin> {KHF_INIT, KHF_PCIL} \<longrightarrow> infoStr d \<noteq> None)"

definition ui_ok :: "fdkUiProperty_t \<Rightarrow> bool" where
  "ui_ok ui \<longleftrightarrow> length (pktBuf ui) = FDK_MAXSZ_PKT \<and> lists_ok ui \<and>
     list_ok (int (unat (numOfPciDevice ui))) (fdkPciListPanel ui) \<and>
     dump_ok (fdkHwFunc ui) (ucast (numOfPciDevice ui)) (fdkDumpPanel ui) \<and>
     windows_ok (fdkHwFunc ui) (ui_screen ui)"

lemma ui_ok_length: "ui_ok ui \<Longrightarrow> length (pktBuf ui) = FDK_MAXSZ_PKT"
  by (simp add: ui_ok_def)

lemma sends_ok: "sends rq ui ui' \<Longrightarrow> ui_ok ui \<Longrightarrow> ui_ok ui'"
  by (auto simp: sends_def talked_def ui_ok_def lists_ok_def)

lemma sends_same: "sends rq ui ui' \<Longrightarrow> fdkHwFunc ui' = fdkHwFunc ui \<and> fdkDumpPanel ui' = fdkDumpPanel ui \<and>
    inputBuf ui' = inputBuf ui"
  by (auto simp: sends_def talked_def)

text \<open>Switching establishes the invariant for the new function.\<close>

lemma windows_ok_cleared:
  "windows_ok hw (fold destroyWindow [List_title, List_highlight, List_content]
     (fold destroyWindow [Dump_value, Dump_ascii, Dump_offset, Dump_baseaddr, Dump_highlight,
          Dump_hlascii, Dump_bits, Dump_ftitle, Dump_stitle, Dump_error]
       (fold destroyWindow [Dump_top, Dump_rtop, Dump_left, Dump_info] sc)))"
  by (cases hw) (simp_all add: windows_ok_def foreign_windows_def dump_windows_def list_windows_def)

lemma destroy_list_windows:
  "destroyWindow List_highlight (destroyWindow List_content (destroyWindow List_title s)) =
     fold destroyWindow [List_title, List_highlight, List_content] s"
  by (auto simp: destroyWindow_def fun_eq_iff)

lemmas switch_defs = switchFunction_def clearPciListUpdatePanel_def clearPciListBasePanel_def
  clearDumpUpdatePanel_def clearDumpBasePanel_def printPciListBasePanel_def printDumpBasePanel_def Let_def

lemma switchFunction_eq:
  "switchFunction ui = ui\<lparr>ui_screen := ui_screen (switchFunction ui),
      fdkDumpPanel := (fdkDumpPanel ui)\<lparr>byteOffset := 0, toggleEditing := False,
        infoStr := infoStr (fdkDumpPanel (switchFunction ui)),
        byteBase := (if fdkPreviousHwFunc ui \<noteq> KHF_PCIL \<or> fdkHwFunc ui \<noteq> KHF_PCI then 0
                     else byteBase (fdkDumpPanel ui))\<rparr>,
      fdkPciListPanel := \<lparr>hlIndex = 0, pageOffset = 0\<rparr>\<rparr>"
  by (cases "fdkHwFunc ui") (simp_all add: switch_defs)

lemma switchFunction_fields [simp]:
  "pktBuf (switchFunction ui) = pktBuf ui" "numOfPciDevice (switchFunction ui) = numOfPciDevice ui"
  "pFdkPciDev (switchFunction ui) = pFdkPciDev ui" "pFdkPciIds (switchFunction ui) = pFdkPciIds ui"
  "fdkHwFunc (switchFunction ui) = fdkHwFunc ui" "inputBuf (switchFunction ui) = inputBuf ui"
  "ui_ch (switchFunction ui) = ui_ch ui"
  "fdkPciListPanel (switchFunction ui) = \<lparr>hlIndex = 0, pageOffset = 0\<rparr>"
  "byteOffset (fdkDumpPanel (switchFunction ui)) = 0"
  "toggleEditing (fdkDumpPanel (switchFunction ui)) = False"
  "byteBase (fdkDumpPanel (switchFunction ui)) =
     (if fdkPreviousHwFunc ui \<noteq> KHF_PCIL \<or> fdkHwFunc ui \<noteq> KHF_PCI then 0 else byteBase (fdkDumpPanel ui))"
  by (subst switchFunction_eq, simp)+

lemma switchFunction_info: "fdkHwFunc ui \<noteq> KHF_PCIL \<Longrightarrow> infoStr (fdkDumpPanel (switchFunction ui)) \<noteq> None"
  by (cases "fdkHwFunc ui") (simp_all add: switch_defs)

lemma switchFunction_windows:
  "fdkHwFunc ui \<noteq> KHF_INIT \<Longrightarrow> windows_ok (fdkHwFunc ui) (ui_screen (switchFunction ui))"
  using windows_ok_cleared [of "fdkHwFunc ui" "ui_screen ui"]
  by (cases "fdkHwFunc ui")
    (simp_all add: switch_defs destroy_list_windows foreign_windows_def dump_windows_def list_windows_def
      del: fold_simps)

lemma switchFunction_ok:
  assumes "length (pktBuf ui) = FDK_MAXSZ_PKT" and "lists_ok ui" and "fdkHwFunc ui \<noteq> KHF_INIT"
    and "fdkPreviousHwFunc ui = KHF_PCIL \<Longrightarrow> fdkHwFunc ui = KHF_PCI \<Longrightarrow>
      base_ok KHF_PCI (ucast (numOfPciDevice ui)) (byteBase (fdkDumpPanel ui))"
  shows "ui_ok (switchFunction ui)"
proof -
  have b: "base_ok hw n 0" for hw n by (cases hw) (simp_all add: base_ok_def word_gt_0)
  have l: "list_ok (int (unat n)) \<lparr>hlIndex = 0, pageOffset = 0\<rparr>" for n :: u32
    by (simp add: list_ok_def FDK_REC_PER_PAGE_def order_less_le)
  show ?thesis
    using assms b l switchFunction_info [of ui] switchFunction_windows [of ui]
    by (auto simp: ui_ok_def dump_ok_def lists_ok_def)
qed

section \<open>One turn\<close>

lemma key_ne [simp]:
  "KBPRS_ENTER \<noteq> KBPRS_ESC" "KBPRS_ESC \<noteq> KBPRS_ENTER" "KEY_F n \<noteq> KBPRS_ESC" "KBPRS_ENTER \<noteq> KEY_F n" "KEY_F n \<noteq> KBPRS_ENTER"
  "ERR \<noteq> KBPRS_ENTER" "KBPRS_SPACE \<noteq> KBPRS_ENTER"
  by (simp_all add: KBPRS_ENTER_def KBPRS_ESC_def KBPRS_SPACE_def)

lemma next_function_INIT: "next_function key hw = KHF_INIT \<Longrightarrow> hw = KHF_INIT \<and> (key = KEY_F 1 \<or> key = KBPRS_ESC)"
  by (auto simp: next_function_def split: if_splits)

definition committing :: "key \<Rightarrow> fdkUiProperty_t \<Rightarrow> bool" where
  "committing key ui \<longleftrightarrow> toggleEditing (fdkDumpPanel ui) \<and> key = KBPRS_ENTER"

lemma getPciDevice_cong:
  "numOfPciDevice u = numOfPciDevice v \<Longrightarrow> pFdkPciDev u = pFdkPciDev v \<Longrightarrow> getPciDevice u = getPciDevice v"
  by (simp add: getPciDevice_def fun_eq_iff)

lemma commit_request_cong:
  "fdkDumpPanel u = fdkDumpPanel v \<Longrightarrow> fdkHwFunc u = fdkHwFunc v \<Longrightarrow> numOfPciDevice u = numOfPciDevice v \<Longrightarrow>
    pFdkPciDev u = pFdkPciDev v \<Longrightarrow> commit_request u = commit_request v"
  using getPciDevice_cong [of u v] by (cases "fdkHwFunc v") (simp_all add: commit_request_def)

lemma screen_request_cong:
  "byteBase (fdkDumpPanel u) = byteBase (fdkDumpPanel v) \<Longrightarrow> fdkHwFunc u = fdkHwFunc v \<Longrightarrow>
    numOfPciDevice u = numOfPciDevice v \<Longrightarrow> pFdkPciDev u = pFdkPciDev v \<Longrightarrow> screen_request u = screen_request v"
  using getPciDevice_cong [of u v] by (cases "fdkHwFunc v") (simp_all add: screen_request_def)

lemma select_function_ok:
  assumes "ui_ok ui" and "key = KBPRS_ESC \<longrightarrow> toggleEditing (fdkDumpPanel ui)"
  shows "ui_ok (select_function key ui)" "inputBuf (select_function key ui) = key"
    "fdkHwFunc (select_function key ui) = KHF_INIT \<longrightarrow> key = KEY_F 1"
    "ui_ch (select_function key ui) = ui_ch ui"
    "committing key (select_function key ui) = committing key ui"
    "committing key ui \<Longrightarrow> commit_request (select_function key ui) = commit_request ui"
proof -
  let ?hw = "fdkHwFunc ui" and ?n = "next_function key (fdkHwFunc ui)"
  let ?u = "(key_toggles key (ui\<lparr>inputBuf := key\<rparr>))\<lparr>fdkPreviousHwFunc := ?hw, fdkHwFunc := ?n\<rparr>"
  have e: "select_function key ui = (if ?hw \<noteq> ?n then switchFunction ?u else ?u)"
    by (simp add: select_function_def Let_def)
  have "length (pktBuf ?u) = FDK_MAXSZ_PKT" "lists_ok ?u" "inputBuf ?u = key" "ui_ch ?u = ui_ch ui"
    using assms(1) by (auto simp: ui_ok_def key_toggles_def lists_ok_def)
  moreover have "base_ok KHF_PCI (ucast (numOfPciDevice ?u)) (byteBase (fdkDumpPanel ?u))" if "?hw = KHF_PCIL"
    using assms(1) that by (auto simp: ui_ok_def key_toggles_def dump_ok_def base_ok_def word_gt_0)
  moreover have "?hw \<noteq> ?n \<Longrightarrow> ?n \<noteq> KHF_INIT" using next_function_INIT [of key ?hw] by metis
  moreover have "ui_ok ?u" if "?hw = ?n"
    using assms that [symmetric] by (auto simp: ui_ok_def key_toggles_def dump_ok_def lists_ok_def)
  ultimately show "ui_ok (select_function key ui)" "inputBuf (select_function key ui) = key"
    "ui_ch (select_function key ui) = ui_ch ui"
    by (auto simp: e intro: switchFunction_ok)
  show "fdkHwFunc (select_function key ui) = KHF_INIT \<longrightarrow> key = KEY_F 1"
    using assms next_function_INIT [of key ?hw] by (auto simp: e ui_ok_def dump_ok_def)
  have n: "?n = ?hw" "?u = ui\<lparr>inputBuf := key, fdkPreviousHwFunc := ?hw\<rparr>" if "committing key ui"
  proof -
    show "?n = ?hw" using that assms(1)
      by (auto simp: committing_def next_function_def ui_ok_def dump_ok_def split: if_splits)
    then show "?u = ui\<lparr>inputBuf := key, fdkPreviousHwFunc := ?hw\<rparr>"
      using that by (simp add: committing_def key_toggles_def)
  qed
  show "committing key (select_function key ui) = committing key ui"
    using n by (auto simp: e committing_def key_toggles_def split: if_splits)
  show "commit_request (select_function key ui) = commit_request ui" if "committing key ui"
    using n [OF that] by (intro commit_request_cong) (simp_all add: e)
qed

lemma printPciListUpdatePanel_eq:
  "\<exists>sc. printPciListUpdatePanel ui = ui\<lparr>ui_screen := sc\<rparr> \<and>
    windows_ok KHF_PCIL sc = windows_ok KHF_PCIL (ui_screen ui)"
  by (intro exI [of _ "ui_screen (printPciListUpdatePanel ui)"])
    (simp add: printPciListUpdatePanel_def foreign_windows_def dump_windows_def split: prod.split)

lemma list_key_handled:
  assumes "ui_ok ui" and "\<not> (inputBuf ui = KBPRS_ENTER \<and> numOfPciDevice ui \<noteq> 0)"
  shows "\<exists>p. handleKeyPressForPciListPanel ui = (0, ui\<lparr>fdkPciListPanel := p\<rparr>) \<and>
    list_ok (int (unat (numOfPciDevice ui))) p"
  using assms list_key_ok [of "int (unat (numOfPciDevice ui))" "fdkPciListPanel ui" "inputBuf ui"]
  by (cases "inputBuf ui = KBPRS_ENTER")
    (auto simp: handleKeyPressForPciListPanel_def ui_ok_def Let_def intro: exI [of _ "fdkPciListPanel ui"])

lemma base_ok_index:
  assumes "0 \<le> i" and "i < uint (n :: u32)"
  shows "base_ok KHF_PCI (ucast n) (word_of_int i)"
proof -
  have "uint n < 2 ^ 32" using uint_lt2p [of n] by simp
  then have "uint (word_of_int i :: u64) = i" using assms by (simp add: uint_word_of_int)
  moreover have "uint (ucast n :: u64) = uint n" by (simp add: uint_up_ucast is_up)
  ultimately have "(word_of_int i :: u64) < ucast n" using assms by (simp add: word_less_def)
  then show ?thesis by (auto simp: base_ok_def)
qed

lemma list_turn_ok:
  assumes "ui_ok ui"
  shows "ui_ok (list_turn ui)" "ui_ch (list_turn ui) = ui_ch ui"
    "fdkHwFunc ui \<noteq> KHF_PCIL \<Longrightarrow> list_turn ui = ui"
    "fdkHwFunc ui = KHF_PCIL \<Longrightarrow> \<not> toggleEditing (fdkDumpPanel (list_turn ui)) \<and>
      fdkHwFunc (list_turn ui) \<in> {KHF_PCIL, KHF_PCI}"
proof -
  show "fdkHwFunc ui \<noteq> KHF_PCIL \<Longrightarrow> list_turn ui = ui" by (simp add: list_turn_def)
  have "ui_ok (list_turn ui) \<and> ui_ch (list_turn ui) = ui_ch ui \<and> \<not> toggleEditing (fdkDumpPanel (list_turn ui)) \<and>
      fdkHwFunc (list_turn ui) \<in> {KHF_PCIL, KHF_PCI}" if hw: "fdkHwFunc ui = KHF_PCIL"
  proof (cases "inputBuf ui = KBPRS_ENTER \<and> numOfPciDevice ui \<noteq> 0")
    case True
    let ?p = "fdkPciListPanel ui"
    let ?u = "ui\<lparr>fdkDumpPanel := (fdkDumpPanel ui)\<lparr>byteBase := word_of_int (hlIndex ?p + pageOffset ?p)\<rparr>,
      fdkPreviousHwFunc := KHF_PCIL, fdkHwFunc := KHF_PCI, inputBuf := ERR\<rparr>"
    have n0: "uint (numOfPciDevice ui) \<noteq> 0" using True by (metis uint_0_iff)
    have e: "list_turn ui = switchFunction ?u"
      using True hw n0 by (simp add: list_turn_def handleKeyPressForPciListPanel_def Let_def)
    have "0 \<le> hlIndex ?p + pageOffset ?p" "hlIndex ?p + pageOffset ?p < uint (numOfPciDevice ui)"
      using assms n0 by (auto simp: ui_ok_def list_ok_def)
    then have "base_ok KHF_PCI (ucast (numOfPciDevice ui)) (word_of_int (hlIndex ?p + pageOffset ?p))"
      by (rule base_ok_index)
    then have "ui_ok (switchFunction ?u)"
      using assms by (intro switchFunction_ok) (simp_all add: ui_ok_def lists_ok_def)
    then show ?thesis by (simp add: e)
  next
    case False
    obtain p where h: "handleKeyPressForPciListPanel ui = (0, ui\<lparr>fdkPciListPanel := p\<rparr>)"
      and p: "list_ok (int (unat (numOfPciDevice ui))) p"
      using list_key_handled [OF assms False] by blast
    obtain sc where "printPciListUpdatePanel (ui\<lparr>fdkPciListPanel := p\<rparr>) = ui\<lparr>fdkPciListPanel := p, ui_screen := sc\<rparr>"
      and sc: "windows_ok KHF_PCIL sc = windows_ok KHF_PCIL (ui_screen ui)"
      using printPciListUpdatePanel_eq [of "ui\<lparr>fdkPciListPanel := p\<rparr>"] by auto
    then have "list_turn ui = ui\<lparr>fdkPciListPanel := p, ui_screen := sc\<rparr>"
      using hw h by (simp add: list_turn_def)
    then show ?thesis
      using assms p sc hw by (simp add: ui_ok_def lists_ok_def dump_ok_def)
  qed
  then show "ui_ok (list_turn ui)" "ui_ch (list_turn ui) = ui_ch ui"
    "fdkHwFunc ui = KHF_PCIL \<Longrightarrow> \<not> toggleEditing (fdkDumpPanel (list_turn ui)) \<and>
      fdkHwFunc (list_turn ui) \<in> {KHF_PCIL, KHF_PCI}"
    using assms by (cases "fdkHwFunc ui = KHF_PCIL"; auto simp: list_turn_def)+
qed

lemma move_cursor_none: "key \<notin> {KEY_UP, KEY_DOWN, KEY_LEFT, KEY_RIGHT} \<Longrightarrow> move_cursor key off = off"
  by (cases key) (simp_all add: move_cursor_def)

text \<open>A key changes the dump panel only, unless it commits an edit.\<close>

lemma handle_key_plain:
  assumes "ui_ok ui" and "\<not> committing (inputBuf ui) ui" and "fdkHwFunc ui \<noteq> KHF_PCIL"
    and "fdkHwFunc ui = KHF_INIT \<longrightarrow> inputBuf ui = KEY_F 1"
  shows "\<exists>d. handleKeyPressForDumpPanel ui = ui\<lparr>fdkDumpPanel := d\<rparr> \<and> ui_ok (ui\<lparr>fdkDumpPanel := d\<rparr>)"
proof -
  let ?u = "handleKeyPressForDumpPanel ui" and ?num = "ucast (numOfPciDevice ui) :: u64"
  have u: "?u = ui\<lparr>fdkDumpPanel := fdkDumpPanel ?u\<rparr>"
    using assms(2) by (simp add: handleKeyPressForDumpPanel_def committing_def Let_def)
  have "dump_ok (fdkHwFunc ui) ?num (fdkDumpPanel ?u)"
    using assms move_cursor_ok [of "byteOffset (fdkDumpPanel ui)" "inputBuf ui"]
      pageDump_ok [of "fdkHwFunc ui" ?num "byteBase (fdkDumpPanel ui)"]
    by (auto simp: handleKeyPressForDumpPanel_def committing_def ui_ok_def dump_ok_def Let_def)
  then have "ui_ok (ui\<lparr>fdkDumpPanel := fdkDumpPanel ?u\<rparr>)"
    using assms(1) by (auto simp: ui_ok_def lists_ok_def)
  with u show ?thesis by metis
qed

lemma handle_key_commit:
  assumes "ui_ok ui" and "committing (inputBuf ui) ui"
  shows "\<exists>ui1. sends (commit_request ui) ui ui1 \<and>
    handleKeyPressForDumpPanel ui = ui1\<lparr>fdkDumpPanel := (fdkDumpPanel ui1)\<lparr>toggleEditing := False\<rparr>\<rparr>"
  using assms commit_sends [OF ui_ok_length [OF assms(1)]]
  by (auto simp: handleKeyPressForDumpPanel_def committing_def Let_def)

lemma handle_key_ok:
  assumes "ui_ok ui" and "fdkHwFunc ui \<noteq> KHF_PCIL" and "fdkHwFunc ui = KHF_INIT \<longrightarrow> inputBuf ui = KEY_F 1"
  shows "ui_ok (handleKeyPressForDumpPanel ui) \<and> fdkHwFunc (handleKeyPressForDumpPanel ui) = fdkHwFunc ui \<and>
    (\<exists>k. ch_tx (ui_ch (handleKeyPressForDumpPanel ui)) =
       ch_tx (ui_ch ui) @ take k (if committing (inputBuf ui) ui then commit_request ui else []))"
proof (cases "committing (inputBuf ui) ui")
  case True
  obtain ui1 where s: "sends (commit_request ui) ui ui1"
    and h: "handleKeyPressForDumpPanel ui = ui1\<lparr>fdkDumpPanel := (fdkDumpPanel ui1)\<lparr>toggleEditing := False\<rparr>\<rparr>"
    using handle_key_commit [OF assms(1) True] by blast
  have "ui_ok ui1" by (rule sends_ok [OF s assms(1)])
  then have "ui_ok (ui1\<lparr>fdkDumpPanel := (fdkDumpPanel ui1)\<lparr>toggleEditing := False\<rparr>\<rparr>)"
    by (auto simp: ui_ok_def lists_ok_def dump_ok_def)
  then show ?thesis
    using s True sends_same [OF s] by (auto simp: h sends_def)
next
  case False
  then show ?thesis using handle_key_plain [OF assms(1) False assms(2,3)] by auto
qed

text \<open>Drawing leaves all but the screen and the editor's copy of the byte alone.\<close>

definition panel_core :: "fdkUiProperty_t \<Rightarrow> fdkUiProperty_t" where
  "panel_core ui = ui\<lparr>ui_screen := Map.empty, editorColorCount := 0, fdkDumpPanel := (fdkDumpPanel ui)\<lparr>editingBuf := 0\<rparr>\<rparr>"

lemma panel_core_fields:
  assumes "panel_core ui' = panel_core ui"
  shows "pktBuf ui' = pktBuf ui" "ui_ch ui' = ui_ch ui" "numOfPciDevice ui' = numOfPciDevice ui"
    "pFdkPciDev ui' = pFdkPciDev ui" "pFdkPciIds ui' = pFdkPciIds ui" "fdkHwFunc ui' = fdkHwFunc ui"
    "fdkPciListPanel ui' = fdkPciListPanel ui" "inputBuf ui' = inputBuf ui"
    "byteBase (fdkDumpPanel ui') = byteBase (fdkDumpPanel ui)"
    "byteOffset (fdkDumpPanel ui') = byteOffset (fdkDumpPanel ui)"
    "infoStr (fdkDumpPanel ui') = infoStr (fdkDumpPanel ui)"
    "toggleEditing (fdkDumpPanel ui') = toggleEditing (fdkDumpPanel ui)"
proof -
  have d: "(fdkDumpPanel ui')\<lparr>editingBuf := 0\<rparr> = (fdkDumpPanel ui)\<lparr>editingBuf := 0\<rparr>"
    using arg_cong [OF assms, of fdkDumpPanel] by (simp add: panel_core_def)
  show "byteBase (fdkDumpPanel ui') = byteBase (fdkDumpPanel ui)"
    using arg_cong [OF d, of byteBase] by simp
  show "byteOffset (fdkDumpPanel ui') = byteOffset (fdkDumpPanel ui)"
    using arg_cong [OF d, of byteOffset] by simp
  show "infoStr (fdkDumpPanel ui') = infoStr (fdkDumpPanel ui)"
    using arg_cong [OF d, of infoStr] by simp
  show "toggleEditing (fdkDumpPanel ui') = toggleEditing (fdkDumpPanel ui)"
    using arg_cong [OF d, of toggleEditing] by simp
qed (use arg_cong [OF assms, of pktBuf] arg_cong [OF assms, of ui_ch] arg_cong [OF assms, of numOfPciDevice]
    arg_cong [OF assms, of pFdkPciDev] arg_cong [OF assms, of pFdkPciIds] arg_cong [OF assms, of fdkHwFunc]
    arg_cong [OF assms, of fdkPciListPanel] arg_cong [OF assms, of inputBuf] in \<open>simp_all add: panel_core_def\<close>)

definition drawn :: "fdkUiProperty_t \<Rightarrow> fdkUiProperty_t \<Rightarrow> bool" where
  "drawn ui ui' \<longleftrightarrow> panel_core ui' = panel_core ui \<and>
     (fdkHwFunc ui \<notin> {KHF_INIT, KHF_PCIL} \<longrightarrow> windows_ok (fdkHwFunc ui) (ui_screen ui) \<longrightarrow>
       windows_ok (fdkHwFunc ui) (ui_screen ui'))"

lemma drawn_trans: "drawn a b \<Longrightarrow> drawn b c \<Longrightarrow> drawn a c"
  using panel_core_fields(6) [of b a] by (simp add: drawn_def)

lemma drawn_ok:
  assumes "drawn ui ui'" and "ui_ok ui" and "fdkHwFunc ui \<notin> {KHF_INIT, KHF_PCIL}"
  shows "ui_ok ui'"
proof -
  have c: "panel_core ui' = panel_core ui" and w: "windows_ok (fdkHwFunc ui) (ui_screen ui')"
    using assms by (auto simp: drawn_def ui_ok_def)
  show ?thesis
    using assms(2,3) w by (simp add: ui_ok_def lists_ok_def dump_ok_def panel_core_fields [OF c])
qed

text \<open>The windows that belong to a function.\<close>

lemma own_windows:
  "hw \<notin> {KHF_INIT, KHF_PCIL} \<Longrightarrow> w \<in> {Dump_top, Dump_offset, Dump_left, Dump_value, Dump_ascii, Dump_info,
     Dump_highlight, Dump_bits, Dump_baseaddr, Dump_error} \<Longrightarrow> w \<notin> foreign_windows hw"
  "hw \<notin> {KHF_INIT, KHF_PCIL, KHF_PCI} \<Longrightarrow> w \<in> {Dump_rtop, Dump_hlascii} \<Longrightarrow> w \<notin> foreign_windows hw"
  "hw = KHF_PCI \<Longrightarrow> w \<in> {Dump_ftitle, Dump_stitle} \<Longrightarrow> w \<notin> foreign_windows hw"
  by (cases hw; auto simp: foreign_windows_def list_windows_def)+

lemma drawn_print:
  "w \<in> {Dump_offset, Dump_value, Dump_ascii, Dump_highlight, Dump_bits, Dump_baseaddr, Dump_error} \<Longrightarrow>
    drawn ui (ui\<lparr>ui_screen := printWindowAt w l c x y col txt (ui_screen ui)\<rparr>)"
  "w \<in> {Dump_offset, Dump_value, Dump_ascii, Dump_highlight, Dump_bits, Dump_baseaddr, Dump_error} \<Longrightarrow>
    drawn ui (ui\<lparr>ui_screen := printWindowMove w l c x y col txt (ui_screen ui)\<rparr>)"
  "fdkHwFunc ui = KHF_PCI \<Longrightarrow> w \<in> {Dump_ftitle, Dump_stitle} \<Longrightarrow>
    drawn ui (ui\<lparr>ui_screen := printWindowAt w l c x y col txt (ui_screen ui)\<rparr>)"
  "fdkHwFunc ui \<noteq> KHF_PCI \<Longrightarrow>
    drawn ui (ui\<lparr>ui_screen := printWindowMove Dump_hlascii l c x y col txt (ui_screen ui)\<rparr>)"
  "drawn ui (ui\<lparr>ui_screen := destroyWindow w (ui_screen ui)\<rparr>)"
  using own_windows [of "fdkHwFunc ui" w] own_windows [of "fdkHwFunc ui" Dump_hlascii] windows_ok_destroy
  by (auto simp: drawn_def panel_core_def)

lemma drawn_edit:
  "drawn ui (ui\<lparr>fdkDumpPanel := (fdkDumpPanel ui)\<lparr>editingBuf := b\<rparr>\<rparr>)" "drawn ui (ui\<lparr>editorColorCount := n\<rparr>)" "drawn ui ui"
  by (simp_all add: drawn_def panel_core_def)

lemma print_values_drawn: "drawn ui (print_values ui)"
  unfolding print_values_def Let_def
  by (rule drawn_trans [OF drawn_print(1) drawn_trans [OF drawn_print(1) drawn_print(1)]]) simp_all

lemma print_error_drawn: "drawn ui (print_error ui)"
  by (simp add: print_error_def drawn_print)

lemma print_cursor_drawn: "drawn ui (print_cursor cur ui)"
proof -
  have "drawn ui (print_highlight cur ui)"
    using own_windows(1) [of "fdkHwFunc ui" Dump_highlight]
    by (simp add: print_highlight_def drawn_def panel_core_def Let_def)
  moreover have "drawn u (print_bits cur u)" "drawn u (print_hlascii cur u)" for u
    by (simp_all add: print_bits_def print_hlascii_def drawn_print drawn_edit)
  ultimately show ?thesis unfolding print_cursor_def using drawn_trans by blast
qed

lemma draw_address_drawn: "drawn ui (draw_address column ui)"
proof (cases "fdkHwFunc ui = KHF_PCI")
  case True
  then show ?thesis
    using own_windows(1) [of KHF_PCI Dump_baseaddr] own_windows(3) [of KHF_PCI Dump_ftitle]
      own_windows(3) [of KHF_PCI Dump_stitle]
    by (simp add: draw_address_def drawn_def panel_core_def Let_def split: option.split)
next
  case False
  then show ?thesis by (cases "fdkHwFunc ui") (simp_all add: draw_address_def Let_def drawn_print)
qed

lemma printDumpUpdatePanel_drawn:
  assumes "printDumpUpdatePanel ui = Some ui'"
  shows "drawn ui ui'"
proof -
  obtain ui1 cur where "printBaseAddress (print_values ui) = Some ui1" "ui' = print_cursor cur (print_error ui1)"
    using assms by (auto simp: printDumpUpdatePanel_def)
  then show ?thesis
    using print_values_drawn draw_address_drawn print_error_drawn print_cursor_drawn drawn_trans
    unfolding printBaseAddress_def by (metis (no_types, lifting) map_option_eq_Some)
qed

lemma printDumpUpdatePanel_crash: "printDumpUpdatePanel ui = None \<longleftrightarrow> infoStr (fdkDumpPanel ui) = None"
  using panel_core_fields(11) [of "print_values ui" ui] print_values_drawn [of ui]
  by (simp add: printDumpUpdatePanel_def printBaseAddress_def drawn_def)

text \<open>What a turn may send: the commit of an edit, if it is one, and then the read of the screen shown.\<close>

definition turn_sends :: "u8 list \<Rightarrow> fdkUiProperty_t \<Rightarrow> fdkUiProperty_t \<Rightarrow> bool" where
  "turn_sends w ui ui' \<longleftrightarrow>
     (\<exists>j k. ch_tx (ui_ch ui') = ch_tx (ui_ch ui) @ take j w @ take k (screen_request ui'))"

lemma dump_turn_ok:
  assumes "ui_ok ui" and "fdkHwFunc ui = KHF_INIT \<longrightarrow> inputBuf ui = KEY_F 1"
  shows "case dump_turn ui of None \<Rightarrow> fdkHwFunc ui = KHF_INIT
    | Some ui' \<Rightarrow> ui_ok ui' \<and> turn_sends (if committing (inputBuf ui) ui then commit_request ui else []) ui ui'"
proof (cases "fdkHwFunc ui = KHF_PCIL")
  case True
  then show ?thesis
    using assms(1) by (auto simp: dump_turn_def turn_sends_def intro: exI [of _ 0])
next
  case False
  let ?w = "if committing (inputBuf ui) ui then commit_request ui else []"
  let ?u1 = "handleKeyPressForDumpPanel ui"
  obtain r u2 where r: "readCurrent ?u1 = (r, u2)" by fastforce
  obtain j where u1: "ui_ok ?u1" "fdkHwFunc ?u1 = fdkHwFunc ui" "ch_tx (ui_ch ?u1) = ch_tx (ui_ch ui) @ take j ?w"
    using handle_key_ok [OF assms(1) False assms(2)] by blast
  have s: "sends (screen_request ?u1) ?u1 u2"
    using readCurrent_sends [OF ui_ok_length [OF u1(1)]] r by simp
  have u2: "ui_ok u2" by (rule sends_ok [OF s u1(1)])
  have hw2: "fdkHwFunc u2 = fdkHwFunc ui" "screen_request u2 = screen_request ?u1"
    using s u1(2) by (auto simp: sends_def talked_def intro!: screen_request_cong)
  obtain k where "ch_tx (ui_ch u2) = ch_tx (ui_ch ?u1) @ take k (screen_request ?u1)"
    using s by (auto simp: sends_def)
  then have t: "turn_sends ?w ui u2"
    unfolding turn_sends_def hw2(2) u1(3) by (intro exI [of _ j] exI [of _ k]) simp
  show ?thesis
  proof (cases "r = 0")
    case False
    then show ?thesis using \<open>fdkHwFunc ui \<noteq> KHF_PCIL\<close> r u2 t by (simp add: dump_turn_def)
  next
    case True
    show ?thesis
    proof (cases "printDumpUpdatePanel u2")
      case None
      then have "fdkHwFunc ui = KHF_INIT"
        using u2 hw2(1) False by (auto simp: printDumpUpdatePanel_crash ui_ok_def dump_ok_def)
      then show ?thesis using False r True None by (simp add: dump_turn_def)
    next
      case (Some ui')
      then have "infoStr (fdkDumpPanel u2) \<noteq> None" using printDumpUpdatePanel_crash [of u2] by auto
      then have n: "fdkHwFunc u2 \<notin> {KHF_INIT, KHF_PCIL}"
        using u2 hw2(1) False by (auto simp: ui_ok_def dump_ok_def)
      note d = printDumpUpdatePanel_drawn [OF Some]
      have c: "panel_core ui' = panel_core u2" using d by (simp add: drawn_def)
      have "screen_request ui' = screen_request u2"
        by (intro screen_request_cong) (simp_all add: panel_core_fields [OF c])
      then have "turn_sends ?w ui ui'" using t by (simp add: turn_sends_def panel_core_fields [OF c])
      then show ?thesis using False r True Some drawn_ok [OF d u2 n] by (simp add: dump_turn_def)
    qed
  qed
qed

text \<open>The base panel is drawn in windows of its own.\<close>

definition base_windows :: "window_name set" where
  "base_windows = {Base_background, Base_logo, Base_copyright, Base_status, Base_time, Base_help}"

lemma base_not_foreign: "w \<in> base_windows \<Longrightarrow> w \<notin> foreign_windows hw"
  by (cases hw) (auto simp: base_windows_def foreign_windows_def dump_windows_def list_windows_def)

lemma base_drawn:
  "ui_ok ui \<Longrightarrow> windows_ok (fdkHwFunc ui) sc \<Longrightarrow> ui_ok (ui\<lparr>fdkBasePanel := b, ui_screen := sc\<rparr>)"
  by (simp add: ui_ok_def lists_ok_def)

lemma base_turn:
  "\<exists>b sc. updateStatusTimer clk (printBaseHelp ui) = ui\<lparr>fdkBasePanel := b, ui_screen := sc\<rparr> \<and>
    (windows_ok (fdkHwFunc ui) (ui_screen ui) \<longrightarrow> windows_ok (fdkHwFunc ui) sc)"
proof -
  let ?u = "updateStatusTimer clk (printBaseHelp ui)"
  have w: "w \<in> base_windows \<Longrightarrow> w \<notin> foreign_windows (fdkHwFunc ui)" for w by (rule base_not_foreign)
  have b: "Base_help \<in> base_windows" "Base_time \<in> base_windows" "Base_status \<in> base_windows"
    by (simp_all add: base_windows_def)
  have "windows_ok (fdkHwFunc ui) (ui_screen ui) \<longrightarrow> windows_ok (fdkHwFunc ui) (ui_screen ?u)"
    using w [OF b(1)] w [OF b(2)] w [OF b(3)] windows_ok_destroy [of "fdkHwFunc ui" "ui_screen ui" Base_help]
    by (simp add: updateStatusTimer_def printBaseHelp_def Let_def split: prod.split option.split)
  moreover have "?u = ui\<lparr>fdkBasePanel := fdkBasePanel ?u, ui_screen := ui_screen ?u\<rparr>"
    by (simp add: updateStatusTimer_def printBaseHelp_def Let_def split: prod.split option.split)
  ultimately show ?thesis by blast
qed

lemma ui_turn_ok:
  assumes "ui_ok ui"
  shows "case ui_turn key clk ui of
      Return \<Rightarrow> key = KBPRS_ESC \<and> \<not> toggleEditing (fdkDumpPanel ui)
    | Crash \<Rightarrow> fdkHwFunc ui = KHF_INIT \<and> key = KEY_F 1
    | Next ui' \<Rightarrow> ui_ok ui' \<and> turn_sends (if committing key ui then commit_request ui else []) ui ui'"
proof (cases "key = KBPRS_ESC \<and> \<not> toggleEditing (fdkDumpPanel ui)")
  case True
  then show ?thesis by (simp add: ui_turn_def)
next
  case False
  then have e: "key = KBPRS_ESC \<longrightarrow> toggleEditing (fdkDumpPanel ui)" by blast
  note s = select_function_ok [OF assms e]
  let ?u1 = "select_function key ui" and ?w = "if committing key ui then commit_request ui else []"
  let ?u2 = "list_turn ?u1"
  note l = list_turn_ok [OF s(1)]
  have init: "fdkHwFunc ?u2 = KHF_INIT \<longrightarrow> fdkHwFunc ?u1 = KHF_INIT \<and> inputBuf ?u2 = KEY_F 1"
    using l(3,4) s(2,3) by (cases "fdkHwFunc ?u1 = KHF_PCIL") auto
  have w: "(if committing (inputBuf ?u2) ?u2 then commit_request ?u2 else []) = ?w"
  proof (cases "fdkHwFunc ?u1 = KHF_PCIL")
    case True
    then have "\<not> toggleEditing (fdkDumpPanel ?u1)" using s(1) by (simp add: ui_ok_def dump_ok_def)
    then have "\<not> committing key ui" using s(5) by (simp add: committing_def)
    then show ?thesis using l(4) [OF True] by (auto simp: committing_def)
  next
    case False
    then show ?thesis using l(3) s(2,5,6) by auto
  qed
  have ini: "fdkHwFunc ui = KHF_INIT" if "fdkHwFunc ?u1 = KHF_INIT"
    using that next_function_INIT [of key "fdkHwFunc ui"]
    by (auto simp: select_function_def Let_def split: if_splits)
  show ?thesis
  proof (cases "dump_turn ?u2")
    case None
    then show ?thesis
      using dump_turn_ok [OF l(1)] init ini s(3) e by (auto simp: ui_turn_def)
  next
    case (Some u3)
    then have u3: "ui_ok u3" "turn_sends ?w ?u2 u3"
      using dump_turn_ok [OF l(1)] init w by auto
    obtain b sc where t: "updateStatusTimer clk (printBaseHelp u3) = u3\<lparr>fdkBasePanel := b, ui_screen := sc\<rparr>"
      "windows_ok (fdkHwFunc u3) (ui_screen u3) \<longrightarrow> windows_ok (fdkHwFunc u3) sc"
      using base_turn by blast
    have "ui_ok (u3\<lparr>fdkBasePanel := b, ui_screen := sc\<rparr>)"
      using base_drawn [OF u3(1)] t(2) u3(1) by (simp add: ui_ok_def)
    moreover have "screen_request (u3\<lparr>fdkBasePanel := b, ui_screen := sc\<rparr>) = screen_request u3"
      by (rule screen_request_cong) simp_all
    ultimately show ?thesis
      using False Some u3(2) s(4) l(2) by (simp add: ui_turn_def t(1) turn_sends_def)
  qed
qed

end
