(* ===== verification/Cfdk_Main.thy ===== *)
theory Cfdk_Main
  imports Cfdk_Invariant
begin

text \<open>
  The program around the loop, \<open>main\<close> of \<open>src_cfdk/cfdk.c\<close>: options, the identifier file, the connection
  over TCP or a serial line, the two listings, the terminal, the exits, which give back what was taken, and
  the signal that can end the program without them.
\<close>

section \<open>Colours and the serial line\<close>

datatype curses_color = COLOR_BLACK | COLOR_RED | COLOR_GREEN | COLOR_YELLOW | COLOR_BLUE | COLOR_MAGENTA | COLOR_CYAN | COLOR_WHITE

text \<open>The calls of \<open>init_pair\<close> in order: pair, foreground, background.\<close>

definition initColorPairs :: "(fdkColorPairs_t \<times> curses_color \<times> curses_color) list" where
  "initColorPairs =
     [(WHITE_RED, COLOR_WHITE, COLOR_RED), (WHITE_BLUE, COLOR_WHITE, COLOR_BLUE),
      (WHITE_YELLOW, COLOR_WHITE, COLOR_YELLOW), (WHITE_BLACK, COLOR_WHITE, COLOR_BLACK),
      (BLACK_WHITE, COLOR_BLACK, COLOR_WHITE), (BLACK_GREEN, COLOR_BLACK, COLOR_GREEN),
      (BLACK_YELLOW, COLOR_BLACK, COLOR_YELLOW), (BLACK_BLUE, COLOR_BLACK, COLOR_BLUE),
      (BLACK_CYAN, COLOR_BLACK, COLOR_CYAN),
      (CYAN_BLUE, COLOR_CYAN, COLOR_BLUE), (CYAN_WHITE, COLOR_CYAN, COLOR_WHITE),
      (RED_BLUE, COLOR_RED, COLOR_BLUE), (RED_WHITE, COLOR_RED, COLOR_WHITE),
      (YELLOW_BLUE, COLOR_YELLOW, COLOR_BLUE), (YELLOW_RED, COLOR_YELLOW, COLOR_RED),
      (YELLOW_BLACK, COLOR_YELLOW, COLOR_BLACK), (YELLOW_WHITE, COLOR_YELLOW, COLOR_WHITE),
      (MAGENTA_BLUE, COLOR_MAGENTA, COLOR_BLUE),
      (GREEN_BLUE, COLOR_GREEN, COLOR_BLUE), (GREEN_WHITE, COLOR_GREEN, COLOR_WHITE)]"

text \<open>
  The calls of curses that put the terminal into the mode of the program and back, as a log.
\<close>

datatype curses_call =
    Initscr | Endwin | Start_color | Cbreak | Noecho | Keypad bool | Set_escdelay nat | Timeout nat
  | Curs_set nat | Init_pair fdkColorPairs_t curses_color curses_color

definition FDK_REFRESH_MS :: nat where "FDK_REFRESH_MS = 100"

definition terminal_setup :: "curses_call list" where
  "terminal_setup =
     [Start_color, Cbreak, Noecho, Keypad True, Set_escdelay 25, Timeout FDK_REFRESH_MS, Curs_set 0] @
     map (\<lambda>(p, f, b). Init_pair p f b) initColorPairs"

text \<open>
  The calls that set a serial line, and what they leave its settings at: \<open>cfmakeraw\<close> gives raw bytes, the
  speed is \<open>B115200\<close>, and \<open>tcsetattr\<close> with \<open>TCSANOW\<close> makes both effective. The argument has the results of
  \<open>tcgetattr\<close>, \<open>cfsetspeed\<close> and \<open>tcsetattr\<close>; \<open>cfmakeraw\<close> has none.
\<close>

datatype line_speed = B115200

datatype tcset_action = TCSANOW

datatype tty_call = Tcgetattr | Cfmakeraw | Cfsetspeed line_speed | Tcsetattr tcset_action

definition configureTtyDevice :: "s32 \<times> s32 \<times> s32 \<Rightarrow> s32 \<times> tty_call list" where
  "configureTtyDevice r =
     (case r of (getattr, setspeed, setattr) \<Rightarrow>
        if getattr \<noteq> 0 then (1, [Tcgetattr])
        else if setspeed \<noteq> 0 then (1, [Tcgetattr, Cfmakeraw, Cfsetspeed B115200])
        else if setattr \<noteq> 0 then (1, [Tcgetattr, Cfmakeraw, Cfsetspeed B115200, Tcsetattr TCSANOW])
        else (0, [Tcgetattr, Cfmakeraw, Cfsetspeed B115200, Tcsetattr TCSANOW]))"

section \<open>Options\<close>

definition cfdk_help :: "print list" where
  "cfdk_help =
     [Stderr (NL @ FDK_COPYRIGHT_TEXT @ NL @ NL),
      Stderr (CFDK_PROGRAM_NAME @ '', Version '' @ FDK_REVISION @ NL),
      Stderr (''Author: '' @ FDK_AUTHOR_NAME @ NL),
      Stderr (''usage: cfdk [-i host | -d /dev/ttyS0] [-P port] [-p pci.ids] '' @ ''[-h]'' @ NL @ NL),
      Stderr (TAB @ ''-i'' @ TAB @ ''Server host name or IPv4/IPv6 address, default is '' @ FDK_DEF_IPADDR @ NL),
      Stderr (TAB @ ''-P'' @ TAB @ ''Server TCP port, default is '' @ fmt_d (nat FDK_DEF_PORT) @ NL),
      Stderr (TAB @ ''-d'' @ TAB @ ''UART TTY device to talk to the target instead'' @ NL),
      Stderr (TAB @ ''-p'' @ TAB @ ''PCI IDs database, default is the newest of the bundled'' @ NL @
        TAB @ TAB @ ''copy ('' @ FDK_DATADIR @ ''/pci.ids) and the system one'' @ NL),
      Stderr (TAB @ ''-h'' @ TAB @ ''Print help and exit'' @ NL @ NL)]"

record cfdk_opts =
  co_ipAddr :: string
  co_ttyDevice :: "string option"
  co_port :: s32
  co_pciIdsPath :: string

definition cfdk_defaults :: cfdk_opts where
  "cfdk_defaults = \<lparr>co_ipAddr = FDK_DEF_IPADDR, co_ttyDevice = None, co_port = FDK_DEF_PORT, co_pciIdsPath = []\<rparr>"

definition cfdk_option :: "char \<Rightarrow> string \<Rightarrow> cfdk_opts \<Rightarrow> (s32 \<times> print list) + cfdk_opts" where
  "cfdk_option c optarg co =
     (if c = CHR ''d'' then Inr (co\<lparr>co_ttyDevice := Some optarg\<rparr>)
      else if c = CHR ''i'' then Inr (co\<lparr>co_ipAddr := optarg, co_ttyDevice := None\<rparr>)
      else if c = CHR ''P'' then Inr (co\<lparr>co_port := atoi optarg\<rparr>)
      else if c = CHR ''p'' then Inr (co\<lparr>co_pciIdsPath := snprintf_text FDK_MAX_PATH optarg\<rparr>)
      else if c = CHR ''h'' then Inl (0, cfdk_help)
      else Inl (1, cfdk_help))"

fun cfdk_options :: "(char \<times> string) list \<Rightarrow> cfdk_opts \<Rightarrow> (s32 \<times> print list) + cfdk_opts" where
  "cfdk_options [] co = Inr co"
| "cfdk_options ((c, optarg) # r) co =
     (case cfdk_option c optarg co of Inl e \<Rightarrow> Inl e | Inr co1 \<Rightarrow> cfdk_options r co1)"

section \<open>The program\<close>

text \<open>The static \<open>fdkUiProperty\<close> with the assignments before the option loop.\<close>

definition initial_ui :: "channel \<Rightarrow> string \<Rightarrow> string \<Rightarrow> fdkUiProperty_t" where
  "initial_ui ch path version =
     \<lparr>ui_ch = ch, inputBuf = Key_char 0, fdkHwFunc = KHF_INIT, fdkPreviousHwFunc = KHF_INIT,
      pktBuf = replicate FDK_MAXSZ_PKT 0,
      fdkBasePanel = \<lparr>lastSecond = 0, statusStr = Some FDK_WELCOME_TXT, strIdx = 0, toggleHelp = False\<rparr>,
      fdkDumpPanel = \<lparr>byteBase = 0, byteOffset = 0, infoStr = None, toggleBits = False,
        toggleEditing = False, editingBuf = 0\<rparr>,
      fdkPciListPanel = \<lparr>hlIndex = 0, pageOffset = 0\<rparr>,
      pFdkPciDev = None, pFdkPciIds = None, numOfPciDevice = 0, pciIdsPath = path, pciIdsVersion = version,
      pFdkE820record = None, numOfE820Record = 0, ui_screen = Map.empty, editorColorCount = 0\<rparr>"

text \<open>The identifier file: the path and version to use, and the warning.\<close>

definition choose_ids :: "files \<Rightarrow> string \<Rightarrow> string \<times> string \<times> print list" where
  "choose_ids fs path =
     (if path \<noteq> [] then (path, (case readPciIdsVersion fs path 32 of None \<Rightarrow> [] | Some v \<Rightarrow> v), [])
      else
        case findPciIdsFile fs FDK_MAX_PATH 32 of
          None \<Rightarrow> ([], [], [Stderr (''Warning: no pci.ids found, device names unavailable'' @ NL)])
        | Some (p, v) \<Rightarrow> (p, v, []))"

text \<open>
  What the environment of a run decides: the files, the descriptors and channels of a serial line or a
  connection, the serial line's settings, the allocations, the size of the terminal and the input.
\<close>

record cfdk_env =
  ce_files :: files
  ce_open :: "string \<Rightarrow> (s32 \<times> channel) option"
  ce_tty :: "s32 \<times> s32 \<times> s32"
  ce_connect :: "string \<Rightarrow> s32 \<Rightarrow> (s32 \<times> channel) option"
  ce_alloc :: "bool \<times> bool \<times> bool"
  ce_terminal :: "int \<times> int"
  ce_input :: "(key \<times> clock) list"

text \<open>
  The exit of a run: the status, the messages, the descriptors closed, the calls that set the serial line,
  the calls of curses, and the state of the client.
\<close>

record cfdk_exit =
  cx_status :: s32
  cx_print :: "print list"
  cx_closed :: "s32 list"
  cx_tty :: "tty_call list"
  cx_curses :: "curses_call list"
  cx_ui :: "fdkUiProperty_t option"

text \<open>
  How a run ends: it exits; \<open>SIGPIPE\<close> ends the process inside a request, so that of the calls of curses only
  those before it are made and nothing of \<open>Exit\<close> runs; or it meets undefined behaviour.
\<close>

datatype cfdk_end = Exits cfdk_exit | Killed "curses_call list" | Undefined

section \<open>Requests of a turn\<close>

text \<open>
  The state once the requests of a turn are made, which is before the turn draws, and whether the signal
  ends the loop in one of them.
\<close>

definition turn_requests :: "key \<Rightarrow> fdkUiProperty_t \<Rightarrow> fdkUiProperty_t" where
  "turn_requests key ui =
     (let ui1 = list_turn (select_function key ui)
      in if fdkHwFunc ui1 \<noteq> KHF_PCIL then snd (readCurrent (handleKeyPressForDumpPanel ui1)) else ui1)"

fun loop_killed :: "(key \<times> clock) list \<Rightarrow> fdkUiProperty_t \<Rightarrow> bool" where
  "loop_killed [] ui \<longleftrightarrow> False"
| "loop_killed ((key, clk) # r) ui \<longleftrightarrow>
     (case ui_turn key clk ui of
        Return \<Rightarrow> False
      | Crash \<Rightarrow> sigpipe (ui_ch ui) (ui_ch (turn_requests key ui))
      | Next ui1 \<Rightarrow> sigpipe (ui_ch ui) (ui_ch (turn_requests key ui)) \<or> loop_killed r ui1)"

section \<open>From the connection to the exit\<close>

text \<open>
  The label \<open>Exit\<close>: the lists are freed, the descriptor closed, after a disconnect if connected. \<open>tty\<close> has
  the calls that set the serial line, when the program uses one.
\<close>

definition cfdk_cleanup ::
  "bool \<Rightarrow> tty_call list option \<Rightarrow> s32 \<Rightarrow> s32 \<Rightarrow> print list \<Rightarrow> curses_call list \<Rightarrow> fdkUiProperty_t \<Rightarrow> cfdk_end" where
  "cfdk_cleanup connected' tty fd ret out curses ui =
     (let ui1 = (if connected' then cfdk_disconnectFromFdkServer ui else ui)
      in if sigpipe (ui_ch ui) (ui_ch ui1) then Killed curses
         else Exits \<lparr>cx_status = ret, cx_print = out,
          cx_closed = (if tty \<noteq> None then [fd] else if 0 \<le> fd then [fd] else []),
          cx_tty = (case tty of None \<Rightarrow> [] | Some calls \<Rightarrow> calls), cx_curses = curses,
          cx_ui = Some (ui1\<lparr>pFdkE820record := None, pFdkPciDev := None, pFdkPciIds := None\<rparr>)\<rparr>)"

definition cfdk_session ::
  "cfdk_env \<Rightarrow> tty_call list option \<Rightarrow> s32 \<Rightarrow> print list \<Rightarrow> fdkUiProperty_t \<Rightarrow> cfdk_end" where
  "cfdk_session ce tty fd out ui =
     (case ce_alloc ce of (a1, a2, a3) \<Rightarrow>
      let (r1, ui1) = cfdk_connectToFdkServer ui
      in if sigpipe (ui_ch ui) (ui_ch ui1) then Killed []
         else if r1 \<noteq> 0 then cfdk_cleanup False tty fd 1 (out @ [Stderr (''Cannot connect to FDK server'' @ NL)]) [] ui1
         else
           let (r2, ui2) = readPciList (loadPciNames (ce_files ce)) (a1, a2) ui1
           in if sigpipe (ui_ch ui1) (ui_ch ui2) then Killed []
              else if r2 \<noteq> 0 then cfdk_cleanup True tty fd 1 (out @ [Stderr (''Cannot get PCI device listing'' @ NL)]) [] ui2
              else
                let (r3, ui3) = readE820List a3 ui2
                in if sigpipe (ui_ch ui2) (ui_ch ui3) then Killed []
                   else if r3 \<noteq> 0 then cfdk_cleanup True tty fd 1 (out @ [Stderr (''Cannot get E820 listing'' @ NL)]) [] ui3
                   else if fst (ce_terminal ce) < FDK_MAX_LINE + 1 \<or> snd (ce_terminal ce) < FDK_MAX_COLUMN then
                     cfdk_cleanup True tty fd 1
                       (out @ [Stderr (''The terminal must be at least '' @ fmt_d (nat FDK_MAX_COLUMN) @ ''x'' @
                          fmt_d (nat (FDK_MAX_LINE + 1)) @ NL)]) [Initscr, Endwin] ui3
                   else if loop_killed (ce_input ce) (printBasePanel ui3) then Killed (Initscr # terminal_setup)
                   else
                     (case runUi (ce_input ce) ui3 of
                        None \<Rightarrow> Undefined
                      | Some ui4 \<Rightarrow> cfdk_cleanup True tty fd 0 out (Initscr # terminal_setup @ [Endwin]) ui4))"

definition cfdk_main :: "cfdk_env \<Rightarrow> (char \<times> string) list \<Rightarrow> cfdk_end" where
  "cfdk_main ce args =
     (let stop = (\<lambda>st out. Exits \<lparr>cx_status = st, cx_print = out, cx_closed = [], cx_tty = [], cx_curses = [], cx_ui = None\<rparr>)
      in case cfdk_options args cfdk_defaults of
          Inl (st, out) \<Rightarrow> stop st out
        | Inr co \<Rightarrow>
            (case choose_ids (ce_files ce) (co_pciIdsPath co) of (path, version, out) \<Rightarrow>
               case co_ttyDevice co of
                 Some dev \<Rightarrow>
                   (case ce_open ce dev of
                      None \<Rightarrow> stop 1 (out @ [Stderr (''Cannot open device '' @ dev @ NL)])
                    | Some (fd, ch) \<Rightarrow>
                        let (r, calls) = configureTtyDevice (ce_tty ce)
                        in if r \<noteq> 0 then
                             cfdk_cleanup False (Some calls) fd 1 (out @ [Stderr (''Cannot configure device '' @ dev @ NL)]) []
                               (initial_ui ch path version)
                           else cfdk_session ce (Some calls) fd out (initial_ui ch path version))
               | None \<Rightarrow>
                   (case ce_connect ce (co_ipAddr co) (co_port co) of
                      None \<Rightarrow> stop 1 (out @ [Stderr (''Cannot connect to '' @ co_ipAddr co @ '' port '' @
                                 fmt_int (co_port co) @ NL)])
                    | Some (fd, ch) \<Rightarrow> cfdk_session ce None fd out (initial_ui ch path version))))"

section \<open>Writes of a run\<close>

text \<open>What the requests leave of the outcomes of the writes is a rest of what they found.\<close>

definition writes_on :: "fdkUiProperty_t \<Rightarrow> fdkUiProperty_t \<Rightarrow> bool" where
  "writes_on ui ui' \<longleftrightarrow> suffix (ch_wr (ui_ch ui')) (ch_wr (ui_ch ui))"

lemma writes_on_refl [simp, intro]: "writes_on ui ui"
  by (simp add: writes_on_def)

lemma writes_on_trans: "writes_on u v \<Longrightarrow> writes_on v w \<Longrightarrow> writes_on u w"
  unfolding writes_on_def by (rule suffix_order.trans)

lemma writes_on_same: "ui_ch ui = ui_ch ui' \<Longrightarrow> writes_on ui ui'"
  by (simp add: writes_on_def)

lemma execute_wr: "writes_on ui (snd (execute ui op addr sz cnt))"
  using executeFunction_wr by (auto simp: execute_def writes_on_def split: prod.split)

lemmas request_defs = readMemory_def readIo_def readPci_def readIde_def readCmos_def writeEditedByte_def
  writeMemoryByEditing_def writeIoByEditing_def writePciByEditing_def writeIdeByEditing_def writeCmosByEditing_def

lemma readCurrent_wr: "writes_on ui (snd (readCurrent ui))"
  by (auto simp: readCurrent_def request_defs execute_wr split: fdkHwFunc_t.split option.split)

lemma handleKeyPress_wr: "writes_on ui (handleKeyPressForDumpPanel ui)"
proof -
  have w: "writes_on ui (dump_writeEditedByte ui)"
    by (auto simp: dump_writeEditedByte_def request_defs execute_wr split: fdkHwFunc_t.split option.split)
  show ?thesis
    using w by (auto simp: handleKeyPressForDumpPanel_def Let_def writes_on_def)
qed

lemma switchFunction_ch: "ui_ch (switchFunction ui) = ui_ch ui"
  by (simp add: switchFunction_def printDumpBasePanel_def printPciListBasePanel_def clearPciListUpdatePanel_def
      clearPciListBasePanel_def clearDumpUpdatePanel_def clearDumpBasePanel_def Let_def split: fdkHwFunc_t.split)

lemma select_list_ch: "ui_ch (list_turn (select_function key ui)) = ui_ch ui"
proof -
  have "ui_ch (list_turn v) = ui_ch v" for v
    by (auto simp: list_turn_def handleKeyPressForPciListPanel_def printPciListUpdatePanel_def switchFunction_ch Let_def
        split: prod.split if_splits)
  moreover have "ui_ch (select_function key ui) = ui_ch ui"
    by (simp add: select_function_def key_toggles_def switchFunction_ch Let_def)
  ultimately show ?thesis by simp
qed

lemma turn_requests_wr: "writes_on ui (turn_requests key ui)"
proof -
  let ?v = "list_turn (select_function key ui)"
  have "writes_on ui ?v" by (rule writes_on_same) (simp add: select_list_ch)
  moreover have "writes_on ?v (snd (readCurrent (handleKeyPressForDumpPanel ?v)))"
    by (rule writes_on_trans [OF handleKeyPress_wr readCurrent_wr])
  ultimately show ?thesis unfolding turn_requests_def Let_def by (simp add: writes_on_trans)
qed

lemma turn_ch: "ui_turn key clk ui = Next ui' \<Longrightarrow> ui_ch ui' = ui_ch (turn_requests key ui)"
proof -
  assume t: "ui_turn key clk ui = Next ui'"
  let ?v = "list_turn (select_function key ui)"
  obtain u where u: "dump_turn ?v = Some u" "ui' = updateStatusTimer clk (printBaseHelp u)"
    using t by (auto simp: ui_turn_def split: if_split_asm option.split_asm)
  have "ui_ch ui' = ui_ch u" using base_turn [of clk u] u(2) by auto
  moreover have "ui_ch u = ui_ch (turn_requests key ui)"
  proof -
    have d: "ui_ch w = ui_ch v" if "printDumpUpdatePanel v = Some w" for v w
      using printDumpUpdatePanel_drawn [OF that] panel_core_fields(2) [of w v] by (simp add: drawn_def)
    obtain r v where v: "readCurrent (handleKeyPressForDumpPanel ?v) = (r, v)" by fastforce
    show ?thesis
      using u(1) d by (cases "fdkHwFunc ?v = KHF_PCIL"; cases "r = 0") (simp_all add: dump_turn_def turn_requests_def v Let_def)
  qed
  ultimately show ?thesis by simp
qed

lemma loop_killed_pending: "loop_killed input ui \<Longrightarrow> WrPipe \<in> set (ch_wr (ui_ch ui))"
proof (induction input ui rule: loop_killed.induct)
  case (2 key clk r ui)
  show ?case
  proof (cases "sigpipe (ui_ch ui) (ui_ch (turn_requests key ui))")
    case True
    then show ?thesis by (rule sigpipe_pending)
  next
    case False
    then obtain u where u: "ui_turn key clk ui = Next u" "loop_killed r u"
      using 2(2) by (auto split: turn.splits)
    then have "WrPipe \<in> set (ch_wr (ui_ch (turn_requests key ui)))" using 2(1) turn_ch [OF u(1)] by simp
    then show ?thesis using turn_requests_wr [of ui key] by (auto simp: writes_on_def dest: set_mono_suffix)
  qed
qed simp

lemma runUi_wr: "runUi input ui = Some ui' \<Longrightarrow> writes_on ui ui'"
proof -
  have l: "ui_loop input v = Some w \<Longrightarrow> writes_on v w" for v w
  proof (induction input v rule: ui_loop.induct)
    case (2 key clk r ui)
    show ?case
    proof (cases "ui_turn key clk ui")
      case (Next u)
      then have "writes_on ui u" using turn_requests_wr [of ui key] turn_ch [OF Next] by (simp add: writes_on_def)
      then show ?thesis using 2 Next writes_on_trans [of ui u w] by simp
    qed (use 2(2) in \<open>auto simp: writes_on_def\<close>)
  qed simp
  assume "runUi input ui = Some ui'"
  then show ?thesis using l [of "printBasePanel ui" ui'] by (simp add: runUi_def writes_on_def printBasePanel_def Let_def)
qed

lemma readPciList_wr: "writes_on ui (snd (readPciList (loadPciNames fs) alloc ui))"
proof -
  have l: "ui_ch (snd (loadPciNames fs v)) = ui_ch v" for v
    by (simp add: loadPciNames_def Let_def split: option.split)
  obtain r u where u: "execute ui FDK_REQ_PCI_LIST 0 0 None = (r, u)" by fastforce
  have "ui_ch (snd (readPciList (loadPciNames fs) alloc ui)) = ui_ch u"
    by (simp add: readPciList_def u l Let_def)
  then show ?thesis using execute_wr [of ui FDK_REQ_PCI_LIST 0 0 None] by (simp add: u writes_on_def)
qed

lemma readE820List_wr: "writes_on ui (snd (readE820List alloc ui))"
proof -
  obtain r u where u: "execute ui FDK_REQ_E820_LIST 0 0 None = (r, u)" by fastforce
  have "ui_ch (snd (readE820List alloc ui)) = ui_ch u" by (simp add: readE820List_def u Let_def)
  then show ?thesis using execute_wr [of ui FDK_REQ_E820_LIST 0 0 None] by (simp add: u writes_on_def)
qed

end
