(* ===== verification/Cfdk_Properties.thy ===== *)
theory Cfdk_Properties
  imports Cfdk_Main
begin

unbundle bit_operations_syntax

text \<open>
  The properties of the console client: its reachable states, what it may send, the text it draws, and
  its keys.
\<close>

section \<open>Reachable states\<close>

inductive ui_reach :: "fdkUiProperty_t \<Rightarrow> fdkUiProperty_t \<Rightarrow> bool" for start where
  reach_start: "ui_reach start start"
| reach_turn: "ui_reach start ui \<Longrightarrow> ui_turn key clk ui = Next ui' \<Longrightarrow> ui_reach start ui'"

inductive_cases ui_reach_turnE: "ui_reach start ui"

text \<open>The state in which \<open>main\<close> enters the loop: nothing shown yet, and the listing read.\<close>

definition ui_started :: "fdkUiProperty_t \<Rightarrow> bool" where
  "ui_started ui \<longleftrightarrow> fdkHwFunc ui = KHF_INIT \<and> length (pktBuf ui) = FDK_MAXSZ_PKT \<and> lists_ok ui \<and>
     byteBase (fdkDumpPanel ui) = 0 \<and> byteOffset (fdkDumpPanel ui) = 0 \<and>
     \<not> toggleEditing (fdkDumpPanel ui) \<and> infoStr (fdkDumpPanel ui) = None \<and>
     fdkPciListPanel ui = \<lparr>hlIndex = 0, pageOffset = 0\<rparr> \<and> ui_screen ui = Map.empty"

lemma ESC_ne_F [simp]: "KBPRS_ESC \<noteq> KEY_F n"
  by (simp add: KBPRS_ESC_def)

lemma unat_ucast_up: "unat (ucast (n :: u32) :: u64) = unat n"
  by (simp add: unat_eq_nat_uint uint_up_ucast is_up del: nat_uint_eq)

lemma unat_ucast_zero: "(ucast (n :: u32) :: u64) = 0 \<longleftrightarrow> n = 0"
  by (simp only: word_unat_eq_iff unat_ucast_up unat_0)

lemma printBasePanel_eq:
  "\<exists>sc. printBasePanel ui = ui\<lparr>ui_screen := sc\<rparr> \<and> windows_ok hw sc = windows_ok hw (ui_screen ui)"
  using base_not_foreign [of _ hw]
  by (intro exI [of _ "ui_screen (printBasePanel ui)"])
    (simp add: printBasePanel_def base_windows_def Let_def)

lemma ui_started_ok:
  assumes "ui_started ui"
  shows "ui_ok (printBasePanel ui)"
proof -
  obtain sc where sc: "printBasePanel ui = ui\<lparr>ui_screen := sc\<rparr>" "windows_ok KHF_INIT sc"
    using printBasePanel_eq [of ui KHF_INIT] assms by (auto simp: ui_started_def windows_ok_def)
  have "list_ok (int (unat n)) \<lparr>hlIndex = 0, pageOffset = 0\<rparr>" for n :: u32
    by (simp add: list_ok_def FDK_REC_PER_PAGE_def order_less_le)
  then show ?thesis
    using assms sc(2) unfolding sc(1) ui_started_def ui_ok_def dump_ok_def by (auto simp: lists_ok_def)
qed

lemma ui_reach_ok: "ui_reach start ui \<Longrightarrow> ui_ok start \<Longrightarrow> ui_ok ui"
proof (induction rule: ui_reach.induct)
  case reach_start
  then show ?case .
next
  case (reach_turn ui key clk ui')
  then show ?case using ui_turn_ok [of ui key clk] by simp
qed

lemma started_reach_ok: "ui_started ui0 \<Longrightarrow> ui_reach (printBasePanel ui0) ui \<Longrightarrow> ui_ok ui"
  using ui_reach_ok ui_started_ok by blast

text \<open>
  C18: in every state the console reaches, whatever keys are pressed and whatever the server answers:
  the cursor is on the screen of 256 bytes; the device shown and the highlighted line of the listing
  exist; I/O addresses stay in the 64 KiB of ports and are aligned; CMOS shows its only screen; and no
  window of another function is on the screen.
\<close>

theorem ui_state_in_range:
  assumes "ui_started ui0" and "ui_reach (printBasePanel ui0) ui"
  shows "byteOffset (fdkDumpPanel ui) \<in> {0..<256} \<and>
    (fdkHwFunc ui = KHF_PCI \<longrightarrow> numOfPciDevice ui \<noteq> 0 \<longrightarrow>
      unat (byteBase (fdkDumpPanel ui)) < length (the (pFdkPciDev ui)) \<and>
      unat (byteBase (fdkDumpPanel ui)) < length (the (pFdkPciIds ui))) \<and>
    (fdkHwFunc ui = KHF_PCIL \<longrightarrow> numOfPciDevice ui \<noteq> 0 \<longrightarrow>
      nat (hlIndex (fdkPciListPanel ui) + pageOffset (fdkPciListPanel ui)) < length (the (pFdkPciDev ui))) \<and>
    (fdkHwFunc ui = KHF_IO \<longrightarrow> byteBase (fdkDumpPanel ui) AND 0xFF = 0 \<and> byteBase (fdkDumpPanel ui) \<le> 0xFF00) \<and>
    (fdkHwFunc ui = KHF_CMOS \<longrightarrow> byteBase (fdkDumpPanel ui) = 0) \<and>
    (\<forall>w \<in> foreign_windows (fdkHwFunc ui). ui_screen ui w = None)"
proof -
  have ok: "ui_ok ui" by (rule started_reach_ok [OF assms])
  then obtain devs ids where l: "pFdkPciDev ui = Some devs" "pFdkPciIds ui = Some ids"
    "length devs = unat (numOfPciDevice ui)" "length ids = unat (numOfPciDevice ui)"
    by (auto simp: ui_ok_def lists_ok_def)
  have "unat (byteBase (fdkDumpPanel ui)) < unat (numOfPciDevice ui)"
    if "fdkHwFunc ui = KHF_PCI" "numOfPciDevice ui \<noteq> 0"
    using ok that unat_ucast_up [of "numOfPciDevice ui"]
    by (simp add: ui_ok_def dump_ok_def base_ok_def word_less_nat_alt unat_ucast_zero split: if_splits)
  moreover have "nat (hlIndex (fdkPciListPanel ui) + pageOffset (fdkPciListPanel ui)) < unat (numOfPciDevice ui)"
    if "numOfPciDevice ui \<noteq> 0"
  proof -
    have "uint (numOfPciDevice ui) \<noteq> 0" using that by (metis uint_0_iff)
    then show ?thesis using ok
      by (auto simp: ui_ok_def list_ok_def unat_eq_nat_uint nat_less_eq_zless simp del: nat_uint_eq)
  qed
  ultimately show ?thesis
    using ok l by (cases "fdkHwFunc ui") (simp_all add: ui_ok_def dump_ok_def base_ok_def windows_ok_def)
qed

text \<open>A started console over a scripted connection, with two devices in its list.\<close>

definition sim_ui :: "channel \<Rightarrow> fdkUiProperty_t" where
  "sim_ui ch = (initial_ui ch [] [])\<lparr>
     pFdkPciDev := Some [\<lparr>pd_bus = 0, pd_dev = 0, pd_fun = 0, pd_vendorId = 0x8086, pd_deviceId = 0x1237\<rparr>,
       \<lparr>pd_bus = 0, pd_dev = 1, pd_fun = 3, pd_vendorId = 0x8086, pd_deviceId = 0x7113\<rparr>],
     pFdkPciIds := Some [unknown_ids, unknown_ids], numOfPciDevice := 2\<rparr>"

lemma sim_ui_started: "ui_started (sim_ui ch)"
  by (simp add: ui_started_def sim_ui_def initial_ui_def lists_ok_def)

definition idle_channel :: channel where
  "idle_channel = \<lparr>ch_rx = [], ch_wr = [], ch_tx = []\<rparr>"

lemma turn_goes_on:
  assumes "ui_started ui0" and "ui_reach (printBasePanel ui0) ui" and "key \<noteq> KBPRS_ESC" and "key \<noteq> KEY_F 1"
  shows "\<exists>ui'. ui_turn key clk ui = Next ui'"
  using ui_turn_ok [OF started_reach_ok [OF assms(1,2)], of key clk] assms(3,4) by (auto split: turn.splits)

theorem ui_state_in_range_witness:
  "\<exists>ui. ui_turn KEY_DOWN (- 1, None) (printBasePanel (sim_ui idle_channel)) = Next ui \<and>
     byteOffset (fdkDumpPanel ui) \<in> {0..<256}"
proof -
  obtain ui where t: "ui_turn KEY_DOWN (- 1, None) (printBasePanel (sim_ui idle_channel)) = Next ui"
    using turn_goes_on [OF sim_ui_started [of idle_channel] reach_start, of KEY_DOWN]
    by (auto simp: KBPRS_ESC_def)
  then show ?thesis
    using ui_state_in_range [OF sim_ui_started reach_turn [OF reach_start t]] by blast
qed

text \<open>
  C19: the console writes to the target only when an edit is committed. In every reachable state, a key
  that is not Enter in the editor makes the turn send nothing but a read of the screen shown; Enter in
  the editor sends, before it, the write of the one edited byte at the cursor. A broken connection may
  cut either short.
\<close>

theorem ui_writes_on_commit:
  assumes "ui_started ui0" and "ui_reach (printBasePanel ui0) ui" and "ui_turn key clk ui = Next ui'"
  shows "\<exists>j k. ch_tx (ui_ch ui') = ch_tx (ui_ch ui) @
      take j (if toggleEditing (fdkDumpPanel ui) \<and> key = KBPRS_ENTER then commit_request ui else []) @
      take k (screen_request ui')"
  using ui_turn_ok [OF started_reach_ok [OF assms(1,2)], of key clk] assms(3)
  by (simp add: turn_sends_def committing_def)

theorem ui_writes_on_commit_witness:
  "\<exists>ui ui' j k. ui_turn KBPRS_ENTER (- 1, None) (printBasePanel (sim_ui idle_channel)) = Next ui \<and>
    ui_turn KBPRS_ENTER (- 1, None) ui = Next ui' \<and>
    ch_tx (ui_ch ui') = ch_tx (ui_ch ui) @
      take j (if toggleEditing (fdkDumpPanel ui) \<and> KBPRS_ENTER = KBPRS_ENTER then commit_request ui else []) @
      take k (screen_request ui')"
proof -
  obtain ui where t: "ui_turn KBPRS_ENTER (- 1, None) (printBasePanel (sim_ui idle_channel)) = Next ui"
    using turn_goes_on [OF sim_ui_started [of idle_channel] reach_start, of KBPRS_ENTER] by auto
  note r = reach_turn [OF reach_start t]
  obtain ui' where t': "ui_turn KBPRS_ENTER (- 1, None) ui = Next ui'"
    using turn_goes_on [OF sim_ui_started r, of KBPRS_ENTER] by auto
  show ?thesis using t t' ui_writes_on_commit [OF sim_ui_started r t'] by blast
qed

text \<open>
  C33: the console meets undefined behaviour, the length of a null string, in exactly one situation:
  when F1 is the first key of all and the first read of memory is answered. No later turn can.
\<close>

theorem ui_crashes_on_first_F1:
  assumes "ui_started ui0" and "ui_reach (printBasePanel ui0) ui"
  shows "ui_turn key clk ui = Crash \<longleftrightarrow>
    key = KEY_F 1 \<and> fdkHwFunc ui = KHF_INIT \<and> fst (readMemory (ui\<lparr>inputBuf := KEY_F 1\<rparr>)) = 0"
proof -
  have ok: "ui_ok ui" by (rule started_reach_ok [OF assms])
  have "ui_turn key clk ui = Crash \<Longrightarrow> key = KEY_F 1 \<and> fdkHwFunc ui = KHF_INIT"
    using ui_turn_ok [OF ok, of key clk] by (auto split: turn.splits)
  moreover have "ui_turn key clk ui = Crash \<longleftrightarrow> fst (readMemory (ui\<lparr>inputBuf := KEY_F 1\<rparr>)) = 0"
    if "key = KEY_F 1" "fdkHwFunc ui = KHF_INIT"
  proof -
    obtain v where v: "v = (key_toggles (KEY_F 1) (ui\<lparr>inputBuf := KEY_F 1\<rparr>))\<lparr>fdkPreviousHwFunc := KHF_INIT, fdkHwFunc := KHF_INIT\<rparr>"
      by blast
    obtain e u where m: "readMemory v = (e, u)" by fastforce
    have s: "select_function key ui = v" using that by (simp add: select_function_def next_function_def v)
    have l: "list_turn v = v" by (simp add: list_turn_def v)
    have h: "handleKeyPressForDumpPanel v = v"
      using ok that(2) by (simp add: handleKeyPressForDumpPanel_def ui_ok_def dump_ok_def key_toggles_def Let_def
          KBPRS_ENTER_def KBPRS_SPACE_def v)
    have hw: "fdkHwFunc v = KHF_INIT" by (simp add: v)
    then have "readCurrent v = (e, u)" using m by (simp add: readCurrent_def)
    then have "dump_turn (list_turn (select_function key ui)) = (if e = 0 then printDumpUpdatePanel u else Some u)"
      by (simp add: s l dump_turn_def h hw)
    moreover have "infoStr (fdkDumpPanel u) = None"
      using ok that(2) m by (auto simp: readMemory_def execute_def key_toggles_def ui_ok_def dump_ok_def v split: prod.splits)
    then have "printDumpUpdatePanel u = None" by (simp add: printDumpUpdatePanel_crash)
    moreover have "fst (readMemory (ui\<lparr>inputBuf := KEY_F 1\<rparr>)) = e"
      using m by (auto simp: readMemory_def execute_def key_toggles_def v split: prod.splits)
    ultimately show ?thesis using that(1) by (simp add: ui_turn_def)
  qed
  ultimately show ?thesis by blast
qed

definition answered_channel :: channel where
  "answered_channel = \<lparr>ch_rx = [Chunk [6, 0, 0, 0, 8, 0, 0, 0]], ch_wr = [], ch_tx = []\<rparr>"

theorem ui_crashes_on_first_F1_witness:
  "ui_turn (KEY_F 1) (- 1, None) (printBasePanel (sim_ui answered_channel)) = Crash"
proof -
  let ?u = "printBasePanel (sim_ui answered_channel)"
  let ?out = "[6, 0, 0, 0, 8, 0, 0, 0] :: u8 list"
  have p: "packet_ok ?out" by (simp add: packet_ok_def hdr_pktLen_def layout get_defs bytes_at_def)
  have v: "verifyResponsePacket ?out FDK_REQ_MEM_READ = 0"
    by (simp add: verifyResponsePacket_iff is_request_def hdr_opCode_def layout get_defs bytes_at_def)
  have c: "ui_ch ?u = answered_channel" "length (pktBuf ?u) = FDK_MAXSZ_PKT" "fdkHwFunc ?u = KHF_INIT"
    by (simp_all add: printBasePanel_def sim_ui_def initial_ui_def Let_def)
  have ch: "list_all wr_ok (ch_wr (ui_ch ?u))" "rx_flat (ch_rx (ui_ch ?u)) = ?out @ []"
    unfolding c(1) by (simp_all add: answered_channel_def)
  have cnt: "\<forall>bs. None = Some bs \<longrightarrow> length bs = unat FDK_BYTE_PER_SCREEN" by simp
  have "fst (readMemory (?u\<lparr>inputBuf := KEY_F 1\<rparr>)) = 0"
    using executeFunction_exchange [OF build_mem_read _ cnt c(2) ch p, of "byteBase (fdkDumpPanel ?u)"] v
    by (auto simp: readMemory_def execute_def)
  then show ?thesis
    using ui_crashes_on_first_F1 [OF sim_ui_started reach_start] c(3) by blast
qed

text \<open>
  C34: Escape always leaves: from every reachable state, pressing it at most twice ends the loop, the
  first time possibly to cancel an edit.
\<close>

theorem ui_escape_returns:
  assumes "ui_started ui0" and "ui_reach (printBasePanel ui0) ui"
  shows "ui_loop [(KBPRS_ESC, clk1), (KBPRS_ESC, clk2)] ui \<noteq> None \<and>
    (ui_turn KBPRS_ESC clk1 ui = Return \<or>
     (\<exists>ui1. ui_turn KBPRS_ESC clk1 ui = Next ui1 \<and> ui_turn KBPRS_ESC clk2 ui1 = Return))"
proof (cases "toggleEditing (fdkDumpPanel ui)")
  case False
  then show ?thesis by (simp add: ui_turn_def)
next
  case True
  have ok: "ui_ok ui" by (rule started_reach_ok [OF assms])
  let ?s = "select_function KBPRS_ESC ui"
  have s: "?s = ui\<lparr>inputBuf := KBPRS_ESC, fdkDumpPanel := (fdkDumpPanel ui)\<lparr>toggleEditing := False\<rparr>,
      fdkPreviousHwFunc := fdkHwFunc ui\<rparr>"
    by (simp add: KBPRS_ESC_def select_function_def next_function_def key_toggles_def)
  have hw: "fdkHwFunc ui \<notin> {KHF_INIT, KHF_PCIL}" using ok True by (auto simp: ui_ok_def dump_ok_def)
  obtain ui1 where t: "ui_turn KBPRS_ESC clk1 ui = Next ui1"
    using ui_turn_ok [OF ok, of KBPRS_ESC clk1] True by (auto split: turn.splits)
  obtain v where v: "v = ?s" by blast
  have hw_v: "fdkHwFunc v \<noteq> KHF_PCIL" "\<not> toggleEditing (fdkDumpPanel v)" "inputBuf v = KBPRS_ESC"
    using hw by (auto simp: v s)
  have l: "list_turn v = v" using hw_v by (simp add: list_turn_def)
  have h: "handleKeyPressForDumpPanel v = v"
    using hw_v by (simp add: handleKeyPressForDumpPanel_def Let_def KBPRS_ESC_def KBPRS_ENTER_def KBPRS_SPACE_def)
  obtain e u where r: "readCurrent v = (e, u)" by fastforce
  have u: "\<not> toggleEditing (fdkDumpPanel u)"
    using readCurrent_sends [of v] sends_same [of "screen_request v" v u] r hw_v(2) ok
    by (simp add: v s ui_ok_def)
  obtain u3 where d: "dump_turn v = Some u3" "ui1 = updateStatusTimer clk1 (printBaseHelp u3)"
    using t True by (auto simp: ui_turn_def v [symmetric] l split: option.splits)
  have "\<not> toggleEditing (fdkDumpPanel u3)"
  proof (cases "e = 0")
    case False
    then show ?thesis using d(1) u hw_v by (simp add: dump_turn_def h r)
  next
    case e: True
    then have "printDumpUpdatePanel u = Some u3" using d(1) hw_v by (simp add: dump_turn_def h r)
    then have "panel_core u3 = panel_core u" using printDumpUpdatePanel_drawn by (simp add: drawn_def)
    from panel_core_fields(12) [OF this] show ?thesis using u by simp
  qed
  moreover obtain b sc where "ui1 = u3\<lparr>fdkBasePanel := b, ui_screen := sc\<rparr>"
    using base_turn [of clk1 u3] d(2) by auto
  ultimately have "\<not> toggleEditing (fdkDumpPanel ui1)" by simp
  then have "ui_turn KBPRS_ESC clk2 ui1 = Return" by (simp add: ui_turn_def)
  with t show ?thesis by simp
qed

theorem ui_escape_returns_witness:
  "ui_loop [(KBPRS_ESC, (- 1, None)), (KBPRS_ESC, (- 1, None))] (printBasePanel (sim_ui idle_channel)) \<noteq> None"
  using ui_escape_returns [OF sim_ui_started reach_start] by blast

end
