(* ===== verification/Cfdk_Text.thy ===== *)
theory Cfdk_Text
  imports Cfdk_Properties
begin

unbundle bit_operations_syntax

text \<open>
  The texts the console draws: the pages of the device listing fit their buffer and their window, the
  cursor lies on the digits of its byte, and the editor builds a byte from two digits.
\<close>

section \<open>The device listing\<close>

lemma length_fmt_left [simp]: "length (fmt_left n s) = n"
  by (simp add: fmt_left_def min_def)

lemma length_fmt_X_word:
  "length (fmt_X 4 (unat (v :: u16))) = 4" "length (fmt_X 2 (unat (b :: u8))) = 2"
  "length (fmt_X 8 (unat (d :: u32))) = 8"
proof -
  show "length (fmt_X 4 (unat v)) = 4" using unsigned_less [of v, where ?'a = nat] by (intro length_fmt_X) simp_all
  show "length (fmt_X 2 (unat b)) = 2" using unsigned_less [of b, where ?'a = nat] by (intro length_fmt_X) simp_all
  show "length (fmt_X 8 (unat d)) = 8" using unsigned_less [of d, where ?'a = nat] by (intro length_fmt_X) simp_all
qed

lemma length_fmt_X_bus: "2 \<le> length (fmt_X 2 (unat (v :: u16)))" "length (fmt_X 2 (unat v)) \<le> 4"
  "v \<le> 0xFF \<Longrightarrow> length (fmt_X 2 (unat v)) = 2"
proof -
  have "unat v < 16 ^ Suc 3" using unsigned_less [of v, where ?'a = nat] by simp
  from length_hex_digits [OF this] show "length (fmt_X 2 (unat v)) \<le> 4" by (simp add: fmt_X_def Let_def)
  show "2 \<le> length (fmt_X 2 (unat v))" by (simp add: fmt_X_def Let_def)
  show "length (fmt_X 2 (unat v)) = 2" if "v \<le> 0xFF"
    using that by (intro length_fmt_X) (simp_all add: word_le_nat_alt)
qed

lemma length_pci_line: "80 \<le> length (pci_line x d)" "length (pci_line x d) \<le> 82"
  "pd_bus d \<le> 0xFF \<Longrightarrow> length (pci_line x d) = 80"
  using length_fmt_X_bus [of "pd_bus d"] by (simp_all add: pci_line_def length_fmt_X_word)

definition device_line :: "fdkUiProperty_t \<Rightarrow> nat \<Rightarrow> string" where
  "device_line ui i = pci_line (the (pFdkPciIds ui) ! i) (the (pFdkPciDev ui) ! i)"

lemma FDK_BUF_SIZE_eq: "FDK_BUF_SIZE = 1681"
  by (simp add: FDK_BUF_SIZE_def FDK_PCIL_CON_COLUMN_def FDK_PCIL_CON_LINE_def FDK_MAX_COLUMN_def FDK_MAX_LINE_def)

lemma size_argument: "off \<le> 1681 \<Longrightarrow> unat (word_of_nat FDK_BUF_SIZE - word_of_nat off :: u64) = 1681 - off"
proof -
  assume le: "off \<le> 1681"
  have "(word_of_nat FDK_BUF_SIZE - word_of_nat off :: u64) = word_of_nat (1681 - off)"
    unfolding FDK_BUF_SIZE_eq by (rule of_nat_diff [OF le, symmetric])
  then show ?thesis by (simp add: unat_of_nat take_bit_nat_eq_self)
qed

lemma list_loop_calls:
  "off + 82 * n \<le> 1722 \<Longrightarrow> \<forall>(p, sz) \<in> set calls. p < FDK_BUF_SIZE \<and> p + sz = FDK_BUF_SIZE \<Longrightarrow>
    \<forall>(p, sz) \<in> set (snd (snd (list_loop ui i n off buf hl calls))). p < FDK_BUF_SIZE \<and> p + sz = FDK_BUF_SIZE"
proof (induction ui i n off buf hl calls rule: list_loop.induct)
  case (1 ui i off buf hl calls)
  then show ?case by simp
next
  case (2 ui i n off buf hl calls)
  have off: "off \<le> 1640" using "2.prems"(1) by simp
  have sz: "unat (word_of_nat FDK_BUF_SIZE - word_of_nat off :: u64) = 1681 - off" using off by (intro size_argument) simp
  let ?sz = "unat (word_of_nat FDK_BUF_SIZE - word_of_nat off :: u64)"
  obtain k s where f: "formatPciLine ui i ?sz = (k, s)" by fastforce
  then have k: "k \<le> 82" using length_pci_line(2) by (auto simp: formatPciLine_def Let_def simp del: length_append)
  have "off + k + 82 * n \<le> 1722" using "2.prems"(1) k by simp
  moreover have "\<forall>(p, sz) \<in> set (calls @ [(off, ?sz)]). p < FDK_BUF_SIZE \<and> p + sz = FDK_BUF_SIZE"
    using "2.prems"(2) off sz by (auto simp: FDK_BUF_SIZE_eq)
  ultimately show ?case unfolding list_loop.simps Let_def f prod.case
    by (rule "2.IH" [OF refl f [symmetric] refl refl])
qed

lemma list_loop_text:
  assumes "\<forall>j \<in> {i..<i + n}. pd_bus (the (pFdkPciDev ui) ! j) \<le> 0xFF" and "length buf + 80 * n \<le> 1680"
  shows "\<exists>calls'. list_loop ui i n (length buf) buf hl calls =
    (buf @ concat (map (device_line ui) [i..<i + n]),
     (let h = hlIndex (fdkPciListPanel ui) + pageOffset (fdkPciListPanel ui)
      in if int i \<le> h \<and> h < int (i + n) then device_line ui (nat h) else hl), calls')"
  using assms
proof (induction n arbitrary: i buf hl calls)
  case 0
  then show ?case by (auto simp: Let_def)
next
  case (Suc n)
  let ?h = "hlIndex (fdkPciListPanel ui) + pageOffset (fdkPciListPanel ui)"
  let ?l = "device_line ui i"
  have l: "length ?l = 80" using Suc.prems(1) length_pci_line(3) by (simp add: device_line_def)
  have sz: "unat (word_of_nat FDK_BUF_SIZE - word_of_nat (length buf) :: u64) = 1681 - length buf"
    using Suc.prems(2) by (intro size_argument) simp
  have f: "formatPciLine ui i (1681 - length buf) = (80, ?l)" "snd (formatPciLine ui i 81) = ?l"
    using l Suc.prems(2) by (simp_all add: formatPciLine_def device_line_def Let_def snprintf_text_def)
  have c: "nat FDK_PCIL_CON_COLUMN + 1 = 81" by (simp add: FDK_PCIL_CON_COLUMN_def FDK_MAX_COLUMN_def)
  let ?hl = "if int i = ?h then ?l else hl"
  obtain calls' where "list_loop ui (Suc i) n (length (buf @ ?l)) (buf @ ?l) ?hl (calls @ [(length buf, 1681 - length buf)]) =
    ((buf @ ?l) @ concat (map (device_line ui) [Suc i..<Suc i + n]),
     (if int (Suc i) \<le> ?h \<and> ?h < int (Suc i + n) then device_line ui (nat ?h) else ?hl), calls')"
    using Suc.IH [of "Suc i" "buf @ ?l" ?hl "calls @ [(length buf, 1681 - length buf)]"] Suc.prems l
    by (auto simp: Let_def)
  moreover have "list_loop ui i (Suc n) (length buf) buf hl calls =
      list_loop ui (Suc i) n (length (buf @ ?l)) (buf @ ?l) ?hl (calls @ [(length buf, 1681 - length buf)])"
    using f l by (simp add: sz c Let_def del: One_nat_def)
  moreover have "[i..<i + Suc n] = i # [Suc i..<Suc i + n]" by (simp add: upt_conv_Cons)
  moreover have "int i = ?h \<Longrightarrow> nat ?h = i" by linarith
  ultimately show ?case by (auto simp: Let_def simp del: upt_Suc list_loop.simps)
qed

lemma list_loop_length: "length (snd (snd (list_loop ui i n off buf hl calls))) = length calls + n"
  by (induction n arbitrary: i off buf hl calls) (simp_all add: Let_def case_prod_unfold)

lemma list_page_loop:
  "list_page ui = list_loop ui (nat (pageOffset (fdkPciListPanel ui)))
     (nat (min (int (unat (numOfPciDevice ui)) - pageOffset (fdkPciListPanel ui)) 21)) 0 [] [] []"
proof -
  have "(if s + 21 > num then num else s + 21) - s = min (num - s) 21" for s num :: int by simp
  then show ?thesis unfolding list_page_def FDK_REC_PER_PAGE_def Let_def by (simp only:)
qed

text \<open>
  C35: drawing a page of the listing stays inside its buffer, whatever the devices and their names are:
  there is one \<open>snprintf\<close> for each device of the page, it starts before the end of the buffer, and the
  size it is given ends exactly at the end of the buffer. A line may be two columns longer than the
  screen, for a device of another segment, and the last line still has its place.
\<close>

theorem pci_page_in_bounds:
  "length (snd (snd (list_page ui))) =
     nat (min (int (unat (numOfPciDevice ui)) - pageOffset (fdkPciListPanel ui)) FDK_REC_PER_PAGE) \<and>
   list_all (\<lambda>(p, sz). p < FDK_BUF_SIZE \<and> p + sz = FDK_BUF_SIZE) (snd (snd (list_page ui)))"
proof -
  let ?s = "pageOffset (fdkPciListPanel ui)" and ?num = "int (unat (numOfPciDevice ui))"
  obtain n where n: "n = nat (min (?num - ?s) 21)" by blast
  have page: "list_page ui = list_loop ui (nat ?s) n 0 [] [] []"
    by (simp only: list_page_loop n)
  have "\<forall>(p, sz) \<in> set (snd (snd (list_loop ui (nat ?s) n 0 [] [] []))). p < FDK_BUF_SIZE \<and> p + sz = FDK_BUF_SIZE"
    by (rule list_loop_calls) (simp_all add: n)
  then show ?thesis by (simp add: page list_loop_length n FDK_REC_PER_PAGE_def list_all_iff)
qed

text \<open>
  C36: with the cursor in range, and no device of another segment on the page, the listing shows the
  devices from the page offset on, one in each line of 80 columns, and the highlight, which is placed
  in the line of the selected device, repeats that line.
\<close>

theorem pci_page_shows_devices:
  assumes "list_ok (int (unat (numOfPciDevice ui))) (fdkPciListPanel ui)" and "numOfPciDevice ui \<noteq> 0"
    and "\<forall>d \<in> set (the (pFdkPciDev ui)). pd_bus d \<le> 0xFF"
    and "length (the (pFdkPciDev ui)) = unat (numOfPciDevice ui)"
  shows "\<exists>w h. ui_screen (printPciListUpdatePanel ui) List_content = Some w \<and>
    ui_screen (printPciListUpdatePanel ui) List_highlight = Some h \<and>
    wi_text w = concat (map (device_line ui)
      [nat (pageOffset (fdkPciListPanel ui))..<
       min (unat (numOfPciDevice ui)) (nat (pageOffset (fdkPciListPanel ui)) + 21)]) \<and>
    length (wi_text w) = 80 * min (unat (numOfPciDevice ui) - nat (pageOffset (fdkPciListPanel ui))) 21 \<and>
    wi_x h = FDK_PCIL_CON_X_POS + hlIndex (fdkPciListPanel ui) \<and>
    wi_text h = take 80 (drop (80 * nat (hlIndex (fdkPciListPanel ui))) (wi_text w)) \<and>
    wi_text h = device_line ui (nat (hlIndex (fdkPciListPanel ui) + pageOffset (fdkPciListPanel ui)))"
proof -
  let ?p = "fdkPciListPanel ui"
  obtain num where num: "num = unat (numOfPciDevice ui)" by blast
  have num0: "num \<noteq> 0" using assms(2) by (simp add: num unat_eq_0)
  have inv: "0 \<le> hlIndex ?p \<and> hlIndex ?p < 21 \<and> 0 \<le> pageOffset ?p \<and> hlIndex ?p + pageOffset ?p < int num"
    using assms(1) num0 by (simp add: list_ok_def FDK_REC_PER_PAGE_def flip: num)
  then obtain s k where s: "pageOffset ?p = int s" and k: "hlIndex ?p = int k"
    using nonneg_int_cases by metis
  have ks: "k < 21" "k + s < num" using inv by (simp_all add: s k)
  obtain n where n: "n = min (num - s) 21" by blast
  then have kn: "k < n" "n \<le> 21" "s + n = min num (s + 21)" using ks by auto
  have bus: "pd_bus (the (pFdkPciDev ui) ! j) \<le> 0xFF" if "j < s + n" for j
    using that assms(3,4) kn num by simp
  have page: "list_page ui = list_loop ui s n 0 [] [] []"
  proof -
    have "nat (min (int num - int s) 21) = n" "nat (int s) = s" using ks by (simp_all add: n)
    then show ?thesis by (simp only: list_page_loop s flip: num)
  qed
  have lines: "length (device_line ui j) = 80" if "j < s + n" for j
    using bus [OF that] length_pci_line(3) by (simp add: device_line_def)
  obtain txt0 where txt0: "txt0 = concat (map (device_line ui) [s..<s + n])" by blast
  obtain calls' where res: "list_page ui = (txt0, device_line ui (k + s), calls')"
    using list_loop_text [of s n ui "[]" "[]" "[]"] bus kn by (auto simp: page txt0 s k Let_def nat_plus_as_int)
  have len: "length txt0 = 80 * n"
  proof -
    have "map (length \<circ> device_line ui) [s..<s + n] = replicate n 80" using lines by (intro nth_equalityI) auto
    then show ?thesis by (simp add: txt0 length_concat sum_list_replicate)
  qed
  have "take 80 (drop (80 * k) txt0) = bytes_at (80 * k) 80 (txt0 @ [])" by (simp add: bytes_at_def)
  also have "\<dots> = device_line ui ([s..<s + n] ! k)"
    unfolding txt0 by (rule bytes_at_cells) (use lines kn in auto)
  also have "\<dots> = device_line ui (k + s)" using kn by (simp add: add.commute)
  finally have cut: "take 80 (drop (80 * k) txt0) = device_line ui (k + s)" .
  have nk: "nat (int k + int s) = k + s" by simp
  show ?thesis
    using res assms(2) len cut nk
    by (simp add: printPciListUpdatePanel_def printWindowMove_def printWindowAt_def destroyWindow_def
        s k kn(3) flip: num n txt0) (auto split: option.splits simp: kn txt0)
qed

definition sample_dev :: fdkPciDev_t where
  "sample_dev = \<lparr>pd_bus = 3, pd_dev = 31, pd_fun = 7, pd_vendorId = 0x8086, pd_deviceId = 0x29C0\<rparr>"

definition listing_sample :: "nat \<Rightarrow> fdkUiProperty_t" where
  "listing_sample n =
     (sim_ui idle_channel)\<lparr>numOfPciDevice := word_of_nat n, pFdkPciIds := Some (replicate n unknown_ids),
        pFdkPciDev := Some (replicate n sample_dev), fdkPciListPanel := \<lparr>hlIndex = 20, pageOffset = 2\<rparr>\<rparr>"

theorem pci_page_shows_devices_witness:
  "\<exists>w h. ui_screen (printPciListUpdatePanel (listing_sample 23)) List_content = Some w \<and>
     ui_screen (printPciListUpdatePanel (listing_sample 23)) List_highlight = Some h \<and>
     length (wi_text w) = 1680 \<and> wi_x h = 22 \<and>
     wi_text h = pci_line unknown_ids sample_dev"
proof -
  have f: "numOfPciDevice (listing_sample 23) = 23" "fdkPciListPanel (listing_sample 23) = \<lparr>hlIndex = 20, pageOffset = 2\<rparr>"
    "pFdkPciIds (listing_sample 23) = Some (replicate 23 unknown_ids)"
    "pFdkPciDev (listing_sample 23) = Some (replicate 23 sample_dev)" "pd_bus sample_dev = 3"
    by (simp_all add: listing_sample_def sample_dev_def)
  show ?thesis
    using pci_page_shows_devices [of "listing_sample 23"]
    by (auto simp: f list_ok_def FDK_REC_PER_PAGE_def FDK_PCIL_CON_X_POS_def device_line_def)
qed

section \<open>The cursor\<close>

lemma length_byte_digits [simp]: "length (fmt_X 2 (unat (b :: u8))) = 2"
  by (rule length_fmt_X_word)

lemma length_value_cells:
  "length (concat (map (value_cell data) [0..<16 * q + r])) + (if r = 0 then 0 else 1) = 47 * q + 3 * r"
  if "r \<le> 16"
proof -
  have row: "length (concat (map (value_cell data) [16 * q..<16 * q + r])) + (if r = 0 then 0 else 1) = 3 * r"
    if "r \<le> 16" for q r
    using that by (induction r) (auto simp: value_cell_def FDK_DUMP_BYTE_PER_LINE_def)
  have rows: "length (concat (map (value_cell data) [0..<16 * q])) = 47 * q"
  proof (induction q)
    case (Suc q)
    have "[0..<16 * Suc q] = [0..<16 * q] @ [16 * q..<16 * q + 16]"
      using upt_add_eq_append [of 0 "16 * q" 16] by (simp add: add.commute)
    then show ?case using Suc row [of 16 q] by simp
  qed simp
  have "[0..<16 * q + r] = [0..<16 * q] @ [16 * q..<16 * q + r]" by (rule upt_add_eq_append) simp
  then show ?thesis using rows row [OF that, of q] by simp
qed

text \<open>
  The cursor lies on its byte. In the text of the screen, which fills the 16 lines of 47 columns of
  its window, the two characters at the cursor's line and column are the digits of the byte at
  \<open>byteOffset\<close>, so that the highlight drawn there covers the byte it shows, and an edit changes
  the byte it is seen to change.
\<close>

theorem cursor_on_digits:
  assumes "0 \<le> byteOffset (fdkDumpPanel ui)" and "byteOffset (fdkDumpPanel ui) < 256"
  shows "length (value_text data) = nat (FDK_DUMP_BUF_PER_LINE * FDK_DUMP_BYTE_PER_LINE) \<and>
    0 \<le> cursor_x ui - FDK_DUMP_VALUE_COLUMN \<and> cursor_x ui - FDK_DUMP_VALUE_COLUMN + 2 \<le> FDK_DUMP_BUF_PER_LINE \<and>
    0 \<le> cursor_y ui - FDK_DUMP_VALUE_LINE \<and> cursor_y ui - FDK_DUMP_VALUE_LINE < FDK_DUMP_BYTE_PER_LINE \<and>
    bytes_at (nat (FDK_DUMP_BUF_PER_LINE * (cursor_y ui - FDK_DUMP_VALUE_LINE) + (cursor_x ui - FDK_DUMP_VALUE_COLUMN))) 2
      (value_text data) = fmt_X 2 (unat (data ! nat (byteOffset (fdkDumpPanel ui))))"
proof -
  obtain i where i: "byteOffset (fdkDumpPanel ui) = int i" "i < 256"
    using assms nonneg_int_cases by (metis of_nat_less_iff of_nat_numeral)
  obtain q r where qr: "i = 16 * q + r" "r < 16" "q < 16"
    using i(2) by (intro that [of "i div 16" "i mod 16"]) auto
  have pos: "int i div 16 = int q" "int i mod 16 = int r" using qr by (simp_all add: zdiv_int zmod_int)
  have split: "[0..<256] = [0..<i] @ i # [Suc i..<256]"
    using i(2) upt_add_eq_append [of 0 i "256 - i"] by (simp add: upt_conv_Cons)
  obtain as bs where val: "value_text data = as @ value_cell data i @ bs" "as = concat (map (value_cell data) [0..<i])"
    unfolding value_text_def FDK_BYTE_PER_SCREEN_def by (simp add: split)
  have as: "length as + (if r = 0 then 0 else 1) = 47 * q + 3 * r"
    using length_value_cells [of r data q] qr val(2) by simp
  have cell: "value_cell data i = (if r = 0 then [] else '' '') @ fmt_X 2 (unat (data ! i))"
    using qr by (simp add: value_cell_def FDK_DUMP_BYTE_PER_LINE_def)
  obtain pre where pre: "pre = as @ (if r = 0 then [] else '' '')" by blast
  then have "value_text data = pre @ fmt_X 2 (unat (data ! i)) @ bs" "length pre = 47 * q + 3 * r"
    using as by (auto simp: val(1) cell)
  then have "bytes_at (47 * q + 3 * r) 2 (value_text data) = fmt_X 2 (unat (data ! i))"
    by (simp add: bytes_at_def)
  moreover have "length (value_text data) = 752"
    using length_value_cells [of 0 data 16] by (simp add: value_text_def FDK_BYTE_PER_SCREEN_def)
  moreover have "nat (47 * int q + 3 * int r) = 47 * q + 3 * r" "nat (int i) = i" by simp_all
  ultimately show ?thesis
    using qr(2,3) by (simp add: cursor_x_def cursor_y_def i(1) pos FDK_DUMP_BUF_PER_LINE_def FDK_DUMP_BYTE_PER_LINE_def mult.commute)
qed

theorem cursor_on_digits_witness:
  "bytes_at 56 2 (value_text (map word_of_nat [0..<256])) = ''13''"
proof -
  let ?ui = "(sim_ui idle_channel)\<lparr>fdkDumpPanel := (fdkDumpPanel (sim_ui idle_channel))\<lparr>byteOffset := 19\<rparr>\<rparr>"
  show ?thesis
    using cursor_on_digits [of ?ui "map word_of_nat [0..<256]"]
    by (simp add: cursor_x_def cursor_y_def FDK_DUMP_BUF_PER_LINE_def FDK_DUMP_BYTE_PER_LINE_def fmt_X_def
        hex_digits.simps hex_digit_def char_of_eq_iff)
qed

section \<open>The editor\<close>

lemma key_digit_val:
  assumes "isxdigit (char_of (unat k))"
  shows "k < 0x80" "digit_val (char_of (unat k)) = Some (key_digit k)"
proof -
  have "unat k < 256" using unsigned_less [of k, where ?'a = nat] by simp
  with assms show "k < 0x80" "digit_val (char_of (unat k)) = Some (key_digit k)"
    by (auto simp: key_digit_def digit_val_def isxdigit_def isdigit_def char_in_def tolower_def word_less_nat_alt)
qed

lemma edit_key_digit:
  assumes "digit_val (char_of (unat k)) = Some d"
  shows "unat (edit_key (Key_char k) b) = 16 * (unat b mod 16) + d"
proof -
  have hex: "isxdigit (char_of (unat k))" using assms digit_val_bound by (simp add: digit_in_def flip: digit_in_16)
  note k = key_digit_val [OF hex]
  have d: "key_digit k = d" "d < 16" using k(2) assms digit_val_bound by auto
  have "edit_key (Key_char k) b = ucast (push_bit 4 (ucast b :: u32) OR word_of_nat d)"
    using k(1) hex d by (simp add: edit_key_def)
  also have "\<dots> = push_bit 4 b OR word_of_nat d"
    by (rule bit_word_eqI) (auto simp: bit_simps)
  finally have "unat (edit_key (Key_char k) b) = take_bit 8 (push_bit 4 (unat b)) OR d"
    using d(2) by (simp add: unsigned_or_eq unsigned_push_bit_eq unat_of_nat take_bit_nat_eq_self)
  also have "\<dots> = push_bit 4 (take_bit 4 (unat b)) OR take_bit 4 d"
    using d(2) by (simp add: take_bit_push_bit take_bit_nat_eq_self)
  also have "\<dots> = push_bit 4 (take_bit 4 (unat b)) + take_bit 4 d"
    by (rule disjunctive_add_eq_or [symmetric], rule bit_eqI) (auto simp: bit_simps)
  finally show ?thesis using d(2) by (simp add: push_bit_eq_mult take_bit_eq_mod)
qed

text \<open>
  C37: the editor takes hexadecimal digits in either case, the last two typed are the byte it holds,
  and other keys leave it. Typing the digits that the screen shows for a byte gives this byte.
\<close>

theorem edit_two_digits:
  "digit_val (char_of (unat h)) = Some dh \<Longrightarrow> digit_val (char_of (unat l)) = Some dl \<Longrightarrow>
    edit_key (Key_char l) (edit_key (Key_char h) b) = word_of_nat (16 * dh + dl) \<and>
    fold (\<lambda>c. edit_key (Key_char (of_char c))) (fmt_X 2 (unat v)) b = v \<and>
    fold (\<lambda>c. edit_key (Key_char (of_char c))) (fmt_x 2 (unat v)) b = v"
proof -
  have two: "edit_key (Key_char l) (edit_key (Key_char h) b) = word_of_nat (16 * dh + dl)"
    if h: "digit_val (char_of (unat h)) = Some dh" and l: "digit_val (char_of (unat l)) = Some dl" for h l dh dl b
  proof -
    have "dh < 16" "dl < 16" using h l digit_val_bound by auto
    then show ?thesis
      using edit_key_digit [OF l, of "edit_key (Key_char h) b"] edit_key_digit [OF h, of b]
      by (intro word_unat_eq_iff [THEN iffD2]) (simp add: unat_of_nat take_bit_nat_eq_self del: of_nat_add of_nat_mult)
  qed
  have code: "char_of (unat (of_char c :: u8)) = c" for c
  proof -
    have "(of_char c :: u8) = word_of_nat (of_char c)" by (simp add: of_nat_of_char)
    then show ?thesis using nat_of_char_less_256 [of c] by (simp add: unat_of_nat take_bit_nat_eq_self)
  qed
  have typed: "fold (\<lambda>c. edit_key (Key_char (of_char c))) s b = v"
    if v: "digits_value 16 s = unat v" and hex: "\<forall>c \<in> set s. isxdigit c" and "length s = 2" for s b
  proof -
    obtain c d where s: "s = [c, d]" using \<open>length s = 2\<close> by (auto simp: length_Suc_conv numeral_2_eq_2)
    obtain x y where xy: "digit_val c = Some x" "digit_val d = Some y"
      using hex by (auto simp: s digit_in_def simp flip: digit_in_16 split: option.splits)
    then show ?thesis using v two [of "of_char c" x "of_char d" y] by (simp add: s code digits_value_def mult.commute)
  qed
  show "digit_val (char_of (unat h)) = Some dh \<Longrightarrow> digit_val (char_of (unat l)) = Some dl \<Longrightarrow> ?thesis"
    using two typed fmt_X_digits [of 2 "unat v"] fmt_x_digits [of 2 "unat v"] by (simp add: fmt_x_def)
qed

theorem edit_two_digits_witness:
  "edit_key (Key_char 0x66) (edit_key (Key_char 0x35) 0xAB) = (0x5F :: u8)"
  using edit_two_digits [of "0x35" 5 "0x66" 15 "0xAB"]
  by (simp add: digit_val_def isdigit_def char_in_def)

end
