(* ===== verification/Cfdk_Names.thy ===== *)
theory Cfdk_Names
  imports Cfdk_Properties
begin

text \<open>
  What the identifier data base means: a list of entries, in which a device's names are looked up. The
  single pass of \<open>loadPciNames\<close> over the file, which updates all devices at every line, gives each
  device what looking it up would give.
\<close>

section \<open>The data base as a list of entries\<close>

datatype ids_entry = Vendor_entry u32 string | Device_entry int u32 string

text \<open>The vendor in force after a line, and the entry of the line.\<close>

definition line_entry :: "int \<Rightarrow> string \<Rightarrow> int \<times> ids_entry list" where
  "line_entry vendor line =
     (if hd line \<noteq> CHR 0x09 then
        (case parseIdLine line of
           None \<Rightarrow> (- 1, [])
         | Some (i, name) \<Rightarrow> (int (unat i), [Vendor_entry i name]))
      else if \<not> (1 < length line \<and> line ! 1 = CHR 0x09) \<and> vendor \<ge> 0 then
        (case parseIdLine (tl line) of
           None \<Rightarrow> (vendor, [])
         | Some (i, name) \<Rightarrow> (vendor, [Device_entry vendor i name]))
      else (vendor, []))"

fun entries_of_lines :: "int \<Rightarrow> string list \<Rightarrow> ids_entry list" where
  "entries_of_lines vendor [] = []"
| "entries_of_lines vendor (line # lines) =
     (if line = [] \<or> hd line = CHR ''#'' then entries_of_lines vendor lines
      else if hd line = CHR ''C'' \<and> 1 < length line \<and> line ! 1 = CHR '' '' then []
      else
        case line_entry vendor line of (v, es) \<Rightarrow> es @ entries_of_lines v lines)"

text \<open>The lines as \<open>fgets\<close> cuts them, without their line feeds.\<close>

function fgets_lines :: "string \<Rightarrow> string list" where
  "fgets_lines txt =
     (case fgets FDK_MAX_READBUF txt of
        None \<Rightarrow> []
      | Some (line, rest) \<Rightarrow> take (strcspn line [CHR 0x0A]) line # fgets_lines rest)"
  by pat_completeness auto

termination fgets_lines
  by (relation "measure length") (auto simp: FDK_MAX_READBUF_def dest: fgets_shrinks [rotated])

declare fgets_lines.simps [simp del]

section \<open>Looking up a device\<close>

text \<open>The last name an entry gives, if any.\<close>

definition last_name :: "(ids_entry \<Rightarrow> string option) \<Rightarrow> ids_entry list \<Rightarrow> string \<Rightarrow> string" where
  "last_name f es unknown = (case List.map_filter f (rev es) of [] \<Rightarrow> unknown | name # _ \<Rightarrow> name_text name)"

definition vendor_of :: "fdkPciDev_t \<Rightarrow> ids_entry \<Rightarrow> string option" where
  "vendor_of d e = (case e of Vendor_entry i name \<Rightarrow> if ucast (pd_vendorId d) = i then Some name else None | _ \<Rightarrow> None)"

definition device_of :: "fdkPciDev_t \<Rightarrow> ids_entry \<Rightarrow> string option" where
  "device_of d e =
     (case e of
        Device_entry v i name \<Rightarrow>
          if int (unat (pd_vendorId d)) = v \<and> ucast (pd_deviceId d) = i then Some name else None
      | _ \<Rightarrow> None)"

definition lookup_ids :: "ids_entry list \<Rightarrow> fdkPciIds_t \<Rightarrow> fdkPciDev_t \<Rightarrow> fdkPciIds_t" where
  "lookup_ids es x d =
     \<lparr>venTxt = last_name (vendor_of d) es (venTxt x), devTxt = last_name (device_of d) es (devTxt x)\<rparr>"

lemma last_name_Nil [simp]: "last_name f [] u = u"
  by (simp add: last_name_def List.map_filter_def)

lemma last_name_append: "last_name f (es @ es') u = last_name f es' (last_name f es u)"
  by (simp add: last_name_def List.map_filter_def split: list.split)

lemma last_name_one: "last_name f [e] u = (case f e of None \<Rightarrow> u | Some name \<Rightarrow> name_text name)"
  by (simp add: last_name_def List.map_filter_def split: option.split)

lemma lookup_Nil [simp]: "lookup_ids [] x d = x"
  by (simp add: lookup_ids_def)

lemma lookup_append: "lookup_ids (es @ es') x d = lookup_ids es' (lookup_ids es x d) d"
  by (simp add: lookup_ids_def last_name_append)

lemma lookup_one:
  "lookup_ids [Vendor_entry i name] x d =
     (if ucast (pd_vendorId d) = i then x\<lparr>venTxt := name_text name\<rparr> else x)"
  "lookup_ids [Device_entry v i name] x d =
     (if int (unat (pd_vendorId d)) = v \<and> ucast (pd_deviceId d) = i then x\<lparr>devTxt := name_text name\<rparr> else x)"
  by (simp_all add: lookup_ids_def last_name_one vendor_of_def device_of_def)

lemma map2_same_length: "length xs = length ys \<Longrightarrow> map2 (\<lambda>x y. y) xs ys = ys"
  by (induction xs ys rule: list_induct2) auto

lemma map2_map2: "map2 f xs (map2 g xs ys) = map2 (\<lambda>x y. f x (g x y)) xs ys"
  by (induction xs arbitrary: ys; case_tac ys) auto

lemma map2_replicate: "map2 (\<lambda>d x. f x d) ds (replicate (length ds) u) = map (f u) ds"
  by (induction ds) auto

lemma ids_line_entry:
  assumes "length ids = length devs"
  shows "ids_line devs line (vendor, ids) =
    (fst (line_entry vendor line), map2 (\<lambda>d x. lookup_ids (snd (line_entry vendor line)) x d) devs ids)"
  using assms
  by (auto simp: ids_line_def line_entry_def lookup_one map2_same_length intro!: map_cong split: option.splits)

lemma ids_loop_lookup:
  assumes "length ids = length devs"
  shows "ids_loop devs t (vendor, ids) =
    map2 (\<lambda>d x. lookup_ids (entries_of_lines vendor (fgets_lines t)) x d) devs ids"
  using assms
proof (induction t arbitrary: vendor ids rule: fgets_lines.induct)
  case (1 t)
  show ?case
  proof (cases "fgets FDK_MAX_READBUF t")
    case None
    then show ?thesis using "1.prems" by (simp add: ids_loop.simps [of devs t] fgets_lines.simps [of t] map2_same_length)
  next
    case (Some lr)
    obtain line0 rest where lr: "lr = (line0, rest)" by (cases lr)
    obtain line where line: "take (strcspn line0 [CHR 0x0A]) line0 = line" by blast
    obtain v es where e: "line_entry vendor line = (v, es)" by fastforce
    note IH = "1.IH" [OF Some lr [symmetric]]
    have step: "ids_loop devs t (vendor, ids) =
        (if line = [] \<or> hd line = CHR ''#'' then ids_loop devs rest (vendor, ids)
         else if hd line = CHR ''C'' \<and> 1 < length line \<and> line ! 1 = CHR '' '' then ids
         else ids_loop devs rest (ids_line devs line (vendor, ids)))"
      by (simp only: ids_loop.simps [of devs t] Some lr option.case prod.case Let_def line snd_conv)
    have lines: "fgets_lines t = line # fgets_lines rest"
      by (simp only: fgets_lines.simps [of t] Some lr option.case prod.case line)
    show ?thesis
      unfolding step lines using "1.prems" IH
      by (simp add: ids_line_entry e map2_same_length lookup_append map2_map2)
  qed
qed

section \<open>A printed data base\<close>

text \<open>The format of \<open>data/pci.ids\<close>: vendors, each followed by its devices behind a tabulator.\<close>

definition id_line :: "u16 \<Rightarrow> string \<Rightarrow> string" where
  "id_line i name = fmt_x 4 (unat i) @ ''  '' @ name"

definition vendor_lines :: "u16 \<times> string \<times> (u16 \<times> string) list \<Rightarrow> string list" where
  "vendor_lines v =
     (case v of (i, name, ds) \<Rightarrow> id_line i name # map (\<lambda>(j, dname). CHR 0x09 # id_line j dname) ds)"

definition print_lines :: "string list \<Rightarrow> string" where
  "print_lines ls = concat (map (\<lambda>l. l @ [CHR 0x0A]) ls)"

definition vendor_entries :: "u16 \<times> string \<times> (u16 \<times> string) list \<Rightarrow> ids_entry list" where
  "vendor_entries v =
     (case v of (i, name, ds) \<Rightarrow>
        Vendor_entry (ucast i) name # map (\<lambda>(j, dname). Device_entry (int (unat i)) (ucast j) dname) ds)"

definition good_name :: "string \<Rightarrow> bool" where
  "good_name s \<longleftrightarrow> s \<noteq> [] \<and> \<not> isspace (hd s) \<and> CHR 0x0A \<notin> set s \<and> length s \<le> 500"

lemma fgets_line:
  assumes "CHR 0x0A \<notin> set l" and "length l \<le> 510"
  shows "fgets FDK_MAX_READBUF (l @ CHR 0x0A # rest) = Some (l @ [CHR 0x0A], rest)"
proof -
  have "takeWhile (\<lambda>c. c \<noteq> CHR 0x0A) (l @ CHR 0x0A # rest) = l"
    using assms(1) by (subst takeWhile_append2) auto
  then show ?thesis using assms(2) by (simp add: fgets_def FDK_MAX_READBUF_def)
qed

lemma strcspn_line: "CHR 0x0A \<notin> set l \<Longrightarrow> take (strcspn (l @ [CHR 0x0A]) [CHR 0x0A]) (l @ [CHR 0x0A]) = l"
  unfolding strcspn_def by (subst takeWhile_append2) auto

lemma fgets_lines_print:
  "\<forall>l \<in> set ls. CHR 0x0A \<notin> set l \<and> length l \<le> 510 \<Longrightarrow> fgets_lines (print_lines ls) = ls"
proof (induction ls)
  case Nil
  then show ?case by (simp add: print_lines_def fgets_lines.simps fgets_def)
next
  case (Cons l ls)
  then show ?case
    by (simp add: print_lines_def fgets_lines.simps [of "l @ CHR 0x0A # _"] fgets_line strcspn_line del: take_append)
qed

lemma fmt_x_4: "length (fmt_x 4 (unat (i :: u16))) = 4"
  using unsigned_less [of i, where ?'a = nat] by (simp add: fmt_x_def length_fmt_X)

lemma not_isspace_xdigit: "isxdigit c \<Longrightarrow> \<not> isspace c \<and> c \<noteq> CHR 0x09 \<and> c \<noteq> CHR ''#'' \<and> c \<noteq> CHR 0x0A \<and> c \<noteq> CHR '' ''"
  by (auto simp: isxdigit_def isspace_def isdigit_def char_in_def)

lemma parseIdLine_id_line:
  assumes "good_name name"
  shows "parseIdLine (id_line i name) = Some (ucast i, name)"
proof -
  let ?d = "fmt_x 4 (unat i)"
  note d = fmt_x_digits [of 4 "unat i"]
  have sp: "isspace (CHR '' '')" "\<not> isxdigit (CHR '' '')"
    by (simp_all add: isspace_def isxdigit_def isdigit_def char_in_def)
  have num: "strtoull (?d @ ''  '' @ name) 16 = (word_of_nat (unat i), 4)"
    using strtoull_hex_digits [of ?d "''  '' @ name"] d sp fmt_x_4 [of i] by simp
  have hd: "isxdigit (hd (?d @ ''  '' @ name))" using d by (cases ?d) auto
  have "dropWhile isspace (''  '' @ name) = name"
    using assms sp by (cases name) (auto simp: good_name_def)
  moreover have "(ucast (word_of_nat (unat i) :: u64) :: u32) = ucast i"
    by (simp, rule bit_word_eqI) (auto simp: bit_simps dest: bit_imp_le_length)
  ultimately show ?thesis
    using num hd sp fmt_x_4 [of i] d by (simp add: parseIdLine_def id_line_def nth_append)
qed

lemma id_line_head:
  "id_line i name \<noteq> []" "hd (id_line i name) \<notin> {CHR 0x09, CHR ''#'', CHR ''C''}"
  "length (id_line i name) = 6 + length name" "good_name name \<Longrightarrow> CHR 0x0A \<notin> set (id_line i name)"
proof -
  let ?d = "fmt_x 4 (unat i)"
  note d = fmt_x_digits [of 4 "unat i"]
  have ne: "?d \<noteq> []" using d by simp
  have "tolower c \<noteq> CHR ''C''" for c
    by (auto simp: tolower_def char_in_def dest!: arg_cong [of _ _ "of_char :: char \<Rightarrow> nat"])
  then have "CHR ''C'' \<notin> set ?d" by (auto simp: fmt_x_def) metis
  moreover obtain c cs where c: "?d = c # cs" using ne by (cases ?d) auto
  moreover have "isxdigit c" using d c by simp
  ultimately show "hd (id_line i name) \<notin> {CHR 0x09, CHR ''#'', CHR ''C''}"
    using not_isspace_xdigit [of c] by (auto simp: id_line_def)
  show "id_line i name \<noteq> []" by (simp add: id_line_def)
  show "length (id_line i name) = 6 + length name" using fmt_x_4 [of i] by (simp add: id_line_def)
  show "good_name name \<Longrightarrow> CHR 0x0A \<notin> set (id_line i name)"
    using d not_isspace_xdigit by (auto simp: id_line_def good_name_def)
qed

lemma entries_of_devices:
  "\<forall>(j, dname) \<in> set ds. good_name dname \<Longrightarrow>
    entries_of_lines (int v) (map (\<lambda>(j, dname). CHR 0x09 # id_line j dname) ds @ rest) =
    map (\<lambda>(j, dname). Device_entry (int v) (ucast j) dname) ds @ entries_of_lines (int v) rest"
proof (induction ds)
  case (Cons x ds)
  obtain j dname where x: "x = (j, dname)" by (cases x)
  have "id_line j dname ! 0 \<noteq> CHR 0x09"
    using id_line_head(1,2) [of j dname] by (simp add: hd_conv_nth)
  then show ?case
    using Cons by (simp add: x line_entry_def parseIdLine_id_line)
qed simp

lemma uint_wide: "uint (ucast (i :: u16) :: u32) = uint i"
  using unsigned_less [of i, where ?'a = int] unsigned_greater_eq [of i, where ?'a = int]
  by (simp add: unsigned_ucast_eq take_bit_int_eq_self)

lemma entries_of_vendor:
  assumes "good_name name" and "\<forall>(j, dname) \<in> set ds. good_name dname"
  shows "\<exists>v'. entries_of_lines v (vendor_lines (i, name, ds) @ rest) =
    vendor_entries (i, name, ds) @ entries_of_lines v' rest"
  using id_line_head(1,2) [of i name] entries_of_devices [OF assms(2), of "unat i" rest] uint_wide [of i]
  by (auto simp: vendor_lines_def vendor_entries_def line_entry_def parseIdLine_id_line [OF assms(1)])

definition good_vendor :: "u16 \<times> string \<times> (u16 \<times> string) list \<Rightarrow> bool" where
  "good_vendor v = (case v of (i, name, ds) \<Rightarrow> good_name name \<and> (\<forall>(j, dname) \<in> set ds. good_name dname))"

lemma entries_of_print:
  assumes "\<forall>v \<in> set db. good_vendor v"
  shows "entries_of_lines v (concat (map vendor_lines db)) = concat (map vendor_entries db)"
  using assms
proof (induction db arbitrary: v)
  case (Cons x db)
  obtain i name ds where x: "x = (i, name, ds)" by (metis prod_cases3)
  have g: "good_name name" "\<forall>(j, dname) \<in> set ds. good_name dname"
    using Cons.prems by (simp_all add: x good_vendor_def)
  obtain v' where "entries_of_lines v (vendor_lines x @ concat (map vendor_lines db)) =
      vendor_entries x @ entries_of_lines v' (concat (map vendor_lines db))"
    using entries_of_vendor [OF g] x by blast
  then show ?case using Cons by simp
qed simp

lemma vendor_lines_fit:
  "good_vendor v \<Longrightarrow> \<forall>l \<in> set (vendor_lines v). CHR 0x0A \<notin> set l \<and> length l \<le> 510"
  using id_line_head(3,4) by (auto simp: good_vendor_def vendor_lines_def good_name_def split: prod.splits)

lemma entries_of_printed:
  assumes "\<forall>v \<in> set db. good_vendor v"
  shows "entries_of_lines v (fgets_lines (print_lines (concat (map vendor_lines db)))) = concat (map vendor_entries db)"
proof -
  have "\<forall>l \<in> set (concat (map vendor_lines db)). CHR 0x0A \<notin> set l \<and> length l \<le> 510"
    using assms vendor_lines_fit by auto
  then show ?thesis by (simp add: fgets_lines_print entries_of_print [OF assms])
qed

section \<open>Properties\<close>

text \<open>
  C29: the single pass over the identifier file is equivalent to a look-up of each device. Every device
  of the list gets the name of the last line of its vendor and the name of the last line of its device
  identifier below a line of its vendor, or the words for an unknown one, cut to 74 characters.
\<close>

theorem loadPciNames_lookup:
  assumes "fs (pciIdsPath ui) = Some content" and "pFdkPciDev ui = Some devs"
    and "length devs = unat (numOfPciDevice ui)"
  shows "loadPciNames fs ui =
    (0, ui\<lparr>pFdkPciIds := Some (map (lookup_ids (entries_of_lines (- 1) (fgets_lines content)) unknown_ids) devs)\<rparr>)"
  using assms ids_loop_lookup [of "replicate (length devs) unknown_ids" devs content "- 1"]
  by (simp add: loadPciNames_def Let_def map2_replicate flip: assms(3))

definition sample_db :: "(u16 \<times> string \<times> (u16 \<times> string) list) list" where
  "sample_db = [(0x1234, ''Other'', []), (0x8086, ''Intel'', [(0x7113, ''PIIX4 ACPI'')])]"

lemma sample_db_good: "\<forall>v \<in> set sample_db. good_vendor v"
  by (simp add: sample_db_def good_vendor_def good_name_def isspace_def char_in_def)

lemma sample_db_entries: "entries_of_lines (- 1) (fgets_lines (print_lines (concat (map vendor_lines sample_db)))) =
    [Vendor_entry 0x1234 ''Other'', Vendor_entry 0x8086 ''Intel'', Device_entry 0x8086 0x7113 ''PIIX4 ACPI'']"
  using entries_of_printed [OF sample_db_good, of "- 1"] by (simp add: sample_db_def vendor_entries_def)

theorem loadPciNames_lookup_witness:
  "pFdkPciIds (snd (loadPciNames (\<lambda>p. Some (print_lines (concat (map vendor_lines sample_db)))) (sim_ui idle_channel))) =
     Some [\<lparr>venTxt = ''Intel'', devTxt = ''Unknown device''\<rparr>, \<lparr>venTxt = ''Intel'', devTxt = ''PIIX4 ACPI''\<rparr>]"
proof -
  let ?devs = "[\<lparr>pd_bus = 0, pd_dev = 0, pd_fun = 0, pd_vendorId = 0x8086, pd_deviceId = 0x1237\<rparr>,
    \<lparr>pd_bus = 0, pd_dev = 1, pd_fun = 3, pd_vendorId = 0x8086, pd_deviceId = 0x7113\<rparr>]"
  have "pFdkPciDev (sim_ui idle_channel) = Some ?devs" "length ?devs = unat (numOfPciDevice (sim_ui idle_channel))"
    by (simp_all add: sim_ui_def)
  from loadPciNames_lookup [OF _ this, of "\<lambda>p. Some (print_lines (concat (map vendor_lines sample_db)))"]
  show ?thesis
    by (simp add: sample_db_entries lookup_ids_def last_name_def List.map_filter_def vendor_of_def device_of_def
        unknown_ids_def name_text_def snprintf_text_def FDK_MAX_PCINAME_def)
qed

text \<open>
  C30: a data base in the format of \<open>pci.ids\<close> is read as it was written. The file printed for a list of
  vendors with their devices, of names up to 500 characters, gives every listed device what it is
  called in that list.
\<close>

theorem pci_ids_round_trip:
  assumes "\<forall>v \<in> set db. good_vendor v" and "pFdkPciDev ui = Some devs" and "length devs = unat (numOfPciDevice ui)"
  shows "loadPciNames (\<lambda>p. Some (print_lines (concat (map vendor_lines db)))) ui =
    (0, ui\<lparr>pFdkPciIds := Some (map (lookup_ids (concat (map vendor_entries db)) unknown_ids) devs)\<rparr>)"
proof -
  have "ids_loop devs (print_lines (concat (map vendor_lines db))) (- 1, replicate (length devs) unknown_ids) =
      map2 (\<lambda>d x. lookup_ids (concat (map vendor_entries db)) x d) devs (replicate (length devs) unknown_ids)"
    by (simp add: ids_loop_lookup entries_of_printed [OF assms(1)])
  then show ?thesis using assms(2) by (simp add: loadPciNames_def Let_def map2_replicate flip: assms(3))
qed

theorem pci_ids_round_trip_witness:
  "pFdkPciIds (snd (loadPciNames (\<lambda>p. Some (print_lines (concat (map vendor_lines sample_db)))) (sim_ui idle_channel))) =
     Some (map (lookup_ids (concat (map vendor_entries sample_db)) unknown_ids) (the (pFdkPciDev (sim_ui idle_channel))))"
proof -
  have "pFdkPciDev (sim_ui idle_channel) = Some (the (pFdkPciDev (sim_ui idle_channel)))"
    "length (the (pFdkPciDev (sim_ui idle_channel))) = unat (numOfPciDevice (sim_ui idle_channel))"
    by (simp_all add: sim_ui_def)
  then show ?thesis by (simp only: pci_ids_round_trip [OF sample_db_good] snd_conv) simp
qed

end
