(* ===== verification/Cfdk_Session.thy ===== *)
theory Cfdk_Session
  imports Cfdk_Names
begin

text \<open>
  The console client against the server: the two listings it reads at the start are those of the
  machine the server runs on, through the encoding of the records, the packets and the stream.
\<close>

definition pci_list_request :: "u8 list" where
  "pci_list_request = request_bytes FDK_REQ_PCI_LIST 0 0 None"

definition e820_list_request :: "u8 list" where
  "e820_list_request = request_bytes FDK_REQ_E820_LIST 0 0 None"

lemma build_lists:
  "build_request FDK_REQ_PCI_LIST 0 0 None pkt = Some (8, pkt)"
  "build_request FDK_REQ_E820_LIST 0 0 None pkt = Some (8, pkt)"
  by (simp_all add: build_request_def layout)

lemma list_request_fields:
  "length pci_list_request = 8" "hdr_opCode (fresh_buffer pci_list_request) = op_code FDK_REQ_PCI_LIST"
  "length e820_list_request = 8" "hdr_opCode (fresh_buffer e820_list_request) = op_code FDK_REQ_E820_LIST"
proof -
  note r = request_bytes_ok [OF build_lists(1) [of "replicate FDK_MAXSZ_PKT 0"], folded pci_list_request_def, simplified]
  note q = request_bytes_ok [OF build_lists(2) [of "replicate FDK_MAXSZ_PKT 0"], folded e820_list_request_def, simplified]
  show l: "length pci_list_request = 8" "length e820_list_request = 8" by (rule r(2), rule q(2))
  show "hdr_opCode (fresh_buffer pci_list_request) = op_code FDK_REQ_PCI_LIST"
    "hdr_opCode (fresh_buffer e820_list_request) = op_code FDK_REQ_E820_LIST"
    using l r(3) q(3) by (simp_all add: hdr_opCode_fresh)
qed

text \<open>A response with a list of records: the count behind the header, then the records.\<close>

definition list_packet :: "fdkOpCode_t \<Rightarrow> ('a \<Rightarrow> u8 list) \<Rightarrow> 'a list \<Rightarrow> u8 list" where
  "list_packet op enc xs =
     (let bs = concat (map enc xs)
      in hdr_bytes op FDK_SUCCESS (12 + length bs) @ le_bytes 4 (unat (word_of_nat (length xs) :: u32)) @ bs)"

lemma answer_lists:
  "answer_packet K memfd dev pci_list_request s =
     (FDKD_REPLY, list_packet FDK_RSP_PCI_LIST pciDev_bytes (fst (pciListDevices K pci_capacity s)),
      snd (pciListDevices K pci_capacity s))"
  "answer_packet K memfd dev e820_list_request s =
     (FDKD_REPLY, list_packet FDK_RSP_E820_LIST e820_bytes (e820ReadMap K e820_capacity s), s)"
proof -
  have len: "length (fresh_buffer pci_list_request) = FDK_MAXSZ_PKT" "length (fresh_buffer e820_list_request) = FDK_MAXSZ_PKT"
    by (intro length_fresh; simp add: list_request_fields)+
  show "answer_packet K memfd dev pci_list_request s =
     (FDKD_REPLY, list_packet FDK_RSP_PCI_LIST pciDev_bytes (fst (pciListDevices K pci_capacity s)),
      snd (pciListDevices K pci_capacity s))"
    using list_response(2) [OF len(1) pci_list_fits, where ok = True]
    by (simp add: answer_packet_def handle_packet_eq list_request_fields request_of_def req_pci_list_eq
        list_packet_def Let_def split_def del: le_bytes.simps)
  show "answer_packet K memfd dev e820_list_request s =
     (FDKD_REPLY, list_packet FDK_RSP_E820_LIST e820_bytes (e820ReadMap K e820_capacity s), s)"
    using list_response(2) [OF len(2) e820_list_fits, where ok = True]
    by (simp add: answer_packet_def handle_packet_eq list_request_fields request_of_def req_e820_list_eq
        list_packet_def Let_def del: le_bytes.simps)
qed

lemma list_packet_fields:
  assumes "length xs < 2 ^ 32" and "\<And>pre x post. at (length pre) (pre @ enc x @ post) = x" and "\<And>x. length (enc x) = w"
    and "take (length (list_packet op enc xs)) buf = list_packet op enc xs"
  shows "unat (get32 8 buf) = length xs" "get32 8 buf = word_of_nat (length xs)" "records_at w at 12 (length xs) buf = xs"
    "hdr_opCode (list_packet op enc xs) = op_code op"
proof -
  let ?h = "hdr_bytes op FDK_SUCCESS (12 + length (concat (map enc xs)))"
  let ?c = "le_bytes 4 (unat (word_of_nat (length xs) :: u32))"
  let ?bs = "concat (map enc xs)"
  have p: "list_packet op enc xs = ?h @ ?c @ ?bs" by (simp add: list_packet_def Let_def)
  obtain rest where buf: "buf = ?h @ ?c @ ?bs @ rest"
    using assms(4) append_take_drop_id [of "length (list_packet op enc xs)" buf] unfolding p by (metis append.assoc)
  have l: "length ?h = 8" "length ?c = 4" by (simp_all add: hdr_bytes_def)
  show n: "get32 8 buf = word_of_nat (length xs)"
    using l by (simp add: buf get_defs bytes_at_append_skip bytes_at_append_here word_of_le_bytes del: le_bytes.simps)
  show "unat (get32 8 buf) = length xs"
    using assms(1) by (simp add: n unat_of_nat take_bit_nat_eq_self)
  show "records_at w at 12 (length xs) buf = xs"
    using records_round_trip [of at enc w "?h @ ?c" xs rest] assms(2,3) l by (simp add: buf)
  show "hdr_opCode (list_packet op enc xs) = op_code op"
    unfolding p by (rule hdr_of_bytes)
qed

text \<open>A request of the console in a session.\<close>

lemma execute_session:
  assumes "in_session K memfd dev fin sent (request_bytes op addr sz cnt # ps) (pktBuf ui) (ui_ch ui) s"
    and "build_request op addr sz cnt (replicate FDK_MAXSZ_PKT 0) = Some (len, pkt)" and "len \<noteq> 0"
    and "\<forall>bs. cnt = Some bs \<longrightarrow> length bs = unat sz"
    and "answer_packet K memfd dev (request_bytes op addr sz cnt) s = (FDKD_REPLY, out, s')"
    and "hdr_opCode out = op_code q" and "is_request op" and "op_num q = op_num op + 1"
  shows "\<exists>buf ch. execute ui op addr sz cnt = (0, ui\<lparr>pktBuf := buf, ui_ch := ch\<rparr>) \<and>
    take (length out) buf = out \<and> in_session K memfd dev fin sent ps buf ch s'"
proof -
  obtain buf ch where "executeFunction op addr sz cnt (pktBuf ui) FDK_MAXSZ_PKT (ui_ch ui) = (0, buf, ch)"
    "take (length out) buf = out" "in_session K memfd dev fin sent ps buf ch s'"
    using session_exchange [OF assms] by blast
  then show ?thesis by (intro exI [of _ buf] exI [of _ ch]) (simp add: execute_def)
qed

lemma execute_list:
  assumes "in_session K memfd dev fin sent (request_bytes op 0 0 None # ps) (pktBuf ui) (ui_ch ui) s"
    and "build_request op 0 0 None (replicate FDK_MAXSZ_PKT 0) = Some (8, pkt)" and "is_request op"
    and "op_num q = op_num op + 1"
    and "answer_packet K memfd dev (request_bytes op 0 0 None) s = (FDKD_REPLY, list_packet q enc xs, s')"
  shows "\<exists>buf ch. execute ui op 0 0 None = (0, ui\<lparr>pktBuf := buf, ui_ch := ch\<rparr>) \<and>
    take (length (list_packet q enc xs)) buf = list_packet q enc xs \<and> in_session K memfd dev fin sent ps buf ch s'"
proof -
  have "hdr_opCode (list_packet q enc xs) = op_code q" unfolding list_packet_def Let_def by (rule hdr_of_bytes)
  from execute_session [OF assms(1,2) _ _ assms(5) this assms(3,4)] show ?thesis by simp
qed

text \<open>The names of the devices: one entry for each device.\<close>

lemma loadPciNames_ids:
  assumes "pFdkPciDev ui = Some devs" and "length devs = unat (numOfPciDevice ui)"
  shows "\<exists>e ids. loadPciNames fs ui = (e, ui\<lparr>pFdkPciIds := Some ids\<rparr>) \<and> length ids = length devs"
  using assms ids_loop_lookup [of "replicate (length devs) unknown_ids" devs _ "- 1"]
  by (cases "fs (pciIdsPath ui)") (auto simp: loadPciNames_def Let_def)

text \<open>Reading the two lists.\<close>

lemma lists_session:
  assumes "in_session K memfd dev fin sent (pci_list_request # e820_list_request # ps) (pktBuf ui) (ui_ch ui) s"
    and "pciListDevices K pci_capacity s = (devs, s')"
  shows "\<exists>ui1 ids buf ch n m. readPciList (loadPciNames fs) (True, True) ui = (0, ui1) \<and>
    readE820List True ui1 = (0, ui\<lparr>pktBuf := buf, ui_ch := ch, pFdkPciDev := Some devs, pFdkPciIds := Some ids,
      numOfPciDevice := n, pFdkE820record := Some (e820ReadMap K e820_capacity s'), numOfE820Record := m\<rparr>) \<and>
    length ids = length devs \<and> unat n = length devs \<and> unat m = length (e820ReadMap K e820_capacity s') \<and>
    in_session K memfd dev fin sent ps buf ch s'"
proof -
  let ?recs = "e820ReadMap K e820_capacity s'"
  have ld: "length devs \<le> 1022" using length_pciListDevices [of K pci_capacity s] assms(2) by (simp add: pci_capacity_def)
  have le: "length ?recs \<le> 340" using length_e820ReadMap [of K e820_capacity s'] by (simp add: e820_capacity_def)
  have a1: "answer_packet K memfd dev (request_bytes FDK_REQ_PCI_LIST 0 0 None) s =
      (FDKD_REPLY, list_packet FDK_RSP_PCI_LIST pciDev_bytes devs, s')"
    using answer_lists(1) [of K memfd dev s] assms(2) by (simp add: pci_list_request_def)
  have a2: "answer_packet K memfd dev (request_bytes FDK_REQ_E820_LIST 0 0 None) s' =
      (FDKD_REPLY, list_packet FDK_RSP_E820_LIST e820_bytes ?recs, s')"
    using answer_lists(2) [of K memfd dev s'] by (simp add: e820_list_request_def)
  obtain buf ch where e1: "execute ui FDK_REQ_PCI_LIST 0 0 None = (0, ui\<lparr>pktBuf := buf, ui_ch := ch\<rparr>)"
    and t1: "take (length (list_packet FDK_RSP_PCI_LIST pciDev_bytes devs)) buf = list_packet FDK_RSP_PCI_LIST pciDev_bytes devs"
    and c1: "in_session K memfd dev fin sent (e820_list_request # ps) buf ch s'"
    using execute_list [OF assms(1) [unfolded pci_list_request_def] build_lists(1) _ _ a1] by (auto simp: is_request_def)
  have "length devs < 2 ^ 32" using ld by simp
  note f1 = list_packet_fields [OF this pciDev_round_trip length_record_bytes(1) t1]
  let ?v = "ui\<lparr>pktBuf := buf, ui_ch := ch, pFdkPciDev := Some devs, pFdkPciIds := Some (replicate (length devs) blank_ids),
    numOfPciDevice := get32 8 buf\<rparr>"
  obtain e ids where n: "loadPciNames fs ?v = (e, ?v\<lparr>pFdkPciIds := Some ids\<rparr>)" "length ids = length devs"
    using loadPciNames_ids [of ?v devs fs] f1(1) by auto
  obtain u1 where u1: "u1 = ?v\<lparr>pFdkPciIds := Some ids\<rparr>" by blast
  have r1: "readPciList (loadPciNames fs) (True, True) ui = (0, u1)"
    using f1 ld n(1) by (simp add: readPciList_def e1 layout wire_sizes Let_def u1)
  have "in_session K memfd dev fin sent (request_bytes FDK_REQ_E820_LIST 0 0 None # ps) (pktBuf u1) (ui_ch u1) s'"
    using c1 by (simp add: e820_list_request_def u1)
  from execute_list [OF this build_lists(2) _ _ a2]
  obtain buf2 ch2 where e2: "execute u1 FDK_REQ_E820_LIST 0 0 None = (0, u1\<lparr>pktBuf := buf2, ui_ch := ch2\<rparr>)"
    and t2: "take (length (list_packet FDK_RSP_E820_LIST e820_bytes ?recs)) buf2 = list_packet FDK_RSP_E820_LIST e820_bytes ?recs"
    and c2: "in_session K memfd dev fin sent ps buf2 ch2 s'"
    by (auto simp: is_request_def)
  have "length ?recs < 2 ^ 32" using le by simp
  note f2 = list_packet_fields [OF this e820_round_trip length_record_bytes(2) t2]
  have "readE820List True u1 = (0, u1\<lparr>pktBuf := buf2, ui_ch := ch2, pFdkE820record := Some ?recs, numOfE820Record := get32 8 buf2\<rparr>)"
    using f2 le by (simp add: readE820List_def e2 layout wire_sizes Let_def)
  then show ?thesis
    using r1 f1(1) f2(1) n(2) c2
    by (intro exI [of _ u1] exI [of _ ids] exI [of _ buf2] exI [of _ ch2] exI [of _ "get32 8 buf"] exI [of _ "get32 8 buf2"])
      (simp add: u1)
qed

text \<open>
  C16: the lists the console shows are those of the target. Connected to a server, it reads exactly the
  devices that the server's back-end finds and exactly the entries of the target's memory map, with
  their counts, goes on to the names, and leaves the connection ready for the next request.
\<close>

theorem listings_end_to_end:
  assumes "connected K memfd dev (pci_list_request # e820_list_request # ps) (pktBuf ui) (ui_ch ui) s"
    and "pciListDevices K pci_capacity s = (devs, s')"
  shows "\<exists>ui1 ui2. readPciList (loadPciNames fs) (True, True) ui = (0, ui1) \<and> readE820List True ui1 = (0, ui2) \<and>
    pFdkPciDev ui2 = Some devs \<and> unat (numOfPciDevice ui2) = length devs \<and>
    pFdkE820record ui2 = Some (e820ReadMap K e820_capacity s') \<and>
    unat (numOfE820Record ui2) = length (e820ReadMap K e820_capacity s') \<and>
    connected K memfd dev ps (pktBuf ui2) (ui_ch ui2) s'"
  using lists_session [OF in_session_start [OF assms(1)] assms(2), of fs] by (force simp: in_session_def)

theorem listings_end_to_end_witness:
  "\<exists>ch ui1 ui2. readPciList (loadPciNames (\<lambda>p. None)) (True, True) (sim_ui ch) = (0, ui1) \<and>
     readE820List True ui1 = (0, ui2) \<and>
     pFdkPciDev ui2 = Some (fst (pciListDevices sim_os pci_capacity sim_start)) \<and>
     pFdkE820record ui2 = Some (e820ReadMap sim_os e820_capacity (snd (pciListDevices sim_os pci_capacity sim_start)))"
proof -
  let ?out = "fst (serve_spec sim_os 3 None [pci_list_request, e820_list_request] sim_start)"
  let ?ui = "sim_ui \<lparr>ch_rx = [Chunk ?out], ch_wr = [], ch_tx = []\<rparr>"
  have "connected sim_os 3 None [pci_list_request, e820_list_request] (pktBuf ?ui) (ui_ch ?ui) sim_start"
    by (simp add: connected_def sim_ui_def initial_ui_def)
  moreover obtain devs s' where "pciListDevices sim_os pci_capacity sim_start = (devs, s')" by fastforce
  ultimately show ?thesis using listings_end_to_end [where fs = "\<lambda>p. None" and ui = ?ui] by fastforce
qed

end
