(* ===== verification/Device_Memory.thy ===== *)
theory Device_Memory
  imports Cmos_Device Lib_Disk Phys_Memory
begin

text \<open>
  The two other devices that hold bytes as memory does: the CMOS chip and the disk. What the back-ends
  read from them and leave in them, as functions of their contents.
\<close>

section \<open>The CMOS chip\<close>

fun nv_store :: "(nat \<Rightarrow> u8) \<Rightarrow> nat \<Rightarrow> u8 list \<Rightarrow> (nat \<Rightarrow> u8)" where
  "nv_store m i [] = m"
| "nv_store m i (b # bs) = nv_store (m(i := b)) (Suc i) bs"

lemma cmos_write_byte:
  fixes K :: "'w os" and s :: "'w sys" and h and off and b
  assumes "cmos_chip K nv ix" and "ph_fd h < 0" and "unat off < 256"
  defines "i \<equiv> portXfer K h (cmos_idxPort off) (cmos_idx off) True s"
  defines "x \<equiv> portXfer K h (cmos_idxPort off + 1) b True (snd i)"
  shows "fst (fst i) = 0 \<and> fst x = (0, b) \<and> nv (env (snd x)) = (nv (env s))(unat off := b)"
  by (simp add: i_def x_def portXfer_insn [OF assms(1,2)] cmos_idxPort_bank chip_calls [OF assms(1)]
      cmos_cell_offset assms(3))

lemma cmos_bytes_write:
  assumes "cmos_chip K nv ix" and "ph_fd h < 0" and "unat off + length bs \<le> 256"
  shows "fst (fst (cmos_bytes K h off bs True s)) = 0 \<and>
    nv (env (snd (cmos_bytes K h off bs True s))) = nv_store (nv (env s)) (unat off) bs"
  using assms(3)
proof (induction bs arbitrary: off s)
  case Nil
  show ?case by simp
next
  case (Cons b bs)
  then have lt: "unat off < 256" by simp
  let ?i = "portXfer K h (cmos_idxPort off) (cmos_idx off) True s"
  let ?x = "portXfer K h (cmos_idxPort off + 1) b True (snd ?i)"
  note byte = cmos_write_byte [OF assms(1,2) lt, of s b]
  have "fst (fst (cmos_bytes K h (off + 1) bs True (snd ?x))) = 0 \<and>
    nv (env (snd (cmos_bytes K h (off + 1) bs True (snd ?x)))) = nv_store (nv (env (snd ?x))) (unat (off + 1)) bs"
    using Cons.prems unat_Suc_u32 [OF lt] by (intro Cons.IH) simp
  with byte unat_Suc_u32 [OF lt] show ?case by (simp add: split_def Let_def)
qed

lemma cmos_close:
  assumes "cmos_chip K nv ix" and "ph_fd h < 0"
  shows "nv (env (portClose K h s)) = nv (env s)"
  using assms(2) chip_calls [OF assms(1)] by (simp add: portClose_def)

text \<open>An access in its three parts.\<close>

lemma cmosAccess_chip:
  assumes chip: "cmos_chip K nv ix" and "unat addr + unat len \<le> 256" and "length buf = unat len"
  shows "\<exists>h s1. ph_fd h < 0 \<and> nv (env s1) = nv (env s) \<and> unat (ucast addr :: u32) = unat addr \<and>
    cmosAccess K addr len buf w s =
      ((fst (fst (cmos_bytes K h (ucast addr) buf w s1)), blit 0 (snd (fst (cmos_bytes K h (ucast addr) buf w s1))) buf),
       portClose K h (snd (cmos_bytes K h (ucast addr) buf w s1)))"
proof -
  obtain h s1 where "portOpen K FDK_CMOS_ADDR (ucast (FDK_CMOS_EXT_DATA - FDK_CMOS_ADDR + 1)) s = (Some h, s1)"
    and "ph_fd h < 0" and "nv (env s1) = nv (env s)"
    using cmos_open [OF chip cmos_port_range, of s] by auto
  moreover have "unat (ucast addr :: u32) = unat addr"
    using assms(2) by (simp add: unsigned_ucast_eq take_bit_nat_eq_self_iff)
  ultimately show ?thesis
    using cmos_size_check [OF assms(2)] assms(3)
    by (intro exI [of _ h] exI [of _ s1]) (simp add: cmosAccess_def leD split_def Let_def)
qed

lemma cmosRead_chip:
  assumes chip: "cmos_chip K nv ix" and "unat addr + unat len \<le> 256" and "length buf = unat len"
  shows "\<exists>s'. cmosRead K addr len buf s = ((0, map (nv (env s)) [unat addr ..< unat addr + unat len]), s') \<and>
    nv (env s') = nv (env s)"
proof -
  obtain h s1 where h: "ph_fd h < 0" and s1: "nv (env s1) = nv (env s)" "unat (ucast addr :: u32) = unat addr"
    and a: "cmosAccess K addr len buf False s =
      ((fst (fst (cmos_bytes K h (ucast addr) buf False s1)), blit 0 (snd (fst (cmos_bytes K h (ucast addr) buf False s1))) buf),
       portClose K h (snd (cmos_bytes K h (ucast addr) buf False s1)))"
    using cmosAccess_chip [OF assms] by blast
  have b: "fst (cmos_bytes K h (ucast addr) buf False s1) = (0, map (nv (env s)) [unat addr ..< unat addr + unat len])"
    "nv (env (snd (cmos_bytes K h (ucast addr) buf False s1))) = nv (env s)"
    using cmos_bytes_read [OF chip h, of "ucast addr" buf s1] assms(2,3) s1 by simp_all
  then show ?thesis
    using assms(3) by (simp add: cmosRead_def a fill_on_error_def blit_full cmos_close [OF chip h])
qed

lemma cmosWrite_chip:
  assumes chip: "cmos_chip K nv ix" and "unat addr + unat len \<le> 256" and "length buf = unat len"
  shows "\<exists>s'. cmosWrite K addr len buf s = (0, s') \<and> nv (env s') = nv_store (nv (env s)) (unat addr) buf"
proof -
  obtain h s1 where h: "ph_fd h < 0" and s1: "nv (env s1) = nv (env s)" "unat (ucast addr :: u32) = unat addr"
    and a: "cmosAccess K addr len buf True s =
      ((fst (fst (cmos_bytes K h (ucast addr) buf True s1)), blit 0 (snd (fst (cmos_bytes K h (ucast addr) buf True s1))) buf),
       portClose K h (snd (cmos_bytes K h (ucast addr) buf True s1)))"
    using cmosAccess_chip [OF assms] by blast
  have "fst (fst (cmos_bytes K h (ucast addr) buf True s1)) = 0"
    "nv (env (snd (cmos_bytes K h (ucast addr) buf True s1))) = nv_store (nv (env s)) (unat addr) buf"
    using cmos_bytes_write [OF chip h, of "ucast addr" buf s1] assms(2,3) s1 by simp_all
  then show ?thesis by (simp add: cmosWrite_def a cmos_close [OF chip h])
qed

section \<open>The disk\<close>

text \<open>
  Documented behaviour of a block device of at least \<open>bytes\<close> bytes: it can be opened, a \<open>pread\<close> inside
  it returns the bytes there and a \<open>pwrite\<close> inside it changes exactly those, both in full; flushing
  succeeds, and opening, flushing and closing change no byte. \<open>disk\<close> is its contents, and \<open>opened\<close>
  tells which descriptors refer to it.
\<close>

definition disk_device ::
  "'w os \<Rightarrow> string \<Rightarrow> ('w \<Rightarrow> u64 \<Rightarrow> u8) \<Rightarrow> ('w \<Rightarrow> s32 \<Rightarrow> bool) \<Rightarrow> nat \<Rightarrow> bool" where
  "disk_device K path disk opened bytes \<longleftrightarrow>
     (\<forall>fl e fd e'. os_open K path fl e = (fd, e') \<longrightarrow> 0 \<le> fd \<and> opened e' fd \<and> disk e' = disk e) \<and>
     (\<forall>fd len off e. opened e fd \<longrightarrow> unat off + len \<le> bytes \<longrightarrow>
       fst (os_pread K fd len off e) = Some (phys_bytes (disk e) off len) \<and>
       disk (snd (os_pread K fd len off e)) = disk e) \<and>
     (\<forall>fd bs off e. opened e fd \<longrightarrow> unat off + length bs \<le> bytes \<longrightarrow>
       fst (os_pwrite K fd bs off e) = int (length bs) \<and>
       disk (snd (os_pwrite K fd bs off e)) = phys_store (disk e) off bs \<and>
       opened (snd (os_pwrite K fd bs off e)) fd) \<and>
     (\<forall>fd e. opened e fd \<longrightarrow> fst (os_fsync K fd e) = 0 \<and> disk (snd (os_fsync K fd e)) = disk e) \<and>
     (\<forall>fd e. disk (os_close K fd e) = disk e)"

lemma diskRead_device:
  assumes "disk_device K path disk opened bytes" and "0 < unat len" and "unat addr + unat len \<le> bytes"
    and "length buf = unat len"
  shows "\<exists>s'. diskRead K (Some path) addr len buf s = ((0, phys_bytes (disk (env s)) addr (unat len)), s') \<and>
    disk (env s') = disk (env s)"
proof -
  obtain fd e1 where o: "os_open K path O_RDONLY (env s) = (fd, e1)" by fastforce
  then have e1: "0 \<le> fd" "opened e1 fd" "disk e1 = disk (env s)"
    using assms(1) unfolding disk_device_def by blast+
  then have "fst (os_pread K fd (unat len) addr e1) = Some (phys_bytes (disk (env s)) addr (unat len))"
    "disk (snd (os_pread K fd (unat len) addr e1)) = disk (env s)"
    using assms(1,3) unfolding disk_device_def by metis+
  moreover have "disk (os_close K fd e) = disk e" for e using assms(1) by (simp add: disk_device_def)
  moreover have "len \<noteq> 0" "length (phys_bytes (disk (env s)) addr (unat len)) = unat len"
    using assms(2) by (auto simp: phys_bytes_def)
  ultimately show ?thesis
    using assms(4) e1(1) by (simp add: diskRead_def sys_open_def o sys_pread_def sys_close_def split_def Let_def blit_full)
qed

lemma diskWrite_device:
  assumes "disk_device K path disk opened bytes" and "0 < unat len" and "unat addr + unat len \<le> bytes"
    and "length buf = unat len"
  shows "\<exists>s'. diskWrite K (Some path) addr len buf s = (0, s') \<and>
    disk (env s') = phys_store (disk (env s)) addr buf"
proof -
  obtain fd e1 where o: "os_open K path O_WRONLY (env s) = (fd, e1)" by fastforce
  then have e1: "0 \<le> fd" "opened e1 fd" "disk e1 = disk (env s)"
    using assms(1) unfolding disk_device_def by blast+
  obtain n e2 where w: "os_pwrite K fd buf addr e1 = (n, e2)" by fastforce
  then have e2: "n = int (unat len)" "disk e2 = phys_store (disk (env s)) addr buf" "opened e2 fd"
    using assms(1,3,4) e1 unfolding disk_device_def by (metis fst_conv snd_conv)+
  then have "fst (os_fsync K fd e2) = 0" "disk (snd (os_fsync K fd e2)) = phys_store (disk (env s)) addr buf"
    using assms(1) unfolding disk_device_def by metis+
  moreover have "disk (os_close K fd e) = disk e" for e using assms(1) by (simp add: disk_device_def)
  moreover have "len \<noteq> 0" using assms(2) by auto
  ultimately show ?thesis
    using assms(4) e1(1) e2(1) by (simp add: diskWrite_def sys_open_def o sys_pwrite_def w sys_fsync_def sys_close_def split_def Let_def)
qed

section \<open>The devices are apart\<close>

text \<open>
  What the calls of one device leave alone: \<open>f\<close> is any part of the environment, such as the contents of
  the two other devices.
\<close>

definition mem_calls_keep :: "'w os \<Rightarrow> ('w \<Rightarrow> 'x) \<Rightarrow> bool" where
  "mem_calls_keep K f \<longleftrightarrow>
     (\<forall>fd len base e. f (snd (os_mmap K fd len base e)) = f e) \<and> (\<forall>p len e. f (os_munmap K p len e) = f e) \<and>
     (\<forall>w q e. f (snd (os_load K w q e)) = f e) \<and> (\<forall>w q v e. f (os_store K w q v e) = f e)"

definition port_calls_keep :: "'w os \<Rightarrow> ('w \<Rightarrow> 'x) \<Rightarrow> bool" where
  "port_calls_keep K f \<longleftrightarrow>
     (\<forall>e. f (snd (os_open K FDK_PORT_DEV O_RDWR e)) = f e) \<and> (\<forall>port n on e. f (snd (os_ioperm K port n on e)) = f e) \<and>
     (\<forall>b v e. f (os_outb K v (bank_port b) e) = f e \<and> f (os_outb K v (bank_port b + 1) e) = f e) \<and>
     (\<forall>b e. f (snd (os_inb K (bank_port b + 1) e)) = f e)"

definition disk_calls_keep :: "'w os \<Rightarrow> string \<Rightarrow> ('w \<Rightarrow> 'x) \<Rightarrow> bool" where
  "disk_calls_keep K path f \<longleftrightarrow>
     (\<forall>fl e. f (snd (os_open K path fl e)) = f e) \<and> (\<forall>fd len off e. f (snd (os_pread K fd len off e)) = f e) \<and>
     (\<forall>fd bs off e. f (snd (os_pwrite K fd bs off e)) = f e) \<and> (\<forall>fd e. f (snd (os_fsync K fd e)) = f e) \<and>
     (\<forall>fd e. f (os_close K fd e) = f e)"

lemma load_bytes_keeps: "mem_calls_keep K f \<Longrightarrow> f (env (snd (load_bytes K p n s))) = f (env s)"
  by (induction n arbitrary: p s) (simp_all add: mem_calls_keep_def sys_load_def split_def Let_def)

lemma store_bytes_keeps: "mem_calls_keep K f \<Longrightarrow> f (env (store_bytes K p bs s)) = f (env s)"
  by (induction bs arbitrary: p s) (simp_all add: mem_calls_keep_def sys_store_def)

lemma map_calls_keep:
  assumes "mem_calls_keep K f"
  shows "mapRange K fd addr len s = (r, s1) \<Longrightarrow> f (env s1) = f (env s)" "f (env (unmapRange K m s)) = f (env s)"
  using assms by (auto simp: mem_calls_keep_def mapRange_def unmapRange_def sys_mmap_def sys_munmap_def Let_def split_def
      split: if_splits option.splits)

lemma mem_buffers_keep:
  assumes "mem_calls_keep K f" and "mappable K fd addr len s"
  shows "f (env (snd (memReadBuffer K fd addr len buf s))) = f (env s)"
    "f (env (snd (memWriteBuffer K fd addr len buf s))) = f (env s)"
proof -
  from assms(2) obtain m s1 where m: "mapRange K fd addr len s = (Some m, s1)"
    by (metis mappable_def not_None_eq prod.collapse)
  note k = map_calls_keep [OF assms(1)] load_bytes_keeps [OF assms(1)] store_bytes_keeps [OF assms(1)]
  show "f (env (snd (memReadBuffer K fd addr len buf s))) = f (env s)"
    "f (env (snd (memWriteBuffer K fd addr len buf s))) = f (env s)"
    using k(1) [OF m] by (simp_all add: memReadBuffer_def memWriteBuffer_def m split_def Let_def k(2-4))
qed

lemma disk_calls:
  assumes "disk_calls_keep K path f"
  shows "f (env (snd (sys_open K path fl s))) = f (env s)" "f (env (snd (sys_pread K fd len off buf s))) = f (env s)"
    "f (env (snd (sys_pwrite K fd bs off s))) = f (env s)" "f (env (snd (sys_fsync K fd s))) = f (env s)"
    "f (env (sys_close K fd s)) = f (env s)"
  using assms by (simp_all add: disk_calls_keep_def sys_open_def sys_pread_def sys_pwrite_def sys_fsync_def sys_close_def
      split_def Let_def split: option.split)

lemma disk_buffers_keep:
  assumes "disk_calls_keep K path f"
  shows "f (env (snd (diskRead K (Some path) addr len buf s))) = f (env s)"
    "f (env (snd (diskWrite K (Some path) addr len buf s))) = f (env s)"
  using disk_calls [OF assms] by (simp_all add: diskRead_def diskWrite_def split_def Let_def)

lemma port_calls:
  assumes "port_calls_keep K f"
  shows "f (env (snd (sys_open K FDK_PORT_DEV O_RDWR s))) = f (env s)" "f (env (snd (sys_ioperm K port n on s))) = f (env s)"
    "f (env (sys_outb K v (bank_port b) s)) = f (env s)" "f (env (sys_outb K v (bank_port b + 1) s)) = f (env s)"
    "f (env (snd (sys_inb K (bank_port b + 1) s))) = f (env s)"
  using assms by (simp_all add: port_calls_keep_def sys_open_def sys_ioperm_def sys_outb_def sys_inb_def split_def Let_def)

lemma cmos_bytes_keeps:
  assumes "cmos_chip K nv ix" and "port_calls_keep K f" and "ph_fd h < 0"
  shows "f (env (snd (cmos_bytes K h off bs w s))) = f (env s)"
  by (induction bs arbitrary: off s)
    (simp_all add: portXfer_insn [OF assms(1,3)] cmos_idxPort_bank port_calls [OF assms(2)] split_def Let_def)

lemma cmos_buffers_keep:
  assumes "cmos_chip K nv ix" and "port_calls_keep K f"
  shows "f (env (snd (cmosRead K addr len buf s))) = f (env s)"
    "f (env (snd (cmosWrite K addr len buf s))) = f (env s)"
proof -
  have "f (env (snd (cmosAccess K addr len buf w s))) = f (env s)" for w
  proof -
    let ?n = "ucast (FDK_CMOS_EXT_DATA - FDK_CMOS_ADDR + 1) :: u32"
    let ?s1 = "snd (sys_ioperm K FDK_CMOS_ADDR ?n True (snd (sys_open K FDK_PORT_DEV O_RDWR s)))"
    have o: "portOpen K FDK_CMOS_ADDR ?n s =
        (Some \<lparr>ph_fd = - 1, ph_insn = True, ph_port = FDK_CMOS_ADDR, ph_len = ?n\<rparr>, ?s1)"
      using cmos_port_range chip_calls [OF assms(1)] by (simp add: portOpen_def split_def Let_def)
    show ?thesis
      using cmos_bytes_keeps [OF assms] port_calls [OF assms(2)]
      by (simp add: cmosAccess_def o portClose_def split_def Let_def)
  qed
  then show "f (env (snd (cmosRead K addr len buf s))) = f (env s)"
    "f (env (snd (cmosWrite K addr len buf s))) = f (env s)"
    by (simp_all add: cmosRead_def cmosWrite_def fill_on_error_def split_def Let_def)
qed

text \<open>
  A machine with the three: its memory can be mapped, it has a CMOS chip and a disk of \<open>bytes\<close> bytes,
  which is the one the server was given, and what is done to one of them leaves the others.
\<close>

definition three_devices ::
  "'w os \<Rightarrow> s32 \<Rightarrow> string option \<Rightarrow> ('w \<Rightarrow> u64 \<Rightarrow> u8) \<Rightarrow> ('w \<Rightarrow> nat \<Rightarrow> u8) \<Rightarrow> ('w \<Rightarrow> u64 \<Rightarrow> u8) \<Rightarrow> nat \<Rightarrow> bool" where
  "three_devices K memfd dev phys nv disk bytes \<longleftrightarrow>
     (\<exists>vm. mapped_machine K phys vm memfd) \<and> mem_calls_keep K (\<lambda>e. (nv e, disk e)) \<and>
     (\<exists>ix. cmos_chip K nv ix) \<and> port_calls_keep K (\<lambda>e. (phys e, disk e)) \<and>
     (\<exists>path opened. dev = Some path \<and> disk_device K path disk opened bytes \<and> disk_calls_keep K path (\<lambda>e. (phys e, nv e)))"

section \<open>A machine of the three\<close>

text \<open>A concrete one, which shows that the hypothesis can hold.\<close>

record bench =
  bn_mem :: "u64 \<Rightarrow> u8"
  bn_nv :: "nat \<Rightarrow> u8"
  bn_ix :: "bool \<Rightarrow> u8"
  bn_disk :: "u64 \<Rightarrow> u8"

definition bench_inb :: "u16 \<Rightarrow> bench \<Rightarrow> u8 \<times> bench" where
  "bench_inb port e =
     (if port = 0x71 then bn_nv e (cmos_cell False (bn_ix e False))
      else if port = 0x73 then bn_nv e (cmos_cell True (bn_ix e True)) else 255, e)"

definition bench_outb :: "u8 \<Rightarrow> u16 \<Rightarrow> bench \<Rightarrow> bench" where
  "bench_outb v port e =
     (if port = 0x70 then e\<lparr>bn_ix := (bn_ix e)(False := v)\<rparr>
      else if port = 0x72 then e\<lparr>bn_ix := (bn_ix e)(True := v)\<rparr>
      else if port = 0x71 then e\<lparr>bn_nv := (bn_nv e)(cmos_cell False (bn_ix e False) := v)\<rparr>
      else if port = 0x73 then e\<lparr>bn_nv := (bn_nv e)(cmos_cell True (bn_ix e True) := v)\<rparr>
      else e)"

definition bench_os :: "bench os" where
  "bench_os = \<lparr>os_page_size = 4096, os_port_insn = True,
     os_open = (\<lambda>path fl e. (if path = ''/dev/mem'' then 3 else if path = ''/dev/sda'' then 5 else - 1, e)),
     os_close = (\<lambda>fd e. e), os_pread = (\<lambda>fd len off e. (Some (phys_bytes (bn_disk e) off len), e)),
     os_pwrite = (\<lambda>fd bs off e. (int (length bs), e\<lparr>bn_disk := phys_store (bn_disk e) off bs\<rparr>)),
     os_fsync = (\<lambda>fd e. (0, e)), os_mmap = (\<lambda>fd len base e. (Some base, e)),
     os_munmap = (\<lambda>p len e. e), os_load = (\<lambda>w q e. (ucast (bn_mem e q), e)),
     os_store = (\<lambda>w q v e. e\<lparr>bn_mem := (bn_mem e)(q := ucast v)\<rparr>),
     os_ioperm = (\<lambda>port n on e. (0, e)), os_inb = bench_inb, os_outb = bench_outb,
     os_outl = (\<lambda>v port e. e), os_access = (\<lambda>path e. False), os_dir = (\<lambda>path e. None),
     os_file = (\<lambda>path e. None)\<rparr>"

definition bench_start :: "bench sys" where
  "bench_start = \<lparr>env = \<lparr>bn_mem = (\<lambda>a. ucast a), bn_nv = (\<lambda>i. word_of_nat i), bn_ix = (\<lambda>b. 0), bn_disk = (\<lambda>a. 0)\<rparr>, log = []\<rparr>"

lemma bench_three_devices: "three_devices bench_os 3 (Some ''/dev/sda'') bn_mem bn_nv bn_disk (2 ^ 64)"
proof -
  have "maps_memory bench_os bn_mem (\<lambda>e q. Some q)"
    unfolding maps_memory_def by (auto simp: bench_os_def intro!: exI [of _ 12])
  moreover have "mappable bench_os 3 a n s" if "0 < n" for a n s
    using that by (simp add: mappable_def mapRange_def bench_os_def Let_def sys_mmap_def word_gt_0)
  ultimately have m: "mapped_machine bench_os bn_mem (\<lambda>e q. Some q) 3" by (simp add: mapped_machine_def)
  have c: "cmos_chip bench_os bn_nv bn_ix"
    by (auto simp: cmos_chip_def bench_os_def bench_inb_def bench_outb_def FDK_PORT_DEV_def bank_port_def)
  have d: "disk_device bench_os ''/dev/sda'' bn_disk (\<lambda>e fd. True) (2 ^ 64)"
    by (auto simp: disk_device_def bench_os_def)
  have "mem_calls_keep bench_os (\<lambda>e. (bn_nv e, bn_disk e))" by (simp add: mem_calls_keep_def bench_os_def)
  moreover have "port_calls_keep bench_os (\<lambda>e. (bn_mem e, bn_disk e))"
    by (simp add: port_calls_keep_def bench_os_def bench_inb_def bench_outb_def)
  moreover have "disk_calls_keep bench_os ''/dev/sda'' (\<lambda>e. (bn_mem e, bn_nv e))" by (simp add: disk_calls_keep_def bench_os_def)
  ultimately show ?thesis using m c d unfolding three_devices_def by blast
qed

end
