(* ===== verification/Byte_Space.thy ===== *)
theory Byte_Space
  imports Cfdk_Session Device_Memory
begin

text \<open>
  The address spaces whose bytes the console can show and edit as they are, memory, disk and CMOS: the
  requests for them, the contract of a server of such spaces, and that the server is one, on a machine
  of which only the memory is known and on a machine with all three.
\<close>

section \<open>What a request is answered\<close>

context byte_reader
begin

lemma served_read:
  assumes p: "length p \<le> FDK_MAXSZ_PKT" "hdr_opCode (fresh_buffer p) = op_code op" "op \<noteq> FDK_REQ_DISCONNECT"
    and rq: "request_of K memfd dev op (length p) (fresh_buffer p) s =
      Some (answer_read rd a n rsp t f (fresh_buffer p) s)"
    and rd: "\<And>buf. length buf = unat n \<Longrightarrow> rd a n buf s = ((0, data), s')"
    and off: "8 \<le> offsetof t f" "offsetof t f + unat n \<le> FDK_MAXSZ_PKT"
  shows "\<exists>out. answer_packet K memfd dev p s = (FDKD_REPLY, out, s') \<and> length out = offsetof t f + unat n \<and>
    hdr_opCode out = op_code rsp \<and> hdr_errorCode out = FDK_SUCCESS \<and> bytes_at (offsetof t f) (unat n) out = data"
proof -
  let ?p = "fresh_buffer p" and ?off = "offsetof t f"
  let ?ans = "answer_read rd a n rsp t f ?p s" and ?fld = "bytes_at 8 (offsetof t f - 8) (fresh_buffer p)"
  have len: "length ?p = FDK_MAXSZ_PKT" by (rule length_fresh [OF p(1)])
  have reg: "length (bytes_at ?off (unat n) ?p) = unat n" using off len by simp
  note r = rd [OF reg]
  have ld: "length data = unat n" using rd_length [OF reg, of a s] r by simp
  have lf: "length ?fld = ?off - 8" using off len by simp
  have "answer_packet K memfd dev p s = (FDKD_REPLY, response (fst ?ans), s')"
    using p(2,3) by (simp add: answer_packet_def handle_packet_eq rq) (simp add: answer_read_def r Let_def)
  moreover have out: "response (fst ?ans) = hdr_bytes rsp FDK_SUCCESS (?off + unat n) @ ?fld @ data"
    using answer_read_response [OF len off, where op = rsp and a = a and s = s] by (simp add: r)
  moreover have "bytes_at ?off (unat n) (response (fst ?ans)) = data"
    unfolding out using lf ld off(1) by (simp add: bytes_at_append_skip bytes_at_def)
  ultimately show ?thesis
    using lf ld off(1) hdr_of_bytes by (intro exI [of _ "response (fst ?ans)"]) simp
qed

end

context byte_writer
begin

lemma served_write:
  assumes p: "length p \<le> FDK_MAXSZ_PKT" "hdr_opCode (fresh_buffer p) = op_code op" "op \<noteq> FDK_REQ_DISCONNECT"
    and rq: "request_of K memfd dev op (length p) (fresh_buffer p) s =
      Some (answer_write wr a n rsp rt t f (fresh_buffer p) s)"
    and wr: "wr a n (bytes_at (offsetof t f) (unat n) (fresh_buffer p)) s = (0, s')"
    and sz: "8 \<le> sizeof rt" "sizeof rt \<le> FDK_MAXSZ_PKT"
  shows "\<exists>out. answer_packet K memfd dev p s = (FDKD_REPLY, out, s') \<and>
    hdr_opCode out = op_code rsp \<and> hdr_errorCode out = FDK_SUCCESS"
proof -
  let ?out = "response (setResponse rsp (sizeof rt) True (fresh_buffer p))"
  have "answer_packet K memfd dev p s = (FDKD_REPLY, ?out, s')"
    using p(2,3) by (simp add: answer_packet_def handle_packet_eq rq) (simp add: answer_write_def wr)
  moreover have "?out = hdr_bytes rsp FDK_SUCCESS (sizeof rt) @ bytes_at 8 (sizeof rt - 8) (fresh_buffer p)"
    using response_setResponse [OF length_fresh [OF p(1)] sz, where op = rsp and ok = True] by simp
  ultimately show ?thesis using hdr_of_bytes by (intro exI [of _ ?out]) simp
qed

end

section \<open>The requests\<close>

text \<open>The views that are byte spaces.\<close>

definition byte_kinds :: "fdkHwFunc_t set" where
  "byte_kinds = {KHF_MEM, KHF_IDE, KHF_CMOS}"

definition read_op :: "fdkHwFunc_t \<Rightarrow> fdkOpCode_t" where
  "read_op hw = (case hw of KHF_IDE \<Rightarrow> FDK_REQ_IDE_READ | KHF_CMOS \<Rightarrow> FDK_REQ_CMOS_READ | _ \<Rightarrow> FDK_REQ_MEM_READ)"

definition write_op :: "fdkHwFunc_t \<Rightarrow> fdkOpCode_t" where
  "write_op hw = (case hw of KHF_IDE \<Rightarrow> FDK_REQ_IDE_WRITE | KHF_CMOS \<Rightarrow> FDK_REQ_CMOS_WRITE | _ \<Rightarrow> FDK_REQ_MEM_WRITE)"

text \<open>Where the bytes of a screen stand in the response.\<close>

definition screen_offset :: "fdkHwFunc_t \<Rightarrow> nat" where
  "screen_offset hw = (if hw = KHF_CMOS then 10 else 20)"

text \<open>The request for the screen at an address, and the one that stores a byte at an address.\<close>

definition space_read :: "fdkHwFunc_t \<Rightarrow> u64 \<Rightarrow> u8 list" where
  "space_read hw a = request_bytes (read_op hw) a FDK_BYTE_PER_SCREEN None"

definition space_write :: "fdkHwFunc_t \<Rightarrow> u64 \<Rightarrow> u8 \<Rightarrow> u8 list" where
  "space_write hw a b = request_bytes (write_op hw) a 1 (Some [b])"

lemma space_mem: "space_read KHF_MEM a = mem_read_request a FDK_BYTE_PER_SCREEN" "space_write KHF_MEM a b = mem_write_request a [b]"
  by (simp_all add: space_read_def space_write_def read_op_def write_op_def mem_read_request_def mem_write_request_def)

text \<open>What the server finds in the packet buffer.\<close>

lemma request_region:
  assumes "build_request op a n cnt (replicate FDK_MAXSZ_PKT 0) = Some (len, pkt)" and "len \<noteq> 0"
    and "\<forall>bs. cnt = Some bs \<longrightarrow> length bs = unat n"
  shows "length (request_bytes op a n cnt) = len" "len \<le> FDK_MAXSZ_PKT"
    "hdr_opCode (fresh_buffer (request_bytes op a n cnt)) = op_code op"
    "8 \<le> p \<Longrightarrow> p + k \<le> len \<Longrightarrow> bytes_at p k (fresh_buffer (request_bytes op a n cnt)) = bytes_at p k pkt"
proof -
  note r = request_bytes_ok [OF assms]
  show l: "length (request_bytes op a n cnt) = len" by (rule r(2))
  have ok: "8 \<le> length (request_bytes op a n cnt)" "length (request_bytes op a n cnt) \<le> FDK_MAXSZ_PKT"
    using r(1) by (simp_all add: packet_ok_def)
  then show "len \<le> FDK_MAXSZ_PKT" using l by simp
  show "hdr_opCode (fresh_buffer (request_bytes op a n cnt)) = op_code op" using r(3) ok by (simp add: hdr_opCode_fresh)
  show "8 \<le> p \<Longrightarrow> p + k \<le> len \<Longrightarrow> bytes_at p k (fresh_buffer (request_bytes op a n cnt)) = bytes_at p k pkt"
    using r(4) l by (simp add: bytes_at_fresh)
qed

lemma build_spaces:
  "build_request FDK_REQ_IDE_READ a n None pkt = Some (20, put32 16 n (put64 8 a pkt))"
  "build_request FDK_REQ_IDE_WRITE a 1 (Some [b]) pkt = Some (21, blit 20 [b] (put32 16 1 (put64 8 a pkt)))"
  "build_request FDK_REQ_CMOS_READ a n None pkt = Some (10, put8 9 (ucast n) (put8 8 (ucast a) pkt))"
  "build_request FDK_REQ_CMOS_WRITE a 1 (Some [b]) pkt = Some (11, blit 10 [b] (put8 9 1 (put8 8 (ucast a) pkt)))"
  by (simp_all add: build_request_def layout fillPayload_def)

lemma disk_request_fields:
  "length (space_read KHF_IDE a) = 20" "hdr_opCode (fresh_buffer (space_read KHF_IDE a)) = op_code FDK_REQ_IDE_READ"
  "get64 8 (fresh_buffer (space_read KHF_IDE a)) = a" "get32 16 (fresh_buffer (space_read KHF_IDE a)) = FDK_BYTE_PER_SCREEN"
  "length (space_write KHF_IDE a b) = 21" "hdr_opCode (fresh_buffer (space_write KHF_IDE a b)) = op_code FDK_REQ_IDE_WRITE"
  "get64 8 (fresh_buffer (space_write KHF_IDE a b)) = a" "get32 16 (fresh_buffer (space_write KHF_IDE a b)) = 1"
  "bytes_at 20 1 (fresh_buffer (space_write KHF_IDE a b)) = [b]"
proof -
  have op: "space_read KHF_IDE a = request_bytes FDK_REQ_IDE_READ a FDK_BYTE_PER_SCREEN None"
    "space_write KHF_IDE a b = request_bytes FDK_REQ_IDE_WRITE a 1 (Some [b])"
    by (simp_all add: space_read_def space_write_def read_op_def write_op_def)
  note r = request_region [OF build_spaces(1) [of a FDK_BYTE_PER_SCREEN], folded op, simplified]
  note w = request_region [OF build_spaces(2) [of a b], folded op, simplified]
  let ?r = "put32 16 FDK_BYTE_PER_SCREEN (put64 8 a (replicate 8192 0))"
  let ?w = "blit 20 [b] (put32 16 1 (put64 8 a (replicate 8192 0)))"
  show "length (space_read KHF_IDE a) = 20" "hdr_opCode (fresh_buffer (space_read KHF_IDE a)) = op_code FDK_REQ_IDE_READ"
    "length (space_write KHF_IDE a b) = 21" "hdr_opCode (fresh_buffer (space_write KHF_IDE a b)) = op_code FDK_REQ_IDE_WRITE"
    using r(1,3) w(1,3) by simp_all
  show "get64 8 (fresh_buffer (space_read KHF_IDE a)) = a"
    using r(4) [of 8 8] by (subst get_of_bytes_at(2) [where ys = ?r]) (simp_all add: put_defs buf_simps)
  show "get32 16 (fresh_buffer (space_read KHF_IDE a)) = FDK_BYTE_PER_SCREEN"
    using r(4) [of 16 4] by (subst get_of_bytes_at(1) [where ys = ?r]) (simp_all add: put_defs buf_simps)
  show "get64 8 (fresh_buffer (space_write KHF_IDE a b)) = a"
    using w(4) [of 8 8] by (subst get_of_bytes_at(2) [where ys = ?w]) (simp_all add: put_defs buf_simps)
  show "get32 16 (fresh_buffer (space_write KHF_IDE a b)) = 1"
    using w(4) [of 16 4] by (simp add: get_defs put_defs buf_simps le_nat_le_bytes)
  show "bytes_at 20 1 (fresh_buffer (space_write KHF_IDE a b)) = [b]"
    using w(4) [of 20 1] by (simp add: put_defs buf_simps)
qed

lemma cmos_request_fields:
  "length (space_read KHF_CMOS a) = 10" "hdr_opCode (fresh_buffer (space_read KHF_CMOS a)) = op_code FDK_REQ_CMOS_READ"
  "get8 8 (fresh_buffer (space_read KHF_CMOS a)) = ucast a" "get8 9 (fresh_buffer (space_read KHF_CMOS a)) = 0"
  "length (space_write KHF_CMOS a b) = 11" "hdr_opCode (fresh_buffer (space_write KHF_CMOS a b)) = op_code FDK_REQ_CMOS_WRITE"
  "get8 8 (fresh_buffer (space_write KHF_CMOS a b)) = ucast a" "get8 9 (fresh_buffer (space_write KHF_CMOS a b)) = 1"
  "bytes_at 10 1 (fresh_buffer (space_write KHF_CMOS a b)) = [b]"
proof -
  have op: "space_read KHF_CMOS a = request_bytes FDK_REQ_CMOS_READ a FDK_BYTE_PER_SCREEN None"
    "space_write KHF_CMOS a b = request_bytes FDK_REQ_CMOS_WRITE a 1 (Some [b])"
    by (simp_all add: space_read_def space_write_def read_op_def write_op_def)
  note r = request_region [OF build_spaces(3) [of a FDK_BYTE_PER_SCREEN], folded op, simplified]
  note w = request_region [OF build_spaces(4) [of a b], folded op, simplified]
  show "length (space_read KHF_CMOS a) = 10" "hdr_opCode (fresh_buffer (space_read KHF_CMOS a)) = op_code FDK_REQ_CMOS_READ"
    "length (space_write KHF_CMOS a b) = 11" "hdr_opCode (fresh_buffer (space_write KHF_CMOS a b)) = op_code FDK_REQ_CMOS_WRITE"
    using r(1,3) w(1,3) by simp_all
  show "get8 8 (fresh_buffer (space_read KHF_CMOS a)) = ucast a"
    using r(4) [of 8 1] by (simp add: get_defs put_defs buf_simps)
  show "get8 9 (fresh_buffer (space_read KHF_CMOS a)) = 0"
    using r(4) [of 9 1] by (simp add: get_defs put_defs buf_simps FDK_BYTE_PER_SCREEN_def)
  show "get8 8 (fresh_buffer (space_write KHF_CMOS a b)) = ucast a"
    using w(4) [of 8 1] by (simp add: get_defs put_defs buf_simps)
  show "get8 9 (fresh_buffer (space_write KHF_CMOS a b)) = 1"
    using w(4) [of 9 1] by (simp add: get_defs put_defs buf_simps)
  show "bytes_at 10 1 (fresh_buffer (space_write KHF_CMOS a b)) = [b]"
    using w(4) [of 10 1] by (simp add: put_defs buf_simps)
qed

section \<open>The answers\<close>

definition screen_answer :: "fdkHwFunc_t \<Rightarrow> u8 list \<Rightarrow> u8 list \<Rightarrow> bool" where
  "screen_answer hw out data \<longleftrightarrow> length out = screen_offset hw + 256 \<and> hdr_opCode out = op_code (rsp_of (read_op hw)) \<and>
     hdr_errorCode out = FDK_SUCCESS \<and> bytes_at (screen_offset hw) 256 out = data"

definition byte_answer :: "fdkHwFunc_t \<Rightarrow> u8 list \<Rightarrow> bool" where
  "byte_answer hw out \<longleftrightarrow> hdr_opCode out = op_code (rsp_of (write_op hw)) \<and> hdr_errorCode out = FDK_SUCCESS"

text \<open>Of memory.\<close>

lemma mem_screen:
  assumes "mapped_machine K phys vm memfd" and "mem_calls_keep K f"
  shows "\<exists>out s'. answer_packet K memfd dev (space_read KHF_MEM a) s = (FDKD_REPLY, out, s') \<and>
    screen_answer KHF_MEM out (phys_bytes (phys (env s)) a 256) \<and> phys (env s') = phys (env s) \<and> f (env s') = f (env s)"
proof -
  let ?n = "FDK_BYTE_PER_SCREEN" and ?r = "memReadBuffer K memfd a FDK_BYTE_PER_SCREEN"
  have n: "unat ?n = 256" by (simp add: FDK_BYTE_PER_SCREEN_def)
  have m: "maps_memory K phys vm" "mappable K memfd a ?n s"
    using assms(1) by (simp_all add: mapped_machine_def FDK_BYTE_PER_SCREEN_def)
  let ?s' = "snd (?r (replicate 256 0) s)"
  have rd: "?r buf s = ((0, phys_bytes (phys (env s)) a 256), ?s')" if "length buf = unat ?n" for buf
    using memReadBuffer_reads [OF m that] mem_reader.rd_fresh [OF that, of "replicate 256 0" K memfd a s]
    by (simp add: n prod_eq_iff)
  have s': "phys (env ?s') = phys (env s)" "f (env ?s') = f (env s)"
    using memReadBuffer_reads [OF m, of "replicate 256 0"] mem_buffers_keep(1) [OF assms(2) m(2)] by (simp_all add: n)
  have rq: "request_of K memfd dev FDK_REQ_MEM_READ (length (mem_read_request a ?n)) (fresh_buffer (mem_read_request a ?n)) s =
      Some (answer_read (memReadBuffer K memfd) a ?n FDK_RSP_MEM_READ fdkRspMemReadPkt_t ''memContent''
        (fresh_buffer (mem_read_request a ?n)) s)"
    by (simp add: request_of_def req_mem_read_def mem_read_fields layout wire_sizes n Let_def)
  obtain out where "answer_packet K memfd dev (mem_read_request a ?n) s = (FDKD_REPLY, out, ?s')"
    "length out = 276" "hdr_opCode out = op_code FDK_RSP_MEM_READ" "hdr_errorCode out = FDK_SUCCESS"
    "bytes_at 20 256 out = phys_bytes (phys (env s)) a 256"
    using mem_reader.served_read [OF _ mem_read_fields(3) _ rq rd] by (auto simp: mem_read_fields layout n)
  then show ?thesis
    using s' unfolding space_mem screen_answer_def screen_offset_def read_op_def rsp_of_def by auto
qed

lemma mem_byte:
  assumes "mapped_machine K phys vm memfd" and "mem_calls_keep K f"
  shows "\<exists>out s'. answer_packet K memfd dev (space_write KHF_MEM a b) s = (FDKD_REPLY, out, s') \<and>
    byte_answer KHF_MEM out \<and> phys (env s') = (phys (env s))(a := b) \<and> f (env s') = f (env s)"
proof -
  have m: "maps_memory K phys vm" "mappable K memfd a 1 s" using assms(1) by (simp_all add: mapped_machine_def)
  have bs: "0 < length [b]" "length [b] \<le> 8172" by simp_all
  note fl = mem_write_fields [OF bs, of a, simplified]
  let ?s' = "snd (memWriteBuffer K memfd a 1 [b] s)"
  have wr: "memWriteBuffer K memfd a 1 [b] s = (0, ?s')" "phys (env ?s') = (phys (env s))(a := b)"
    using memWriteBuffer_phys [OF m, of "[b]"] by (simp_all add: prod_eq_iff)
  have rq: "request_of K memfd dev FDK_REQ_MEM_WRITE (length (mem_write_request a [b])) (fresh_buffer (mem_write_request a [b])) s =
      Some (answer_write (memWriteBuffer K memfd) a 1 FDK_RSP_MEM_WRITE fdkRspMemWritePkt_t fdkReqMemWritePkt_t ''memContent''
        (fresh_buffer (mem_write_request a [b])) s)"
    by (simp add: request_of_def req_mem_write_def fl layout wire_sizes Let_def)
  have wr': "memWriteBuffer K memfd a 1 (bytes_at (offsetof fdkReqMemWritePkt_t ''memContent'') (unat (1 :: u32))
      (fresh_buffer (mem_write_request a [b]))) s = (0, ?s')"
    using fl wr(1) by (simp add: layout)
  obtain out where "answer_packet K memfd dev (mem_write_request a [b]) s = (FDKD_REPLY, out, ?s')"
    "hdr_opCode out = op_code FDK_RSP_MEM_WRITE" "hdr_errorCode out = FDK_SUCCESS"
    using mem_writer.served_write [OF _ fl(3) _ rq wr'] by (auto simp: fl layout)
  then show ?thesis
    using wr(2) mem_buffers_keep(2) [OF assms(2) m(2), of "[b]"]
    unfolding space_mem byte_answer_def write_op_def rsp_of_def by auto
qed

text \<open>Of the disk.\<close>

lemma disk_screen:
  assumes "disk_device K path disk opened bytes" and "disk_calls_keep K path f" and "unat a + 256 \<le> bytes"
  shows "\<exists>out s'. answer_packet K memfd (Some path) (space_read KHF_IDE a) s = (FDKD_REPLY, out, s') \<and>
    screen_answer KHF_IDE out (phys_bytes (disk (env s)) a 256) \<and> disk (env s') = disk (env s) \<and> f (env s') = f (env s)"
proof -
  let ?n = "FDK_BYTE_PER_SCREEN" and ?r = "diskRead K (Some path) a FDK_BYTE_PER_SCREEN"
  have n: "unat ?n = 256" by (simp add: FDK_BYTE_PER_SCREEN_def)
  have len: "length (replicate 256 (0 :: u8)) = unat ?n" by (simp add: n)
  obtain s' where s': "?r (replicate 256 0) s = ((0, phys_bytes (disk (env s)) a 256), s')" "disk (env s') = disk (env s)"
    using diskRead_device [OF assms(1) _ _ len, of a s] assms(3) by (auto simp: n)
  have rd: "?r buf s = ((0, phys_bytes (disk (env s)) a 256), s')" if "length buf = unat ?n" for buf
    using s'(1) disk_reader.rd_fresh [OF that len, of K "Some path" a s] by simp
  have rq: "request_of K memfd (Some path) FDK_REQ_IDE_READ (length (space_read KHF_IDE a)) (fresh_buffer (space_read KHF_IDE a)) s =
      Some (answer_read (diskRead K (Some path)) a ?n FDK_RSP_IDE_READ fdkRspIdeReadPkt_t ''ideContent''
        (fresh_buffer (space_read KHF_IDE a)) s)"
    by (simp add: request_of_def req_ide_read_def disk_request_fields layout wire_sizes n Let_def)
  obtain out where "answer_packet K memfd (Some path) (space_read KHF_IDE a) s = (FDKD_REPLY, out, s')"
    "length out = 276" "hdr_opCode out = op_code FDK_RSP_IDE_READ" "hdr_errorCode out = FDK_SUCCESS"
    "bytes_at 20 256 out = phys_bytes (disk (env s)) a 256"
    using disk_reader.served_read [OF _ disk_request_fields(2) _ rq rd] by (auto simp: disk_request_fields layout n)
  then show ?thesis
    using s' disk_buffers_keep(1) [OF assms(2), of a ?n "replicate 256 0" s]
    unfolding screen_answer_def screen_offset_def read_op_def rsp_of_def by auto
qed

lemma disk_byte:
  assumes "disk_device K path disk opened bytes" and "disk_calls_keep K path f" and "unat a < bytes"
  shows "\<exists>out s'. answer_packet K memfd (Some path) (space_write KHF_IDE a b) s = (FDKD_REPLY, out, s') \<and>
    byte_answer KHF_IDE out \<and> disk (env s') = (disk (env s))(a := b) \<and> f (env s') = f (env s)"
proof -
  have len: "length [b] = unat (1 :: u32)" by simp
  obtain s' where wr: "diskWrite K (Some path) a 1 [b] s = (0, s')" "disk (env s') = (disk (env s))(a := b)"
    using diskWrite_device [OF assms(1) _ _ len, of a s] assms(3) by auto
  have rq: "request_of K memfd (Some path) FDK_REQ_IDE_WRITE (length (space_write KHF_IDE a b)) (fresh_buffer (space_write KHF_IDE a b)) s =
      Some (answer_write (diskWrite K (Some path)) a 1 FDK_RSP_IDE_WRITE fdkRspIdeWritePkt_t fdkReqIdeWritePkt_t ''ideContent''
        (fresh_buffer (space_write KHF_IDE a b)) s)"
    by (simp add: request_of_def req_ide_write_def disk_request_fields layout wire_sizes Let_def)
  have wr': "diskWrite K (Some path) a 1 (bytes_at (offsetof fdkReqIdeWritePkt_t ''ideContent'') (unat (1 :: u32))
      (fresh_buffer (space_write KHF_IDE a b))) s = (0, s')"
    using disk_request_fields(9) [of a b] wr(1) by (simp add: layout)
  obtain out where "answer_packet K memfd (Some path) (space_write KHF_IDE a b) s = (FDKD_REPLY, out, s')"
    "hdr_opCode out = op_code FDK_RSP_IDE_WRITE" "hdr_errorCode out = FDK_SUCCESS"
    using disk_writer.served_write [OF _ disk_request_fields(6) _ rq wr'] by (auto simp: disk_request_fields layout)
  then show ?thesis
    using wr disk_buffers_keep(2) [OF assms(2), of a 1 "[b]" s]
    unfolding byte_answer_def write_op_def rsp_of_def by auto
qed

text \<open>Of the CMOS chip, whose 256 bytes are one screen.\<close>

lemma cmos_screen:
  assumes "cmos_chip K nv ix" and "port_calls_keep K f"
  shows "\<exists>out s'. answer_packet K memfd dev (space_read KHF_CMOS 0) s = (FDKD_REPLY, out, s') \<and>
    screen_answer KHF_CMOS out (map (nv (env s)) [0..<256]) \<and> nv (env s') = nv (env s) \<and> f (env s') = f (env s)"
proof -
  have n: "unat FDK_CMOS_SIZE = 256" by (simp add: cmos_consts)
  have len: "length (replicate 256 (0 :: u8)) = unat FDK_CMOS_SIZE" by (simp add: n)
  obtain s' where s': "cmosRead K 0 FDK_CMOS_SIZE (replicate 256 0) s = ((0, map (nv (env s)) [0..<256]), s')" "nv (env s') = nv (env s)"
    using cmosRead_chip [OF assms(1) _ len, of 0 s] by (auto simp: n)
  have rd: "cmosRead K 0 FDK_CMOS_SIZE buf s = ((0, map (nv (env s)) [0..<256]), s')" if "length buf = unat FDK_CMOS_SIZE" for buf
    using s'(1) cmos_reader.rd_fresh [OF that len, of K 0 s] by simp
  have rq: "request_of K memfd dev FDK_REQ_CMOS_READ (length (space_read KHF_CMOS 0)) (fresh_buffer (space_read KHF_CMOS 0)) s =
      Some (answer_read (cmosRead K) 0 FDK_CMOS_SIZE FDK_RSP_CMOS_READ fdkRspCmosReadPkt_t ''cmosContent''
        (fresh_buffer (space_read KHF_CMOS 0)) s)"
    by (simp add: request_of_def req_cmos_read_def cmos_request_fields layout wire_sizes CMOS_REQ_SIZE_def Let_def)
  obtain out where "answer_packet K memfd dev (space_read KHF_CMOS 0) s = (FDKD_REPLY, out, s')"
    "length out = 266" "hdr_opCode out = op_code FDK_RSP_CMOS_READ" "hdr_errorCode out = FDK_SUCCESS"
    "bytes_at 10 256 out = map (nv (env s)) [0..<256]"
    using cmos_reader.served_read [OF _ cmos_request_fields(2) _ rq rd] by (auto simp: cmos_request_fields layout n)
  then show ?thesis
    using s' cmos_buffers_keep(1) [OF assms, of 0 FDK_CMOS_SIZE "replicate 256 0" s]
    unfolding screen_answer_def screen_offset_def read_op_def rsp_of_def by auto
qed

lemma cmos_byte:
  assumes "cmos_chip K nv ix" and "port_calls_keep K f" and "unat a < 256"
  shows "\<exists>out s'. answer_packet K memfd dev (space_write KHF_CMOS a b) s = (FDKD_REPLY, out, s') \<and>
    byte_answer KHF_CMOS out \<and> nv (env s') = (nv (env s))(unat a := b) \<and> f (env s') = f (env s)"
proof -
  let ?a = "ucast a :: u8"
  have ua: "unat ?a = unat a" using assms(3) by (simp add: unsigned_ucast_eq take_bit_nat_eq_self_iff)
  have uu: "ucast (ucast x :: u64) = x" for x :: u8
    by (rule bit_word_eqI) (simp add: bit_ucast_iff)
  have len: "length [b] = unat (1 :: u32)" by simp
  obtain s' where wr: "cmosWrite K ?a 1 [b] s = (0, s')" "nv (env s') = (nv (env s))(unat a := b)"
    using cmosWrite_chip [OF assms(1) _ len, of ?a s] assms(3) by (auto simp: ua)
  have rq: "request_of K memfd dev FDK_REQ_CMOS_WRITE (length (space_write KHF_CMOS a b)) (fresh_buffer (space_write KHF_CMOS a b)) s =
      Some (answer_write (cmosWrite K) ?a 1 FDK_RSP_CMOS_WRITE fdkRspCmosWritePkt_t fdkReqCmosWritePkt_t ''cmosContent''
        (fresh_buffer (space_write KHF_CMOS a b)) s)"
    by (simp add: request_of_def req_cmos_write_def cmos_request_fields layout wire_sizes CMOS_REQ_SIZE_def uu Let_def)
  have wr': "cmosWrite K ?a 1 (bytes_at (offsetof fdkReqCmosWritePkt_t ''cmosContent'') (unat (1 :: u32))
      (fresh_buffer (space_write KHF_CMOS a b))) s = (0, s')"
    using cmos_request_fields(9) [of a b] wr(1) by (simp add: layout)
  obtain out where "answer_packet K memfd dev (space_write KHF_CMOS a b) s = (FDKD_REPLY, out, s')"
    "hdr_opCode out = op_code FDK_RSP_CMOS_WRITE" "hdr_errorCode out = FDK_SUCCESS"
    using cmos_writer.served_write [OF _ cmos_request_fields(6) _ rq wr'] by (auto simp: cmos_request_fields layout)
  then show ?thesis
    using wr cmos_buffers_keep(2) [OF assms(1,2), of ?a 1 "[b]" s]
    unfolding byte_answer_def write_op_def rsp_of_def by auto
qed

section \<open>The contract of a server of byte spaces\<close>

text \<open>
  The server holds the bytes of \<open>spaces\<close>: \<open>holds e hw\<close> are those of \<open>hw\<close> in the environment \<open>e\<close>, and
  \<open>valid hw a\<close> says that a screen can be shown at \<open>a\<close>. It answers the request for a screen with the bytes
  there, and the request to store a byte on a screen by changing that byte and no other, of any space.
  \<open>works\<close> is the hypothesis on the machine.
\<close>

locale byte_spaces =
  fixes K :: "'w os" and memfd :: s32 and dev :: "string option" and spaces :: "fdkHwFunc_t set"
    and works :: bool and holds :: "'w \<Rightarrow> fdkHwFunc_t \<Rightarrow> u64 \<Rightarrow> u8" and valid :: "fdkHwFunc_t \<Rightarrow> u64 \<Rightarrow> bool"
  assumes kinds: "spaces \<subseteq> byte_kinds"
    and screen_law: "works \<Longrightarrow> hw \<in> spaces \<Longrightarrow> valid hw a \<Longrightarrow>
      \<exists>out s'. answer_packet K memfd dev (space_read hw a) s = (FDKD_REPLY, out, s') \<and>
        screen_answer hw out (phys_bytes (holds (env s) hw) a 256) \<and> holds (env s') = holds (env s)"
    and byte_law: "works \<Longrightarrow> hw \<in> spaces \<Longrightarrow> valid hw a \<Longrightarrow> i < 256 \<Longrightarrow>
      \<exists>out s'. answer_packet K memfd dev (space_write hw (a + word_of_nat i) b) s = (FDKD_REPLY, out, s') \<and>
        byte_answer hw out \<and>
        holds (env s') = (holds (env s))(hw := (holds (env s) hw)(a + word_of_nat i := b))"

text \<open>A machine of which only the memory is known.\<close>

definition memory_only :: "('w \<Rightarrow> u64 \<Rightarrow> u8) \<Rightarrow> 'w \<Rightarrow> fdkHwFunc_t \<Rightarrow> u64 \<Rightarrow> u8" where
  "memory_only phys e = (\<lambda>_ _. 0)(KHF_MEM := phys e)"

interpretation mem_space: byte_spaces K memfd dev "{KHF_MEM}" "mapped_machine K phys vm memfd" "memory_only phys" "\<lambda>_ _. True"
  for K memfd dev phys vm
proof
  have keep: "mem_calls_keep K (\<lambda>_. ())" by (simp add: mem_calls_keep_def)
  fix hw a and s :: "'a sys" and b :: u8 and i :: nat
  assume m: "mapped_machine K phys vm memfd" and hw: "hw \<in> {KHF_MEM}"
  show "\<exists>out s'. answer_packet K memfd dev (space_read hw a) s = (FDKD_REPLY, out, s') \<and>
      screen_answer hw out (phys_bytes (memory_only phys (env s) hw) a 256) \<and> memory_only phys (env s') = memory_only phys (env s)"
    using mem_screen [OF m keep, of dev a s] hw by (auto simp: memory_only_def)
  show "\<exists>out s'. answer_packet K memfd dev (space_write hw (a + word_of_nat i) b) s = (FDKD_REPLY, out, s') \<and> byte_answer hw out \<and>
      memory_only phys (env s') = (memory_only phys (env s))(hw := (memory_only phys (env s) hw)(a + word_of_nat i := b))"
    using mem_byte [OF m keep, of dev "a + word_of_nat i" b s] hw by (auto simp: memory_only_def)
qed (simp add: byte_kinds_def)

text \<open>A machine with memory, disk and CMOS.\<close>

definition device_bytes ::
  "('w \<Rightarrow> u64 \<Rightarrow> u8) \<Rightarrow> ('w \<Rightarrow> nat \<Rightarrow> u8) \<Rightarrow> ('w \<Rightarrow> u64 \<Rightarrow> u8) \<Rightarrow> 'w \<Rightarrow> fdkHwFunc_t \<Rightarrow> u64 \<Rightarrow> u8" where
  "device_bytes phys nv disk e = (\<lambda>_ _. 0)(KHF_MEM := phys e, KHF_IDE := disk e, KHF_CMOS := (\<lambda>a. nv e (unat a)))"

definition device_valid :: "nat \<Rightarrow> fdkHwFunc_t \<Rightarrow> u64 \<Rightarrow> bool" where
  "device_valid bytes hw a \<longleftrightarrow> (case hw of KHF_IDE \<Rightarrow> unat a + 256 \<le> bytes | KHF_CMOS \<Rightarrow> a = 0 | _ \<Rightarrow> True)"

interpretation device_space: byte_spaces K memfd dev byte_kinds "three_devices K memfd dev phys nv disk bytes"
  "device_bytes phys nv disk" "device_valid bytes"
  for K memfd dev phys nv disk bytes
proof
  fix hw a and s :: "'a sys" and b :: u8 and i :: nat
  assume t: "three_devices K memfd dev phys nv disk bytes" and hw: "hw \<in> byte_kinds"
    and v: "device_valid bytes hw a"
  obtain vm ix path opened where m: "mapped_machine K phys vm memfd" and mk: "mem_calls_keep K (\<lambda>e. (nv e, disk e))"
    and c: "cmos_chip K nv ix" and ck: "port_calls_keep K (\<lambda>e. (phys e, disk e))"
    and dv: "dev = Some path" and d: "disk_device K path disk opened bytes" and dk: "disk_calls_keep K path (\<lambda>e. (phys e, nv e))"
    using t by (auto simp: three_devices_def)
  have nv: "map (nv (env s)) [0..<256] = phys_bytes (\<lambda>a. nv (env s) (unat a)) 0 256"
    by (simp add: phys_bytes_def unat_of_nat take_bit_nat_eq_self)
  show "\<exists>out s'. answer_packet K memfd dev (space_read hw a) s = (FDKD_REPLY, out, s') \<and>
      screen_answer hw out (phys_bytes (device_bytes phys nv disk (env s) hw) a 256) \<and>
      device_bytes phys nv disk (env s') = device_bytes phys nv disk (env s)"
    using hw mem_screen [OF m mk, of dev a s] disk_screen [OF d dk, of a memfd s] cmos_screen [OF c ck, of memfd dev s] v
    unfolding nv by (auto simp: byte_kinds_def device_bytes_def device_valid_def dv)
  assume i: "i < 256"
  have ui: "unat (word_of_nat i :: u64) = i" using i by (simp add: unat_of_nat take_bit_nat_eq_self)
  have "unat (a + word_of_nat i) \<le> unat a + i" by (simp add: unat_word_ariths ui)
  then have ua: "unat a + 256 \<le> bytes \<Longrightarrow> unat (a + word_of_nat i) < bytes" using i by simp
  have upd: "(\<lambda>a :: u64. (g (j := b)) (unat a)) = (\<lambda>a. g (unat a))(word_of_nat j := b)" if "j < 256" for g :: "nat \<Rightarrow> u8" and j
    using that by (auto simp: fun_eq_iff unat_of_nat take_bit_nat_eq_self)
  show "\<exists>out s'. answer_packet K memfd dev (space_write hw (a + word_of_nat i) b) s = (FDKD_REPLY, out, s') \<and> byte_answer hw out \<and>
      device_bytes phys nv disk (env s') =
        (device_bytes phys nv disk (env s))(hw := (device_bytes phys nv disk (env s) hw)(a + word_of_nat i := b))"
  proof -
    consider "hw = KHF_MEM" | "hw = KHF_IDE" | "hw = KHF_CMOS" using hw by (auto simp: byte_kinds_def)
    then show ?thesis
    proof cases
      case 1
      then show ?thesis
        using mem_byte [OF m mk, of dev "a + word_of_nat i" b s] by (auto simp: device_bytes_def fun_upd_twist)
    next
      case 2
      then have "unat (a + word_of_nat i) < bytes" using v ua by (simp add: device_valid_def)
      from disk_byte [OF d dk this, of memfd b s] 2 show ?thesis
        by (auto simp: device_bytes_def dv fun_upd_twist)
    next
      case 3
      then have "a = 0" using v by (simp add: device_valid_def)
      moreover have "unat (word_of_nat i :: u64) < 256" using i ui by simp
      from cmos_byte [OF c ck this, of memfd dev b s]
      obtain out s' where "answer_packet K memfd dev (space_write KHF_CMOS (word_of_nat i) b) s = (FDKD_REPLY, out, s')"
        "byte_answer KHF_CMOS out" "nv (env s') = (nv (env s))(i := b)" "phys (env s') = phys (env s)" "disk (env s') = disk (env s)"
        by (auto simp: ui)
      ultimately show ?thesis
        using 3 upd [OF i] by (intro exI [of _ out] exI [of _ s']) (auto simp: device_bytes_def)
    qed
  qed
qed (simp add: byte_kinds_def)

end
