(* ===== verification/Cfdk_Editor.thy ===== *)
theory Cfdk_Editor
  imports Cfdk_Text Byte_Space
begin

text \<open>
  The memory, disk and CMOS views of the console as a whole, from the keys to the bytes of the devices: a
  specification that knows only a view, an address, a cursor and the bytes of the target, and the proof
  that the console, its packets, the server and the back-ends together implement it. The proof knows
  the server by the contract \<open>byte_spaces\<close>.
\<close>

section \<open>The specification\<close>

text \<open>
  An editor over byte spaces: the space shown, the first address of the screen, the line and column of
  the cursor on a screen of 16 lines of 16 bytes, the byte being edited, and the bytes of the spaces.
\<close>

record editor =
  ed_hw :: fdkHwFunc_t
  ed_base :: u64
  ed_row :: nat
  ed_col :: nat
  ed_editing :: bool
  ed_buf :: u8
  ed_data :: "fdkHwFunc_t \<Rightarrow> u64 \<Rightarrow> u8"

definition ed_addr :: "editor \<Rightarrow> u64" where
  "ed_addr ed = ed_base ed + word_of_nat (16 * ed_row ed + ed_col ed)"

definition type_digit :: "u8 \<Rightarrow> u8 \<Rightarrow> u8" where
  "type_digit k b =
     (case digit_val (char_of (unat k)) of None \<Rightarrow> b | Some d \<Rightarrow> word_of_nat (16 * (unat b mod 16) + d))"

text \<open>Pages of 256 bytes. Memory wraps around, the disk starts at 0 and CMOS has one page.\<close>

definition ed_page :: "fdkHwFunc_t \<Rightarrow> bool \<Rightarrow> u64 \<Rightarrow> u64" where
  "ed_page hw down a =
     (if hw = KHF_CMOS then a else if down then a + 256 else if hw = KHF_IDE \<and> a < 256 then a else a - 256)"

text \<open>The keys that select a space.\<close>

definition space_key :: "fdkHwFunc_t \<Rightarrow> key" where
  "space_key hw = (case hw of KHF_IDE \<Rightarrow> KEY_F 6 | KHF_CMOS \<Rightarrow> KEY_F 7 | _ \<Rightarrow> KEY_F 5)"

definition ed_selects :: "key \<Rightarrow> fdkHwFunc_t option" where
  "ed_selects key =
     (if key = KEY_F 5 then Some KHF_MEM else if key = KEY_F 6 then Some KHF_IDE
      else if key = KEY_F 7 then Some KHF_CMOS else None)"

lemma ed_selects_none [simp]:
  "ed_selects KEY_UP = None" "ed_selects KEY_DOWN = None" "ed_selects KEY_LEFT = None" "ed_selects KEY_RIGHT = None"
  "ed_selects KEY_PPAGE = None" "ed_selects KEY_NPAGE = None" "ed_selects ERR = None" "ed_selects Key_other = None"
  "ed_selects (Key_char k) = None"
  by (simp_all add: ed_selects_def)

text \<open>A space is opened at its start.\<close>

definition ed_open :: "fdkHwFunc_t \<Rightarrow> u8 \<Rightarrow> (fdkHwFunc_t \<Rightarrow> u64 \<Rightarrow> u8) \<Rightarrow> editor" where
  "ed_open hw b m = \<lparr>ed_hw = hw, ed_base = 0, ed_row = 0, ed_col = 0, ed_editing = False, ed_buf = b, ed_data = m\<rparr>"

lemma ed_open_fields [simp]:
  "ed_hw (ed_open hw b m) = hw" "ed_base (ed_open hw b m) = 0" "ed_row (ed_open hw b m) = 0" "ed_col (ed_open hw b m) = 0"
  "ed_editing (ed_open hw b m) = False" "ed_buf (ed_open hw b m) = b" "ed_data (ed_open hw b m) = m"
  by (simp_all add: ed_open_def)

definition ed_store :: "editor \<Rightarrow> editor" where
  "ed_store ed = ed\<lparr>ed_data := (ed_data ed)(ed_hw ed := (ed_data ed (ed_hw ed))(ed_addr ed := ed_buf ed)), ed_editing := False\<rparr>"

definition ed_key :: "key \<Rightarrow> editor \<Rightarrow> editor" where
  "ed_key key ed =
     (case ed_selects key of
        Some hw \<Rightarrow> if hw = ed_hw ed then ed else ed_open hw (ed_buf ed) (ed_data ed)
      | None \<Rightarrow>
      if ed_editing ed then
        (case key of
           Key_char k \<Rightarrow>
             if Key_char k = KBPRS_ENTER then ed_store ed
             else if Key_char k = KBPRS_ESC then ed\<lparr>ed_editing := False\<rparr>
             else ed\<lparr>ed_buf := type_digit k (ed_buf ed)\<rparr>
         | _ \<Rightarrow> ed)
      else
        (case key of
           KEY_UP \<Rightarrow> ed\<lparr>ed_row := (ed_row ed + 15) mod 16\<rparr>
         | KEY_DOWN \<Rightarrow> ed\<lparr>ed_row := (ed_row ed + 1) mod 16\<rparr>
         | KEY_LEFT \<Rightarrow> ed\<lparr>ed_col := (ed_col ed + 15) mod 16\<rparr>
         | KEY_RIGHT \<Rightarrow> ed\<lparr>ed_col := (ed_col ed + 1) mod 16\<rparr>
         | KEY_PPAGE \<Rightarrow> ed\<lparr>ed_base := ed_page (ed_hw ed) False (ed_base ed)\<rparr>
         | KEY_NPAGE \<Rightarrow> ed\<lparr>ed_base := ed_page (ed_hw ed) True (ed_base ed)\<rparr>
         | Key_char k \<Rightarrow> if Key_char k = KBPRS_ENTER then ed\<lparr>ed_editing := True\<rparr> else ed
         | _ \<Rightarrow> ed))"

text \<open>Without an edit the buffer is the byte at the cursor.\<close>

definition ed_show :: "editor \<Rightarrow> editor" where
  "ed_show ed = (if ed_editing ed then ed else ed\<lparr>ed_buf := ed_data ed (ed_hw ed) (ed_addr ed)\<rparr>)"

definition ed_leaves :: "key \<Rightarrow> editor \<Rightarrow> bool" where
  "ed_leaves key ed \<longleftrightarrow> key = KBPRS_ESC \<and> \<not> ed_editing ed"

definition ed_requests :: "key \<Rightarrow> editor \<Rightarrow> u8 list list" where
  "ed_requests key ed =
     (if ed_editing ed \<and> key = KBPRS_ENTER then [space_write (ed_hw ed) (ed_addr ed) (ed_buf ed)] else []) @
     [space_read (ed_hw (ed_key key ed)) (ed_base (ed_key key ed))]"

text \<open>A run of keys up to the one that leaves, and the requests it needs.\<close>

fun ed_run :: "key list \<Rightarrow> editor \<Rightarrow> editor" where
  "ed_run [] ed = ed"
| "ed_run (key # keys) ed = (if ed_leaves key ed then ed else ed_run keys (ed_show (ed_key key ed)))"

fun ed_run_requests :: "key list \<Rightarrow> editor \<Rightarrow> u8 list list" where
  "ed_run_requests [] ed = []"
| "ed_run_requests (key # keys) ed =
     (if ed_leaves key ed then []
      else ed_requests key ed @ ed_run_requests keys (ed_show (ed_key key ed)))"

text \<open>Every screen of the run can be shown.\<close>

definition ed_valid :: "(fdkHwFunc_t \<Rightarrow> u64 \<Rightarrow> bool) \<Rightarrow> editor \<Rightarrow> bool" where
  "ed_valid valid ed \<longleftrightarrow> valid (ed_hw ed) (ed_base ed)"

fun ed_within :: "(fdkHwFunc_t \<Rightarrow> u64 \<Rightarrow> bool) \<Rightarrow> key list \<Rightarrow> editor \<Rightarrow> bool" where
  "ed_within valid [] ed \<longleftrightarrow> ed_valid valid ed"
| "ed_within valid (key # keys) ed \<longleftrightarrow>
     ed_valid valid ed \<and> (ed_leaves key ed \<or> ed_within valid keys (ed_show (ed_key key ed)))"

lemma ed_within_head: "ed_within valid keys ed \<Longrightarrow> ed_valid valid ed"
  by (cases keys) simp_all

lemma ed_within_all: "ed_within (\<lambda>_ _. True) keys ed"
  by (induction keys arbitrary: ed) (simp_all add: ed_valid_def)

text \<open>The keys that select no function but those of the spaces.\<close>

definition stays :: "fdkHwFunc_t set \<Rightarrow> key \<Rightarrow> bool" where
  "stays spaces key \<longleftrightarrow> key \<notin> {KEY_F 2, KEY_F 3, KEY_F 4} \<and> (case ed_selects key of None \<Rightarrow> True | Some hw \<Rightarrow> hw \<in> spaces)"

text \<open>A view as it appears when it is opened.\<close>

definition ed_start :: "fdkHwFunc_t \<Rightarrow> (fdkHwFunc_t \<Rightarrow> u64 \<Rightarrow> u8) \<Rightarrow> editor" where
  "ed_start hw m = ed_show (ed_open hw 0 m)"

section \<open>The cursor and the digits\<close>

definition ed_off :: "editor \<Rightarrow> int" where
  "ed_off ed = 16 * int (ed_row ed) + int (ed_col ed)"

definition ed_in_screen :: "editor \<Rightarrow> bool" where
  "ed_in_screen ed \<longleftrightarrow> ed_row ed < 16 \<and> ed_col ed < 16"

lemma cursor_cell:
  assumes "r < 16" and "c < 16"
  shows "(16 * int r + int c) div 16 = int r" "(16 * int r + int c) mod 16 = int c"
  using assms by simp_all

lemma move_cursor_cell:
  assumes "r < 16" and "c < 16"
  shows "move_cursor KEY_UP (16 * int r + int c) = 16 * int ((r + 15) mod 16) + int c"
    "move_cursor KEY_DOWN (16 * int r + int c) = 16 * int ((r + 1) mod 16) + int c"
    "move_cursor KEY_LEFT (16 * int r + int c) = 16 * int r + int ((c + 15) mod 16)"
    "move_cursor KEY_RIGHT (16 * int r + int c) = 16 * int r + int ((c + 1) mod 16)"
proof -
  note cell = cursor_cell [OF assms] and d = move_cursor_def FDK_DUMP_BYTE_PER_LINE_def Let_def
  have up: "(16 * int r + int c - 16 + 256) mod 256 = 16 * int ((r + 15) mod 16) + int c"
  proof (cases r)
    case (Suc q)
    have "(16 * int r + int c - 16 + 256) mod 256 = (16 * int q + int c + 256) mod 256" by (simp add: Suc)
    also have "\<dots> = (16 * int q + int c) mod 256" by (rule mod_add_self2)
    also have "\<dots> = 16 * int q + int c" using assms by (simp add: Suc)
    finally show ?thesis using assms by (simp add: Suc)
  qed (use assms in simp)
  have down: "(16 * int r + int c + 16) mod 256 = 16 * int ((r + 1) mod 16) + int c"
    using assms by (cases "r = 15") (simp_all add: mod_if)
  show "move_cursor KEY_UP (16 * int r + int c) = 16 * int ((r + 15) mod 16) + int c"
    using up by (simp add: d)
  show "move_cursor KEY_DOWN (16 * int r + int c) = 16 * int ((r + 1) mod 16) + int c"
    using down by (simp add: d)
  show "move_cursor KEY_LEFT (16 * int r + int c) = 16 * int r + int ((c + 15) mod 16)"
    using assms cell by (cases c) (simp_all add: d)
  show "move_cursor KEY_RIGHT (16 * int r + int c) = 16 * int r + int ((c + 1) mod 16)"
    using assms cell by (cases "c = 15") (simp_all add: d mod_if)
qed

lemma edit_key_digits: "edit_key (Key_char k) b = type_digit k b"
proof (cases "digit_val (char_of (unat k))")
  case None
  then have "\<not> isxdigit (char_of (unat k))" by (simp add: digit_in_def flip: digit_in_16)
  then show ?thesis using None by (simp add: edit_key_def type_digit_def)
next
  case (Some d)
  then have "unat (edit_key (Key_char k) b) = 16 * (unat b mod 16) + d" by (rule edit_key_digit)
  then have "edit_key (Key_char k) b = word_of_nat (16 * (unat b mod 16) + d)"
    by (metis of_nat_unat ucast_id)
  then show ?thesis using Some by (simp add: type_digit_def)
qed

lemma edit_key_other: "\<forall>k. key \<noteq> Key_char k \<Longrightarrow> edit_key key b = b"
  by (simp add: edit_key_def split: key.split)


section \<open>The console and the server\<close>

text \<open>
  The console \<open>ui\<close> is in the state \<open>ed\<close> of the specification and connected to a server of the byte
  spaces, with the requests \<open>ps\<close> before it; it will have sent \<open>sent\<close> at the end and leave the machine in
  the state \<open>fin\<close>.
\<close>

definition edits ::
  "'w os \<Rightarrow> s32 \<Rightarrow> string option \<Rightarrow> fdkHwFunc_t set \<Rightarrow> ('w \<Rightarrow> fdkHwFunc_t \<Rightarrow> u64 \<Rightarrow> u8) \<Rightarrow> 'w sys \<Rightarrow> u8 list \<Rightarrow>
   u8 list list \<Rightarrow> fdkUiProperty_t \<Rightarrow> editor \<Rightarrow> bool" where
  "edits K memfd dev spaces holds fin sent ps ui ed \<longleftrightarrow>
     ed_hw ed \<in> spaces \<and> fdkHwFunc ui = ed_hw ed \<and> infoStr (fdkDumpPanel ui) \<noteq> None \<and> ed_in_screen ed \<and>
     byteBase (fdkDumpPanel ui) = ed_base ed \<and> byteOffset (fdkDumpPanel ui) = ed_off ed \<and>
     toggleEditing (fdkDumpPanel ui) = ed_editing ed \<and> editingBuf (fdkDumpPanel ui) = ed_buf ed \<and>
     (\<exists>s. in_session K memfd dev fin sent ps (pktBuf ui) (ui_ch ui) s \<and> holds (env s) = ed_data ed)"

text \<open>What is on the screen: the bytes, their characters, and the byte under the cursor.\<close>

definition window_text :: "screen \<Rightarrow> window_name \<Rightarrow> string option" where
  "window_text sc w = map_option wi_text (sc w)"

definition ed_screen :: "editor \<Rightarrow> u8 list" where
  "ed_screen ed = phys_bytes (ed_data ed (ed_hw ed)) (ed_base ed) 256"

definition shows_editor :: "fdkUiProperty_t \<Rightarrow> editor \<Rightarrow> bool" where
  "shows_editor ui ed \<longleftrightarrow>
     window_text (ui_screen ui) Dump_value = Some (value_text (ed_screen ed)) \<and>
     window_text (ui_screen ui) Dump_ascii = Some (ascii_text (ed_screen ed)) \<and>
     window_text (ui_screen ui) Dump_highlight = Some (fmt_X 2 (unat (ed_buf ed))) \<and>
     window_text (ui_screen ui) Dump_error = None"

lemma bytes_at_prefix: "take n buf = out \<Longrightarrow> p + k \<le> n \<Longrightarrow> bytes_at p k buf = bytes_at p k out"
  by (auto simp: bytes_at_def drop_take)

lemma kind_ops:
  assumes "hw \<in> byte_kinds"
  shows "is_request (read_op hw)" "op_num (rsp_of (read_op hw)) = op_num (read_op hw) + 1" "screen_read_op (read_op hw)"
    "is_request (write_op hw)" "op_num (rsp_of (write_op hw)) = op_num (write_op hw) + 1" "byte_write_op (write_op hw)"
  using assms by (auto simp: byte_kinds_def read_op_def write_op_def is_request_def rsp_of_def screen_read_op_def byte_write_op_def)

lemma kind_calls:
  assumes "fdkHwFunc ui = hw" and "hw \<in> byte_kinds"
  shows "readCurrent ui = execute ui (read_op hw) (byteBase (fdkDumpPanel ui)) FDK_BYTE_PER_SCREEN None"
    "dump_writeEditedByte ui = snd (writeEditedByte ui (write_op hw) (byteBase (fdkDumpPanel ui)))"
    "dumpData ui = screen_offset hw" "pageDump hw num down a = ed_page hw down a"
  using assms by (auto simp: byte_kinds_def readCurrent_def readMemory_def readIde_def readCmos_def read_op_def
      dump_writeEditedByte_def writeMemoryByEditing_def writeIdeByEditing_def writeCmosByEditing_def write_op_def
      dumpData_def screen_offset_def layout pageDump_def ed_page_def not_less)

text \<open>Each part of the drawing leaves the fields that the session needs, and the windows of the others.\<close>

definition same_session :: "fdkUiProperty_t \<Rightarrow> fdkUiProperty_t \<Rightarrow> bool" where
  "same_session ui u \<longleftrightarrow> fdkHwFunc u = fdkHwFunc ui \<and> pktBuf u = pktBuf ui \<and> ui_ch u = ui_ch ui"

lemma window_text_print:
  "window_text (printWindowAt n l c x y col t sc) m = (if m = n then Some t else window_text sc m)"
  "window_text (printWindowMove n l c x y col t sc) m = (if m = n then Some t else window_text sc m)"
  "window_text (destroyWindow n sc) m = (if m = n then None else window_text sc m)"
  by (simp_all add: window_text_def printWindowMove_def printWindowAt_def destroyWindow_def split: option.split)

lemma print_values_kind:
  assumes "fdkHwFunc ui \<in> byte_kinds"
  shows "same_session ui (print_values ui)" "fdkDumpPanel (print_values ui) = fdkDumpPanel ui"
    "window_text (ui_screen (print_values ui)) Dump_value = Some (value_text (screen_data ui))"
    "window_text (ui_screen (print_values ui)) Dump_ascii = Some (ascii_text (screen_data ui))"
  using assms by (auto simp: byte_kinds_def print_values_def Let_def same_session_def window_text_print)

lemma draw_address_kind:
  assumes "fdkHwFunc ui \<in> byte_kinds"
  shows "same_session ui (draw_address n ui)" "fdkDumpPanel (draw_address n ui) = fdkDumpPanel ui"
    "w \<noteq> Dump_baseaddr \<Longrightarrow> window_text (ui_screen (draw_address n ui)) w = window_text (ui_screen ui) w"
  using assms by (auto simp: byte_kinds_def draw_address_def Let_def same_session_def window_text_print)

lemma print_error_clean:
  assumes "hdr_errorCode (pktBuf ui) = FDK_SUCCESS"
  shows "same_session ui (print_error ui)" "fdkDumpPanel (print_error ui) = fdkDumpPanel ui"
    "window_text (ui_screen (print_error ui)) w = (if w = Dump_error then None else window_text (ui_screen ui) w)"
  using assms by (simp_all add: print_error_def same_session_def window_text_print)

lemma print_highlight_shows:
  assumes "b = (if toggleEditing (fdkDumpPanel ui) then editingBuf (fdkDumpPanel ui) else cur)"
  shows "same_session ui (print_highlight cur ui)"
    "fdkDumpPanel (print_highlight cur ui) = (fdkDumpPanel ui)\<lparr>editingBuf := b\<rparr>"
    "window_text (ui_screen (print_highlight cur ui)) w =
       (if w = Dump_highlight then Some (fmt_X 2 (unat b)) else window_text (ui_screen ui) w)"
  using assms by (simp_all add: print_highlight_def Let_def same_session_def window_text_print)

lemma print_cursor_shows:
  assumes "fdkHwFunc ui \<in> byte_kinds"
    and "b = (if toggleEditing (fdkDumpPanel ui) then editingBuf (fdkDumpPanel ui) else cur)"
  shows "same_session ui (print_cursor cur ui)"
    "fdkDumpPanel (print_cursor cur ui) = (fdkDumpPanel ui)\<lparr>editingBuf := b\<rparr>"
    "w \<notin> {Dump_bits, Dump_hlascii} \<Longrightarrow> window_text (ui_screen (print_cursor cur ui)) w =
       (if w = Dump_highlight then Some (fmt_X 2 (unat b)) else window_text (ui_screen ui) w)"
proof -
  have bits: "same_session v (print_bits cur v)" "fdkDumpPanel (print_bits cur v) = fdkDumpPanel v"
    "w \<noteq> Dump_bits \<Longrightarrow> window_text (ui_screen (print_bits cur v)) w = window_text (ui_screen v) w" for v w
    by (simp_all add: print_bits_def same_session_def window_text_print)
  have asc: "same_session v (print_hlascii cur v)" "fdkDumpPanel (print_hlascii cur v) = fdkDumpPanel v"
    "w \<noteq> Dump_hlascii \<Longrightarrow> window_text (ui_screen (print_hlascii cur v)) w = window_text (ui_screen v) w" for v w
    by (simp_all add: print_hlascii_def same_session_def window_text_print)
  note h = print_highlight_shows [OF assms(2)]
  show "same_session ui (print_cursor cur ui)"
    using h(1) bits(1) asc(1) unfolding print_cursor_def same_session_def by metis
  show "fdkDumpPanel (print_cursor cur ui) = (fdkDumpPanel ui)\<lparr>editingBuf := b\<rparr>"
    by (simp add: print_cursor_def bits(2) asc(2) h(2))
  show "w \<notin> {Dump_bits, Dump_hlascii} \<Longrightarrow> window_text (ui_screen (print_cursor cur ui)) w =
       (if w = Dump_highlight then Some (fmt_X 2 (unat b)) else window_text (ui_screen ui) w)"
    by (simp add: print_cursor_def bits(3) asc(3) h(3))
qed

lemma kind_panel:
  assumes "fdkHwFunc ui \<in> byte_kinds" and "infoStr (fdkDumpPanel ui) \<noteq> None" and "hdr_errorCode (pktBuf ui) = FDK_SUCCESS"
    and "cur = screen_data ui ! nat (byteOffset (fdkDumpPanel ui))"
    and "b = (if toggleEditing (fdkDumpPanel ui) then editingBuf (fdkDumpPanel ui) else cur)"
  shows "\<exists>u. printDumpUpdatePanel ui = Some u \<and> same_session ui u \<and>
    fdkDumpPanel u = (fdkDumpPanel ui)\<lparr>editingBuf := b\<rparr> \<and>
    window_text (ui_screen u) Dump_value = Some (value_text (screen_data ui)) \<and>
    window_text (ui_screen u) Dump_ascii = Some (ascii_text (screen_data ui)) \<and>
    window_text (ui_screen u) Dump_highlight = Some (fmt_X 2 (unat b)) \<and> window_text (ui_screen u) Dump_error = None"
proof -
  obtain info where info: "infoStr (fdkDumpPanel ui) = Some info" using assms(2) by blast
  let ?v = "print_values ui" let ?a = "draw_address (int (length info)) ?v"
  let ?e = "print_error ?a"
  note v = print_values_kind [OF assms(1)]
  have hv: "fdkHwFunc ?v \<in> byte_kinds" using v(1) assms(1) by (simp add: same_session_def)
  note a = draw_address_kind [OF hv]
  have ea: "hdr_errorCode (pktBuf ?a) = FDK_SUCCESS" using a(1) v(1) assms(3) by (simp add: same_session_def)
  note e = print_error_clean [OF ea]
  have he: "fdkHwFunc ?e \<in> byte_kinds" using e(1) a(1) hv by (simp add: same_session_def)
  have de: "fdkDumpPanel ?e = fdkDumpPanel ui" by (simp add: e(2) a(2) v(2))
  have be: "b = (if toggleEditing (fdkDumpPanel ?e) then editingBuf (fdkDumpPanel ?e) else cur)"
    using assms(5) by (simp only: de)
  note c = print_cursor_shows [OF he be]
  have "printDumpUpdatePanel ui = Some (print_cursor cur ?e)"
    by (simp add: printDumpUpdatePanel_def printBaseAddress_def v(2) info assms(4))
  moreover have "same_session ui (print_cursor cur ?e)"
    using c(1) e(1) a(1) v(1) by (simp add: same_session_def)
  ultimately show ?thesis
    by (intro exI [of _ "print_cursor cur ?e"]) (simp add: c(2,3) de e(3) a(3) v(3,4))
qed



section \<open>A turn of the loop\<close>

lemma ed_off_word: "word_of_int (ed_off ed) = (word_of_nat (16 * ed_row ed + ed_col ed) :: u64)"
proof -
  have "ed_off ed = int (16 * ed_row ed + ed_col ed)" by (simp add: ed_off_def)
  then show ?thesis by (simp only: of_int_of_nat_eq)
qed

lemma edits_addr: "edits K memfd dev spaces holds fin sent ps ui ed \<Longrightarrow>
    byteBase (fdkDumpPanel ui) + word_of_int (byteOffset (fdkDumpPanel ui)) = ed_addr ed"
  by (simp add: edits_def ed_addr_def ed_off_word)

lemma move_cursor_ed:
  assumes "ed_in_screen ed" and "key \<in> {KEY_UP, KEY_DOWN, KEY_LEFT, KEY_RIGHT}" and "\<not> ed_editing ed"
  shows "move_cursor key (ed_off ed) = ed_off (ed_key key ed)" "ed_in_screen (ed_key key ed)"
  using assms(2,3) move_cursor_cell assms(1) by (auto simp: ed_off_def ed_key_def ed_selects_def ed_in_screen_def)

text \<open>The keys that only change the panel: what they do there is what they do to the editor.\<close>

definition panel_of :: "editor \<Rightarrow> bool \<Rightarrow> fdkDumpPanel_t \<Rightarrow> fdkDumpPanel_t" where
  "panel_of ed bits d = d\<lparr>byteBase := ed_base ed, byteOffset := ed_off ed, toggleEditing := ed_editing ed, editingBuf := ed_buf ed,
     toggleBits := bits\<rparr>"

definition panel_is :: "fdkUiProperty_t \<Rightarrow> editor \<Rightarrow> bool" where
  "panel_is ui ed \<longleftrightarrow> fdkHwFunc ui = ed_hw ed \<and> ed_in_screen ed \<and> byteBase (fdkDumpPanel ui) = ed_base ed \<and>
     byteOffset (fdkDumpPanel ui) = ed_off ed \<and> toggleEditing (fdkDumpPanel ui) = ed_editing ed \<and>
     editingBuf (fdkDumpPanel ui) = ed_buf ed"

lemma panel_same: "panel_is ui ed \<Longrightarrow> panel_of ed (toggleBits (fdkDumpPanel ui)) (fdkDumpPanel ui) = fdkDumpPanel ui"
  by (simp add: panel_is_def panel_of_def flip: fdkDumpPanel_t.surjective)

lemma ed_key_function: "ed_selects key \<in> {None, Some (ed_hw ed)} \<Longrightarrow> key = KEY_F n \<Longrightarrow> ed_key key ed = ed"
  by (auto simp: ed_key_def)

lemma handle_move:
  assumes "panel_is ui ed" and "inputBuf ui = key" and "key \<in> {KEY_UP, KEY_DOWN, KEY_LEFT, KEY_RIGHT}" and "\<not> ed_editing ed"
  shows "\<exists>bits. handleKeyPressForDumpPanel ui = ui\<lparr>fdkDumpPanel := panel_of (ed_key key ed) bits (fdkDumpPanel ui)\<rparr>"
proof -
  have p: "byteOffset (fdkDumpPanel ui) = ed_off ed" "\<not> toggleEditing (fdkDumpPanel ui)" "ed_in_screen ed"
    using assms(1,4) by (simp_all add: panel_is_def)
  have "handleKeyPressForDumpPanel ui = ui\<lparr>fdkDumpPanel := (fdkDumpPanel ui)\<lparr>byteOffset := ed_off (ed_key key ed)\<rparr>\<rparr>"
    using assms(2-4) p move_cursor_ed(1) [OF p(3) assms(3,4)] by (auto simp: handleKeyPressForDumpPanel_def Let_def)
  moreover have "(fdkDumpPanel ui)\<lparr>byteOffset := ed_off (ed_key key ed)\<rparr> =
      panel_of (ed_key key ed) (toggleBits (fdkDumpPanel ui)) (panel_of ed (toggleBits (fdkDumpPanel ui)) (fdkDumpPanel ui))"
    unfolding panel_same [OF assms(1)] using assms(1,3,4) by (auto simp: panel_is_def panel_of_def ed_key_def)
  ultimately show ?thesis unfolding panel_same [OF assms(1)] by auto
qed

lemma handle_function_key:
  assumes "panel_is ui ed" and "inputBuf ui = KEY_F n" and "ed_selects (KEY_F n) \<in> {None, Some (ed_hw ed)}"
  shows "\<exists>bits. handleKeyPressForDumpPanel ui = ui\<lparr>fdkDumpPanel := panel_of (ed_key (KEY_F n) ed) bits (fdkDumpPanel ui)\<rparr>"
proof -
  have "edit_key (KEY_F n) b = b" for b by (simp add: edit_key_other)
  then have "handleKeyPressForDumpPanel ui = ui"
    using assms(2) by (simp add: handleKeyPressForDumpPanel_def Let_def KBPRS_ENTER_def KBPRS_SPACE_def)
  then show ?thesis
    using ed_key_function [OF assms(3) refl] panel_same [OF assms(1)]
    by (intro exI [of _ "toggleBits (fdkDumpPanel ui)"]) simp
qed

lemma handle_digit:
  assumes "panel_is ui ed" and "inputBuf ui = key" and "ed_editing ed" and "key \<noteq> KBPRS_ENTER" and "key \<noteq> KBPRS_ESC"
    and "\<forall>n. key \<noteq> KEY_F n"
  shows "\<exists>bits. handleKeyPressForDumpPanel ui = ui\<lparr>fdkDumpPanel := panel_of (ed_key key ed) bits (fdkDumpPanel ui)\<rparr>"
proof -
  have k: "ed_key key ed = ed\<lparr>ed_buf := edit_key key (ed_buf ed)\<rparr>"
    using assms(3-6) by (cases key) (simp_all add: ed_key_def edit_key_digits edit_key_other)
  have "handleKeyPressForDumpPanel ui = ui\<lparr>fdkDumpPanel := (fdkDumpPanel ui)\<lparr>editingBuf := edit_key key (ed_buf ed)\<rparr>\<rparr>"
    using assms by (simp add: handleKeyPressForDumpPanel_def panel_is_def Let_def)
  moreover have "(fdkDumpPanel ui)\<lparr>editingBuf := edit_key key (ed_buf ed)\<rparr> =
      panel_of (ed_key key ed) (toggleBits (fdkDumpPanel ui)) (panel_of ed (toggleBits (fdkDumpPanel ui)) (fdkDumpPanel ui))"
    unfolding panel_same [OF assms(1)] k using assms(1) by (simp add: panel_is_def panel_of_def ed_off_def)
  ultimately show ?thesis unfolding panel_same [OF assms(1)] by auto
qed

text \<open>Without an edit: pages, Enter, the space bar, and the keys that do nothing.\<close>

lemma handle_idle:
  assumes "panel_is ui ed" and "inputBuf ui = key" and "\<not> ed_editing ed" and "key \<notin> {KEY_UP, KEY_DOWN, KEY_LEFT, KEY_RIGHT}"
    and "\<forall>n. key \<noteq> KEY_F n" and "ed_hw ed \<in> byte_kinds"
  shows "\<exists>bits. handleKeyPressForDumpPanel ui = ui\<lparr>fdkDumpPanel := panel_of (ed_key key ed) bits (fdkDumpPanel ui)\<rparr>"
proof -
  let ?bits = "if key = KBPRS_SPACE then \<not> toggleBits (fdkDumpPanel ui) else toggleBits (fdkDumpPanel ui)"
  have p: "fdkHwFunc ui = ed_hw ed" "\<not> toggleEditing (fdkDumpPanel ui)" "byteBase (fdkDumpPanel ui) = ed_base ed"
    using assms(1,3) by (simp_all add: panel_is_def)
  have "handleKeyPressForDumpPanel ui = ui\<lparr>fdkDumpPanel := (fdkDumpPanel ui)\<lparr>byteBase := ed_base (ed_key key ed),
      toggleEditing := ed_editing (ed_key key ed), toggleBits := ?bits\<rparr>\<rparr>"
    using assms(2-5) p kind_calls(4) [OF p(1) assms(6)]
    by (cases key) (auto simp: handleKeyPressForDumpPanel_def Let_def ed_key_def KBPRS_ENTER_def KBPRS_SPACE_def)
  moreover have "(fdkDumpPanel ui)\<lparr>byteBase := ed_base (ed_key key ed), toggleEditing := ed_editing (ed_key key ed), toggleBits := ?bits\<rparr> =
      panel_of (ed_key key ed) ?bits (panel_of ed (toggleBits (fdkDumpPanel ui)) (fdkDumpPanel ui))"
    unfolding panel_same [OF assms(1)] using assms(1,3-5)
    by (cases key) (auto simp: panel_is_def panel_of_def ed_key_def ed_off_def)
  ultimately show ?thesis unfolding panel_same [OF assms(1)] by (intro exI [of _ ?bits]) (simp only:)
qed

lemma handle_panel:
  assumes "panel_is ui ed" and "inputBuf ui = key" and "\<not> (ed_editing ed \<and> key \<in> {KBPRS_ENTER, KBPRS_ESC})"
    and "ed_selects key \<in> {None, Some (ed_hw ed)}" and "ed_hw ed \<in> byte_kinds"
  shows "\<exists>bits. handleKeyPressForDumpPanel ui = ui\<lparr>fdkDumpPanel := panel_of (ed_key key ed) bits (fdkDumpPanel ui)\<rparr>"
proof (cases "\<exists>n. key = KEY_F n")
  case True
  then show ?thesis using handle_function_key [of ui ed] assms(1,2,4) by blast
next
  case False
  then show ?thesis
    using handle_move [of ui ed key] handle_digit [of ui ed key] handle_idle [of ui ed key] assms by blast
qed

text \<open>A key is taken up: the function it selects, then what Escape does to an edit.\<close>

definition ed_select :: "key \<Rightarrow> editor \<Rightarrow> editor" where
  "ed_select key ed =
     (case ed_selects key of
        Some hw \<Rightarrow> ed_key key ed
      | None \<Rightarrow> if key = KBPRS_ESC then ed\<lparr>ed_editing := False\<rparr> else ed)"

lemma ed_select_key:
  assumes "\<not> ed_leaves key ed"
  shows "ed_key key (ed_select key ed) = ed_key key ed" "ed_requests key (ed_select key ed) = ed_requests key ed"
    "ed_selects key \<in> {None, Some (ed_hw (ed_select key ed))}" "key = KBPRS_ESC \<longrightarrow> \<not> ed_editing (ed_select key ed)"
proof -
  show k: "ed_key key (ed_select key ed) = ed_key key ed"
    using assms by (auto simp: ed_select_def ed_key_def ed_leaves_def KBPRS_ESC_def KBPRS_ENTER_def split: option.split)
  have "key = KBPRS_ENTER \<Longrightarrow> ed_select key ed = ed"
    by (simp add: ed_select_def KBPRS_ENTER_def KBPRS_ESC_def)
  then show "ed_requests key (ed_select key ed) = ed_requests key ed"
    unfolding ed_requests_def k by auto
  show "ed_selects key \<in> {None, Some (ed_hw (ed_select key ed))}" "key = KBPRS_ESC \<longrightarrow> \<not> ed_editing (ed_select key ed)"
    by (auto simp: ed_select_def ed_key_def KBPRS_ESC_def split: option.split)
qed

lemma ed_select_valid:
  assumes "ed_valid valid ed" and "ed_valid valid (ed_key key ed)"
  shows "ed_valid valid (ed_select key ed)"
  using assms by (auto simp: ed_select_def ed_valid_def split: option.split)

lemma next_function_spaces:
  assumes "stays spaces key" and "hw \<in> byte_kinds"
  shows "next_function key hw = (case ed_selects key of None \<Rightarrow> hw | Some x \<Rightarrow> x)"
  using assms by (auto simp: stays_def next_function_def ed_selects_def byte_kinds_def KBPRS_ESC_def)

context byte_spaces
begin

lemma kind: "hw \<in> spaces \<Longrightarrow> hw \<in> byte_kinds"
  using kinds by blast

lemma read_screen:
  assumes works and hw: "hw \<in> spaces" and "valid hw a" and ui: "fdkHwFunc ui = hw" "byteBase (fdkDumpPanel ui) = a"
    and c: "in_session K memfd dev fin sent (space_read hw a # ps) (pktBuf ui) (ui_ch ui) s"
  shows "\<exists>buf ch s'. readCurrent ui = (0, ui\<lparr>pktBuf := buf, ui_ch := ch\<rparr>) \<and>
    screen_data (ui\<lparr>pktBuf := buf, ui_ch := ch\<rparr>) = phys_bytes (holds (env s) hw) a 256 \<and> hdr_errorCode buf = FDK_SUCCESS \<and>
    in_session K memfd dev fin sent ps buf ch s' \<and> holds (env s') = holds (env s)"
proof -
  note k = kind_ops [OF kind [OF hw]]
  obtain out s' where a: "answer_packet K memfd dev (space_read hw a) s = (FDKD_REPLY, out, s')"
    and s': "holds (env s') = holds (env s)" and out: "length out = screen_offset hw + 256"
      "hdr_opCode out = op_code (rsp_of (read_op hw))" "hdr_errorCode out = FDK_SUCCESS"
      "bytes_at (screen_offset hw) 256 out = phys_bytes (holds (env s) hw) a 256"
    using screen_law [OF assms(1-3), of s] by (auto simp: screen_answer_def)
  obtain len pkt where b: "build_request (read_op hw) a FDK_BYTE_PER_SCREEN None (replicate FDK_MAXSZ_PKT 0) = Some (len, pkt)" "len \<noteq> 0"
    using build_screen_read [OF k(3)] by blast
  obtain buf ch where e: "execute ui (read_op hw) a FDK_BYTE_PER_SCREEN None = (0, ui\<lparr>pktBuf := buf, ui_ch := ch\<rparr>)"
    and t: "take (length out) buf = out" and c': "in_session K memfd dev fin sent ps buf ch s'"
    using execute_session [OF c [unfolded space_read_def] b _ a [unfolded space_read_def] out(2) k(1,2)] by auto
  have same: "bytes_at (screen_offset hw) 256 buf = bytes_at (screen_offset hw) 256 out" "hdr_errorCode buf = hdr_errorCode out"
    using bytes_at_prefix [OF t] out(1) by (simp_all add: hdr_errorCode_def layout get_defs screen_offset_def)
  show ?thesis
    using e c' s' out(3,4) same kind_calls(1) [OF ui(1) kind [OF hw]]
      kind_calls(3) [of "ui\<lparr>pktBuf := buf, ui_ch := ch\<rparr>" hw] kind [OF hw] ui
    by (intro exI [of _ buf] exI [of _ ch] exI [of _ s']) (simp add: screen_data_def FDK_BYTE_PER_SCREEN_def)
qed

lemma write_edited:
  assumes works and e: "edits K memfd dev spaces holds fin sent (space_write (ed_hw ed) (ed_addr ed) (ed_buf ed) # ps) ui ed"
    and v: "ed_valid valid ed"
  shows "\<exists>buf ch. dump_writeEditedByte ui = ui\<lparr>pktBuf := buf, ui_ch := ch\<rparr> \<and>
    (\<exists>s'. in_session K memfd dev fin sent ps buf ch s' \<and> holds (env s') = ed_data (ed_store ed))"
proof -
  let ?hw = "ed_hw ed" and ?a = "ed_addr ed" and ?b = "ed_buf ed"
  have hw: "?hw \<in> spaces" "fdkHwFunc ui = ?hw" "editingBuf (fdkDumpPanel ui) = ?b" and off: "16 * ed_row ed + ed_col ed < 256"
    using e by (auto simp: edits_def ed_in_screen_def)
  note k = kind_ops [OF kind [OF hw(1)]]
  obtain s where c: "in_session K memfd dev fin sent (space_write ?hw ?a ?b # ps) (pktBuf ui) (ui_ch ui) s"
    and s: "holds (env s) = ed_data ed" using e by (auto simp: edits_def)
  obtain out s' where ans: "answer_packet K memfd dev (space_write ?hw ?a ?b) s = (FDKD_REPLY, out, s')"
    and s': "holds (env s') = ed_data (ed_store ed)" and out: "hdr_opCode out = op_code (rsp_of (write_op ?hw))"
    using byte_law [OF assms(1) hw(1) v [unfolded ed_valid_def] off, where s = s and b = ?b] s
    by (auto simp: byte_answer_def ed_store_def ed_addr_def)
  obtain len pkt where b: "build_request (write_op ?hw) ?a 1 (Some [?b]) (replicate FDK_MAXSZ_PKT 0) = Some (len, pkt)" "len \<noteq> 0"
    using build_byte_write [OF k(6)] by blast
  obtain buf ch where x: "execute ui (write_op ?hw) ?a 1 (Some [?b]) = (0, ui\<lparr>pktBuf := buf, ui_ch := ch\<rparr>)"
    and c': "in_session K memfd dev fin sent ps buf ch s'"
    using execute_session [OF c [unfolded space_write_def] b _ ans [unfolded space_write_def] out k(4,5)] by auto
  have "dump_writeEditedByte ui = ui\<lparr>pktBuf := buf, ui_ch := ch\<rparr>"
    using x hw kind_calls(2) [OF hw(2) kind [OF hw(1)]] edits_addr [OF e] by (simp add: writeEditedByte_def)
  then show ?thesis using c' s' by blast
qed

lemma panel_edits:
  "edits K memfd dev spaces holds fin sent ps ui ed \<longleftrightarrow> panel_is ui ed \<and> ed_hw ed \<in> spaces \<and> infoStr (fdkDumpPanel ui) \<noteq> None \<and>
     (\<exists>s. in_session K memfd dev fin sent ps (pktBuf ui) (ui_ch ui) s \<and> holds (env s) = ed_data ed)"
  unfolding edits_def panel_is_def by blast

lemma handle_commit:
  assumes works and e: "edits K memfd dev spaces holds fin sent (ed_requests KBPRS_ENTER ed @ ps) ui ed" and "ed_valid valid ed"
    and key: "inputBuf ui = KBPRS_ENTER" and ed: "ed_editing ed"
  shows "edits K memfd dev spaces holds fin sent (space_read (ed_hw (ed_store ed)) (ed_base (ed_store ed)) # ps)
    (handleKeyPressForDumpPanel ui) (ed_store ed)"
proof -
  have k: "ed_key KBPRS_ENTER ed = ed_store ed" using ed by (simp add: ed_key_def KBPRS_ENTER_def)
  let ?ps = "space_read (ed_hw (ed_store ed)) (ed_base (ed_store ed)) # ps"
  have c: "edits K memfd dev spaces holds fin sent (space_write (ed_hw ed) (ed_addr ed) (ed_buf ed) # ?ps) ui ed"
    using e ed k by (simp add: ed_requests_def)
  obtain buf ch s' where w: "dump_writeEditedByte ui = ui\<lparr>pktBuf := buf, ui_ch := ch\<rparr>"
    "in_session K memfd dev fin sent ?ps buf ch s'" "holds (env s') = ed_data (ed_store ed)"
    using write_edited [OF assms(1) c assms(3)] by blast
  have "toggleEditing (fdkDumpPanel ui)" using e ed by (simp add: edits_def)
  then have "handleKeyPressForDumpPanel ui =
      ui\<lparr>pktBuf := buf, ui_ch := ch, fdkDumpPanel := (fdkDumpPanel ui)\<lparr>toggleEditing := False\<rparr>\<rparr>"
    using key w(1) by (simp add: handleKeyPressForDumpPanel_def)
  moreover have "ed_hw (ed_store ed) = ed_hw ed" "ed_base (ed_store ed) = ed_base ed" "ed_off (ed_store ed) = ed_off ed"
    "ed_in_screen (ed_store ed) = ed_in_screen ed" "ed_buf (ed_store ed) = ed_buf ed" "\<not> ed_editing (ed_store ed)"
    by (simp_all add: ed_store_def ed_off_def ed_in_screen_def)
  ultimately show ?thesis using e w(2,3) unfolding edits_def by auto
qed

lemma handle_key:
  assumes works and e: "edits K memfd dev spaces holds fin sent (ed_requests key ed @ ps) ui ed" and "ed_valid valid ed"
    and key: "inputBuf ui = key" and esc: "key = KBPRS_ESC \<longrightarrow> \<not> ed_editing ed" and sel: "ed_selects key \<in> {None, Some (ed_hw ed)}"
  shows "edits K memfd dev spaces holds fin sent (space_read (ed_hw (ed_key key ed)) (ed_base (ed_key key ed)) # ps)
    (handleKeyPressForDumpPanel ui) (ed_key key ed)"
proof (cases "ed_editing ed \<and> key = KBPRS_ENTER")
  case True
  then have "ed_key key ed = ed_store ed" by (simp add: ed_key_def KBPRS_ENTER_def)
  then show ?thesis using handle_commit [of fin sent ed ps ui] assms True by simp
next
  case False
  then have rq: "ed_requests key ed = [space_read (ed_hw (ed_key key ed)) (ed_base (ed_key key ed))]"
    by (auto simp: ed_requests_def)
  have p: "panel_is ui ed" "ed_hw ed \<in> spaces" "infoStr (fdkDumpPanel ui) \<noteq> None" using e by (simp_all add: panel_edits)
  have "\<not> (ed_editing ed \<and> key \<in> {KBPRS_ENTER, KBPRS_ESC})" using False esc by blast
  from handle_panel [OF p(1) key this sel kind [OF p(2)]]
  obtain bits where h: "handleKeyPressForDumpPanel ui = ui\<lparr>fdkDumpPanel := panel_of (ed_key key ed) bits (fdkDumpPanel ui)\<rparr>"
    by blast
  have "ed_hw (ed_key key ed) = ed_hw ed" "ed_data (ed_key key ed) = ed_data ed" "ed_in_screen (ed_key key ed)"
    using False sel p(1) by (auto simp: ed_key_def ed_in_screen_def panel_is_def split: key.split option.split)
  then show ?thesis
    using e p by (auto simp: panel_edits panel_is_def panel_of_def h rq)
qed

text \<open>A key selects another space.\<close>

lemma switch_edits:
  assumes sel: "ed_selects key = Some hw" and hw: "hw \<in> spaces" and ui: "fdkHwFunc ui \<notin> {hw, KHF_PCIL}"
    and s: "in_session K memfd dev fin sent ps (pktBuf ui) (ui_ch ui) s"
  shows "edits K memfd dev spaces holds fin sent ps (select_function key ui) (ed_open hw (editingBuf (fdkDumpPanel ui)) (holds (env s)))"
    "inputBuf (select_function key ui) = key"
proof -
  let ?v = "ui\<lparr>inputBuf := key, fdkPreviousHwFunc := fdkHwFunc ui, fdkHwFunc := hw\<rparr>"
  have nk: "key \<noteq> KEY_F 1" "key \<noteq> KBPRS_ESC" "next_function key x = hw" for x
    using sel by (auto simp: ed_selects_def next_function_def KBPRS_ESC_def split: if_splits)
  have w: "select_function key ui = switchFunction ?v"
    using nk ui by (auto simp: select_function_def key_toggles_def Let_def)
  have "hw \<noteq> KHF_PCIL" using kind [OF hw] by (auto simp: byte_kinds_def)
  then have info: "infoStr (fdkDumpPanel (switchFunction ?v)) \<noteq> None" by (intro switchFunction_info) simp
  have buf: "editingBuf (fdkDumpPanel (switchFunction ?v)) = editingBuf (fdkDumpPanel ui)"
    by (subst switchFunction_eq) simp
  show "edits K memfd dev spaces holds fin sent ps (select_function key ui) (ed_open hw (editingBuf (fdkDumpPanel ui)) (holds (env s)))"
    using info hw buf ui s unfolding w by (auto simp: edits_def ed_open_def ed_off_def ed_in_screen_def)
  show "inputBuf (select_function key ui) = key" unfolding w by simp
qed

lemma select_edits:
  assumes e: "edits K memfd dev spaces holds fin sent ps ui ed" and st: "stays spaces key"
  shows "edits K memfd dev spaces holds fin sent ps (select_function key ui) (ed_select key ed)"
    "inputBuf (select_function key ui) = key"
proof -
  have p: "panel_is ui ed" "ed_hw ed \<in> spaces" "fdkHwFunc ui = ed_hw ed" using e by (simp_all add: panel_edits panel_is_def)
  note n = next_function_spaces [OF st kind [OF p(2)]]
  have npl: "ed_hw ed \<noteq> KHF_PCIL" using kind [OF p(2)] by (auto simp: byte_kinds_def)
  show "inputBuf (select_function key ui) = key"
    by (simp add: select_function_def key_toggles_def Let_def)
  show "edits K memfd dev spaces holds fin sent ps (select_function key ui) (ed_select key ed)"
  proof (cases "ed_selects key")
    case None
    then show ?thesis
      using e n p(3) by (auto simp: select_function_def key_toggles_def Let_def edits_def ed_select_def ed_off_def ed_in_screen_def)
  next
    case (Some hw)
    then have hw: "hw \<in> spaces" using st by (simp add: stays_def)
    show ?thesis
    proof (cases "hw = ed_hw ed")
      case True
      moreover have "key \<noteq> KEY_F 1" "key \<noteq> KBPRS_ESC" using Some by (auto simp: ed_selects_def KBPRS_ESC_def split: if_splits)
      ultimately show ?thesis
        using e n p(3) Some by (simp add: select_function_def key_toggles_def Let_def edits_def ed_select_def ed_key_def)
    next
      case False
      obtain s where s: "in_session K memfd dev fin sent ps (pktBuf ui) (ui_ch ui) s" "holds (env s) = ed_data ed"
        "editingBuf (fdkDumpPanel ui) = ed_buf ed"
        using e by (auto simp: edits_def)
      have "ed_select key ed = ed_open hw (ed_buf ed) (ed_data ed)"
        using Some False by (simp add: ed_select_def ed_key_def)
      then show ?thesis using switch_edits(1) [OF Some hw _ s(1)] False npl p(3) s(2,3) by simp
    qed
  qed
qed

lemma dump_turn_edits:
  assumes works and e: "edits K memfd dev spaces holds fin sent (ed_requests key ed @ ps) ui ed"
    and v: "ed_valid valid ed" "ed_valid valid (ed_key key ed)"
    and key: "inputBuf ui = key" and esc: "key = KBPRS_ESC \<longrightarrow> \<not> ed_editing ed" and sel: "ed_selects key \<in> {None, Some (ed_hw ed)}"
  shows "\<exists>u. dump_turn ui = Some u \<and> edits K memfd dev spaces holds fin sent ps u (ed_show (ed_key key ed)) \<and>
    shows_editor u (ed_show (ed_key key ed))"
proof -
  let ?u = "handleKeyPressForDumpPanel ui" and ?ed = "ed_key key ed"
  have h: "edits K memfd dev spaces holds fin sent (space_read (ed_hw ?ed) (ed_base ?ed) # ps) ?u ?ed"
    by (rule handle_key [OF assms(1,2,3,5-)])
  then obtain s where c: "in_session K memfd dev fin sent (space_read (ed_hw ?ed) (ed_base ?ed) # ps) (pktBuf ?u) (ui_ch ?u) s"
    and s: "holds (env s) = ed_data ?ed" by (auto simp: edits_def)
  have hw: "ed_hw ?ed \<in> spaces" "fdkHwFunc ?u = ed_hw ?ed" "byteBase (fdkDumpPanel ?u) = ed_base ?ed" using h by (simp_all add: edits_def)
  obtain buf ch s' where r: "readCurrent ?u = (0, ?u\<lparr>pktBuf := buf, ui_ch := ch\<rparr>)"
    and sd: "screen_data (?u\<lparr>pktBuf := buf, ui_ch := ch\<rparr>) = ed_screen ?ed" and suc: "hdr_errorCode buf = FDK_SUCCESS"
    and c': "in_session K memfd dev fin sent ps buf ch s'" "holds (env s') = ed_data ?ed"
    using read_screen [OF assms(1) hw(1) v(2) [unfolded ed_valid_def] hw(2,3) c] s by (auto simp: ed_screen_def)
  let ?v = "?u\<lparr>pktBuf := buf, ui_ch := ch\<rparr>"
  have hv: "fdkHwFunc ?v \<in> byte_kinds" "infoStr (fdkDumpPanel ?v) \<noteq> None" "hdr_errorCode (pktBuf ?v) = FDK_SUCCESS"
    using h suc kind [OF hw(1)] by (simp_all add: edits_def)
  have off: "nat (byteOffset (fdkDumpPanel ?v)) = 16 * ed_row ?ed + ed_col ?ed" "16 * ed_row ?ed + ed_col ?ed < 256"
    using h by (auto simp: edits_def ed_off_def ed_in_screen_def nat_add_distrib nat_mult_distrib)
  have cur: "screen_data ?v ! nat (byteOffset (fdkDumpPanel ?v)) = ed_data ?ed (ed_hw ?ed) (ed_addr ?ed)"
    using off(2) unfolding sd off(1) by (simp add: ed_screen_def phys_bytes_def ed_addr_def)
  have b: "ed_buf (ed_show ?ed) = (if toggleEditing (fdkDumpPanel ?v) then editingBuf (fdkDumpPanel ?v) else ed_data ?ed (ed_hw ?ed) (ed_addr ?ed))"
    using h by (simp add: edits_def ed_show_def)
  obtain u where u: "printDumpUpdatePanel ?v = Some u" "same_session ?v u"
    "fdkDumpPanel u = (fdkDumpPanel ?v)\<lparr>editingBuf := ed_buf (ed_show ?ed)\<rparr>"
    "window_text (ui_screen u) Dump_value = Some (value_text (screen_data ?v))"
    "window_text (ui_screen u) Dump_ascii = Some (ascii_text (screen_data ?v))"
    "window_text (ui_screen u) Dump_highlight = Some (fmt_X 2 (unat (ed_buf (ed_show ?ed))))"
    "window_text (ui_screen u) Dump_error = None"
    using kind_panel [OF hv cur [symmetric] b] by blast
  have sh: "ed_data (ed_show x) = ed_data x" "ed_base (ed_show x) = ed_base x" "ed_off (ed_show x) = ed_off x" "ed_hw (ed_show x) = ed_hw x"
    "ed_in_screen (ed_show x) = ed_in_screen x" "ed_editing (ed_show x) = ed_editing x" "ed_screen (ed_show x) = ed_screen x" for x
    by (simp_all add: ed_show_def ed_off_def ed_in_screen_def ed_screen_def)
  have "fdkHwFunc ui = ed_hw ed" "ed_hw ed \<in> byte_kinds" using e kind by (simp_all add: edits_def)
  then have "fdkHwFunc ui \<noteq> KHF_PCIL" by (auto simp: byte_kinds_def)
  then have "dump_turn ui = Some u" using u(1) r by (simp add: dump_turn_def)
  moreover have "edits K memfd dev spaces holds fin sent ps u (ed_show ?ed)"
    using h u(2,3) c' by (auto simp: edits_def same_session_def sh)
  moreover have "shows_editor u (ed_show ?ed)"
    using u(4-7) by (simp add: shows_editor_def sd sh)
  ultimately show ?thesis by blast
qed

lemma base_turn_edits:
  assumes "edits K memfd dev spaces holds fin sent ps ui ed" and "shows_editor ui ed"
  shows "edits K memfd dev spaces holds fin sent ps (updateStatusTimer clk (printBaseHelp ui)) ed"
    "shows_editor (updateStatusTimer clk (printBaseHelp ui)) ed"
proof -
  obtain b sc where u: "updateStatusTimer clk (printBaseHelp ui) = ui\<lparr>fdkBasePanel := b, ui_screen := sc\<rparr>"
    using base_turn by blast
  then show "edits K memfd dev spaces holds fin sent ps (updateStatusTimer clk (printBaseHelp ui)) ed"
    using assms(1) by (simp add: edits_def)
  show "shows_editor (updateStatusTimer clk (printBaseHelp ui)) ed"
    using assms(2) by (simp add: shows_editor_def updateStatusTimer_def printBaseHelp_def Let_def window_text_print
        split: prod.split option.split)
qed

text \<open>A turn once the function is selected.\<close>

lemma turn_edits:
  assumes works and "edits K memfd dev spaces holds fin sent (ed_requests key ed @ ps) (select_function key ui) ed"
    and "ed_valid valid ed" and "ed_valid valid (ed_key key ed)"
    and "inputBuf (select_function key ui) = key" and "key = KBPRS_ESC \<longrightarrow> \<not> ed_editing ed" and "ed_selects key \<in> {None, Some (ed_hw ed)}"
    and "\<not> (key = KBPRS_ESC \<and> \<not> toggleEditing (fdkDumpPanel ui))"
  shows "\<exists>u. ui_turn key clk ui = Next u \<and> edits K memfd dev spaces holds fin sent ps u (ed_show (ed_key key ed)) \<and>
    shows_editor u (ed_show (ed_key key ed))"
proof -
  obtain u where u: "dump_turn (select_function key ui) = Some u"
    "edits K memfd dev spaces holds fin sent ps u (ed_show (ed_key key ed))" "shows_editor u (ed_show (ed_key key ed))"
    using dump_turn_edits [OF assms(1-7)] by blast
  have "fdkHwFunc (select_function key ui) = ed_hw ed" "ed_hw ed \<in> byte_kinds"
    using assms(2) kind by (simp_all add: edits_def)
  then have "list_turn (select_function key ui) = select_function key ui" by (auto simp: list_turn_def byte_kinds_def)
  then have "ui_turn key clk ui = Next (updateStatusTimer clk (printBaseHelp u))"
    using assms(8) by (simp add: ui_turn_def u(1))
  then show ?thesis using base_turn_edits [OF u(2,3)] by blast
qed

lemma ui_turn_edits:
  assumes works and e: "edits K memfd dev spaces holds fin sent (ed_requests key ed @ ps) ui ed"
    and "ed_valid valid ed" and "ed_valid valid (ed_key key ed)" and "stays spaces key" and l: "\<not> ed_leaves key ed"
  shows "\<exists>u. ui_turn key clk ui = Next u \<and> edits K memfd dev spaces holds fin sent ps u (ed_show (ed_key key ed)) \<and>
    shows_editor u (ed_show (ed_key key ed))"
proof -
  note k = ed_select_key [OF l]
  have "edits K memfd dev spaces holds fin sent (ed_requests key (ed_select key ed) @ ps) (select_function key ui) (ed_select key ed)"
    using select_edits(1) [OF e assms(5)] by (simp only: k(2))
  moreover have "\<not> (key = KBPRS_ESC \<and> \<not> toggleEditing (fdkDumpPanel ui))"
    using e l by (simp add: ed_leaves_def edits_def)
  ultimately show ?thesis
    using turn_edits [OF assms(1) _ ed_select_valid [OF assms(3,4)] _ select_edits(2) [OF e assms(5)] k(4,3)] assms(4) k(1) by simp
qed

lemma ui_loop_edits:
  assumes works
  shows "edits K memfd dev spaces holds fin sent (ed_run_requests (map fst input) ed @ ps) ui ed \<Longrightarrow> shows_editor ui ed \<Longrightarrow>
    ed_within valid (map fst input) ed \<Longrightarrow> list_all (stays spaces) (map fst input) \<Longrightarrow>
    \<exists>u. ui_loop input ui = Some u \<and> edits K memfd dev spaces holds fin sent ps u (ed_run (map fst input) ed) \<and>
      shows_editor u (ed_run (map fst input) ed)"
proof (induction input arbitrary: ui ed)
  case Nil
  then show ?case by simp
next
  case (Cons kc input)
  obtain key clk where kc: "kc = (key, clk)" by (cases kc)
  let ?keys = "map fst input" and ?ed = "ed_show (ed_key key ed)"
  show ?case
  proof (cases "ed_leaves key ed")
    case True
    then have "ui_turn key clk ui = Return" using Cons.prems(1) by (simp add: ui_turn_def ed_leaves_def edits_def)
    then show ?thesis using True Cons.prems(1,2) by (auto simp: kc edits_def shows_editor_def)
  next
    case False
    have e: "edits K memfd dev spaces holds fin sent (ed_requests key ed @ ed_run_requests ?keys ?ed @ ps) ui ed"
      using Cons.prems(1) False by (simp add: kc)
    have v: "ed_valid valid ed" "ed_within valid ?keys ?ed" using Cons.prems(3) False by (simp_all add: kc)
    then have "ed_valid valid (ed_key key ed)"
      using ed_within_head [of valid ?keys ?ed] by (simp add: ed_valid_def ed_show_def split: if_splits)
    then obtain u where u: "ui_turn key clk ui = Next u" "edits K memfd dev spaces holds fin sent (ed_run_requests ?keys ?ed @ ps) u ?ed"
      "shows_editor u ?ed"
      using ui_turn_edits [OF assms e v(1) _ _ False, of clk] Cons.prems(4) by (auto simp: kc)
    then show ?thesis using Cons.IH [OF u(2,3) v(2)] Cons.prems(4) False by (simp add: kc)
  qed
qed

text \<open>The first key opens a view at address 0.\<close>

lemma runUi_edits:
  assumes works and "ui_started ui0" and "list_all (stays spaces) (map fst input)" and hw: "hw \<in> spaces"
    and "ed_within valid (map fst input) (ed_start hw (holds (env s)))"
    and "in_session K memfd dev fin sent (space_read hw 0 # ed_run_requests (map fst input) (ed_start hw (holds (env s))) @ ps)
      (pktBuf ui0) (ui_ch ui0) s"
  shows "\<exists>ui. runUi ((space_key hw, clk) # input) ui0 = Some ui \<and>
    shows_editor ui (ed_run (map fst input) (ed_start hw (holds (env s)))) \<and>
    edits K memfd dev spaces holds fin sent ps ui (ed_run (map fst input) (ed_start hw (holds (env s))))"
proof -
  let ?ui = "printBasePanel ui0" and ?key = "space_key hw"
  let ?ed = "ed_open hw (editingBuf (fdkDumpPanel ?ui)) (holds (env s))"
  let ?ps = "ed_run_requests (map fst input) (ed_start hw (holds (env s))) @ ps"
  obtain sc where ui: "?ui = ui0\<lparr>ui_screen := sc\<rparr>" using printBasePanel_eq [of ui0 KHF_INIT] by blast
  have kd: "hw \<in> byte_kinds" by (rule kind [OF hw])
  then have sel: "ed_selects ?key = Some hw" by (auto simp: byte_kinds_def space_key_def ed_selects_def)
  have "fdkHwFunc ?ui \<notin> {hw, KHF_PCIL}" using assms(2) kd by (auto simp: ui ui_started_def byte_kinds_def)
  moreover have "in_session K memfd dev fin sent (space_read hw 0 # ?ps) (pktBuf ?ui) (ui_ch ?ui) s"
    using assms(6) by (simp add: ui)
  ultimately have e: "edits K memfd dev spaces holds fin sent (space_read hw 0 # ?ps) (select_function ?key ?ui) ?ed"
    and inp: "inputBuf (select_function ?key ?ui) = ?key"
    using switch_edits [OF sel hw] by blast+
  have k: "ed_key ?key ?ed = ?ed" using sel by (simp add: ed_key_def ed_open_def)
  have rq: "ed_requests ?key ?ed = [space_read hw 0]"
    by (simp add: ed_requests_def k)
  have st: "ed_show ?ed = ed_start hw (holds (env s))" by (simp add: ed_show_def ed_start_def ed_open_def ed_addr_def)
  have v: "ed_valid valid ?ed"
    using ed_within_head [OF assms(5)] unfolding st [symmetric] by (simp add: ed_valid_def ed_show_def split: if_splits)
  have esc: "?key \<noteq> KBPRS_ESC" by (auto simp: space_key_def KBPRS_ESC_def split: fdkHwFunc_t.split)
  obtain u where u: "ui_turn ?key clk ?ui = Next u" "edits K memfd dev spaces holds fin sent ?ps u (ed_start hw (holds (env s)))"
    "shows_editor u (ed_start hw (holds (env s)))"
    using turn_edits [OF assms(1), of fin sent ?key ?ed ?ps ?ui clk] e inp k rq st v esc sel by (auto simp: ed_open_def)
  then show ?thesis using ui_loop_edits [OF assms(1) u(2,3) assms(5,3)] by (auto simp: runUi_def)
qed

end

section \<open>The memory view\<close>

definition sim_typing :: "key list" where
  "sim_typing = [KEY_RIGHT, KEY_NPAGE, KBPRS_ENTER, Key_char 0x35, Key_char 0x61, KBPRS_ENTER, KEY_UP, KBPRS_ESC]"

lemma two_digits: "unat (16 * x + 5 :: u8) mod 16 = 5"
proof -
  have "unat (16 * x + 5 :: u8) mod 16 = ((16 * unat x) mod 256 + 5) mod 256 mod 16" by (simp only: unat_word_ariths) simp
  also have "\<dots> = ((16 * unat x) mod 256 + 5) mod 16" by (rule mod_mod_cancel) simp
  also have "\<dots> = ((16 * unat x) mod 256 mod 16 + 5) mod 16" by (simp only: mod_add_left_eq)
  also have "(16 * unat x) mod 256 mod 16 = 16 * unat x mod 16" by (rule mod_mod_cancel) simp
  finally show ?thesis by simp
qed

lemma type_5A: "type_digit 0x61 (type_digit 0x35 b) = 0x5A"
  by (simp add: type_digit_def digit_val_def isdigit_def char_in_def two_digits)

lemma sim_typing_edits:
  "ed_data (ed_run sim_typing (ed_start KHF_MEM m)) = m(KHF_MEM := (m KHF_MEM)(0x101 := 0x5A))"
  by (simp add: sim_typing_def ed_start_def ed_show_def ed_key_def ed_page_def ed_store_def ed_leaves_def ed_addr_def
      KBPRS_ENTER_def KBPRS_ESC_def type_5A)

text \<open>
  The memory view is an editor of the target's memory. On a fresh console connected to the server of
  a machine whose memory can be mapped, after F5 and any keys that select no other function, the screen
  shows the 256 bytes at the address and the byte at the cursor that the specification has, the memory
  of the target is that of the specification, in which only committed bytes have changed, and the
  requests sent are exactly those the specification asks for: arrows, pages, digits, Enter and Escape go
  through the key handling, the packets, the handler and the mappings of \<open>/dev/mem\<close> without a loss.
\<close>

theorem console_edits_memory:
  assumes "mapped_machine K phys vm memfd" and "ui_started ui0" and "list_all (stays {KHF_MEM}) (map fst input)"
    and "start = ed_start KHF_MEM (memory_only phys (env s))"
    and "reqs = mem_read_request 0 FDK_BYTE_PER_SCREEN # ed_run_requests (map fst input) start"
    and "connected K memfd dev reqs (pktBuf ui0) (ui_ch ui0) s"
    and "ed = ed_run (map fst input) start"
  shows "\<exists>ui. runUi ((KEY_F 5, clk) # input) ui0 = Some ui \<and> shows_editor ui ed \<and>
    phys (env (snd (serve_spec K memfd dev reqs s))) = ed_data ed KHF_MEM \<and>
    ch_tx (ui_ch ui) = ch_tx (ui_ch ui0) @ concat reqs"
proof -
  have r: "in_session K memfd dev (snd (serve_spec K memfd dev reqs s)) (ch_tx (ui_ch ui0) @ concat reqs)
      (space_read KHF_MEM 0 # ed_run_requests (map fst input) start @ []) (pktBuf ui0) (ui_ch ui0) s"
    using in_session_start [OF assms(6)] by (simp add: assms(5) space_mem)
  obtain ui where "runUi ((KEY_F 5, clk) # input) ui0 = Some ui" "shows_editor ui ed"
    "edits K memfd dev {KHF_MEM} (memory_only phys) (snd (serve_spec K memfd dev reqs s)) (ch_tx (ui_ch ui0) @ concat reqs) [] ui ed"
    using mem_space.runUi_edits [OF assms(1-3) _ ed_within_all r [unfolded assms(4)], of clk]
    by (auto simp: space_key_def assms(4,7))
  moreover from this have "memory_only phys (env (snd (serve_spec K memfd dev reqs s))) = ed_data ed"
    "ch_tx (ui_ch ui) = ch_tx (ui_ch ui0) @ concat reqs"
    by (auto simp: edits_def in_session_def)
  moreover have "memory_only phys e KHF_MEM = phys e" for e by (simp add: memory_only_def)
  ultimately show ?thesis by metis
qed

end
