(* ===== verification/Cfdk_Run.thy ===== *)
theory Cfdk_Run
  imports Cfdk_Editor
begin

text \<open>
  The console as a program: the ways a run of \<open>main\<close> in \<open>src_cfdk/cfdk.c\<close> can end, with what each gives
  back, and a whole run against the server, from the options to the exit status.
\<close>

section \<open>How the loop can fail\<close>









section \<open>What a run gives back\<close>









text \<open>The state of a client that has used some of the outcomes of its channel.\<close>

definition over :: "channel \<Rightarrow> fdkUiProperty_t \<Rightarrow> bool" where
  "over ch ui \<longleftrightarrow> suffix (ch_wr (ui_ch ui)) (ch_wr ch)"

lemma over_next: "over ch ui \<Longrightarrow> writes_on ui ui' \<Longrightarrow> over ch ui'"
  unfolding over_def writes_on_def by (rule suffix_order.trans)

lemma over_pending: "over ch ui \<Longrightarrow> WrPipe \<in> set (ch_wr (ui_ch ui)) \<Longrightarrow> WrPipe \<in> set (ch_wr ch)"
  by (auto simp: over_def dest: set_mono_suffix)









text \<open>
  The second end is met: a console that is started and whose server then closes the connection is killed in
  the turn of the first key, F5 for instance, with the terminal in the mode of curses.
\<close>

lemma executeFunction_pipe:
  assumes "build_request op addr sz cnt (replicate FDK_MAXSZ_PKT 0) = Some (len, pkt)" and "len \<noteq> 0"
    and "\<forall>bs. cnt = Some bs \<longrightarrow> length bs = unat sz" and "length buf = FDK_MAXSZ_PKT" and "ch_wr ch = WrPipe # r"
  shows "sigpipe ch (snd (snd (executeFunction op addr sz cnt buf FDK_MAXSZ_PKT ch)))"
proof -
  have b: "length pkt = FDK_MAXSZ_PKT" "len \<le> FDK_MAXSZ_PKT"
    using build_request_bounds [OF assms(1) _ assms(3)] assms(2) by simp_all
  let ?q = "finish_request op len pkt"
  note f = finish_request_facts [OF b, where op = op]
  have "take len ?q \<noteq> []" using f(1) assms(2) by auto
  then have w: "writePacket ?q (WrPipe # r) = (- 1, [], r)"
    using assms(2) by (simp add: writePacket_def f(3) transferAll_write.simps [of _ "WrPipe # r"] Let_def)
  have z: "blit 0 (replicate FDK_MAXSZ_PKT 0) buf = replicate FDK_MAXSZ_PKT 0"
    using assms(4) by (simp add: blit_full)
  show ?thesis
    using assms(2,5) by (simp add: executeFunction_def z [simplified] assms(1) [simplified] w [simplified] sigpipe_def Let_def)
qed

theorem closed_connection_kills:
  assumes "ui_started u" and "ch_wr (ui_ch u) = WrPipe # r"
  shows "loop_killed ((KEY_F 5, clk) # input) (printBasePanel u)"
proof -
  let ?p = "printBasePanel u" let ?v = "list_turn (select_function (KEY_F 5) ?p)"
  have ok: "ui_ok ?p" by (rule ui_started_ok [OF assms(1)])
  have hw: "fdkHwFunc ?p = KHF_INIT" using assms(1) by (simp add: ui_started_def printBasePanel_def Let_def)
  then have s: "fdkHwFunc (select_function (KEY_F 5) ?p) = KHF_MEM" "inputBuf (select_function (KEY_F 5) ?p) = KEY_F 5"
    "\<not> toggleEditing (fdkDumpPanel (select_function (KEY_F 5) ?p))"
    by (simp_all add: select_function_def next_function_def key_toggles_def switchFunction_def printDumpBasePanel_def
        clearPciListUpdatePanel_def clearPciListBasePanel_def clearDumpUpdatePanel_def clearDumpBasePanel_def KBPRS_ESC_def Let_def)
  then have v: "?v = select_function (KEY_F 5) ?p" by (simp add: list_turn_def)
  have h: "handleKeyPressForDumpPanel ?v = ?v"
    using s by (simp add: v handleKeyPressForDumpPanel_def KBPRS_ENTER_def KBPRS_SPACE_def Let_def)
  have "ui_ok ?v" using select_function_ok(1) [OF ok, of "KEY_F 5"] by (simp add: v)
  then have len: "length (pktBuf ?v) = FDK_MAXSZ_PKT" by (rule ui_ok_length)
  have ch: "ui_ch ?v = ui_ch ?p" "ch_wr (ui_ch ?v) = WrPipe # r"
    using select_list_ch [of "KEY_F 5" ?p] assms(2) by (simp_all add: printBasePanel_def Let_def)
  have rd: "readCurrent ?v = execute ?v FDK_REQ_MEM_READ (byteBase (fdkDumpPanel ?v)) FDK_BYTE_PER_SCREEN None"
    using s(1) by (simp add: readCurrent_def readMemory_def v)
  have "sigpipe (ui_ch ?v) (snd (snd (executeFunction FDK_REQ_MEM_READ (byteBase (fdkDumpPanel ?v)) FDK_BYTE_PER_SCREEN None
      (pktBuf ?v) FDK_MAXSZ_PKT (ui_ch ?v))))"
    by (rule executeFunction_pipe [OF build_mem_read _ _ len ch(2)]) simp_all
  then have "sigpipe (ui_ch ?v) (ui_ch (snd (readCurrent ?v)))" by (simp add: rd execute_def split_def)
  moreover have "fdkHwFunc ?v = KHF_MEM" using s(1) by (simp only: v)
  then have "turn_requests (KEY_F 5) ?p = snd (readCurrent ?v)" by (simp only: turn_requests_def Let_def h) simp
  ultimately have "sigpipe (ui_ch ?p) (ui_ch (turn_requests (KEY_F 5) ?p))" by (simp only: ch(1))
  moreover have "ui_turn (KEY_F 5) clk ?p \<noteq> Return" by (simp add: ui_turn_def KBPRS_ESC_def split: option.split)
  ultimately show ?thesis by (simp split: turn.split)
qed

section \<open>A whole run\<close>

text \<open>
  The requests of a run in which the user opens the view \<open>hw\<close> and types \<open>keys\<close>; the spaces have the
  bytes \<open>m\<close> once the devices are listed.
\<close>

definition run_requests :: "fdkHwFunc_t \<Rightarrow> (fdkHwFunc_t \<Rightarrow> u64 \<Rightarrow> u8) \<Rightarrow> key list \<Rightarrow> u8 list list" where
  "run_requests hw m keys =
     [connect_request, pci_list_request, e820_list_request, space_read hw 0] @
     ed_run_requests keys (ed_start hw m) @ [disconnect_request]"

text \<open>The machine once its devices are listed.\<close>

definition listed :: "'w os \<Rightarrow> 'w sys \<Rightarrow> 'w" where
  "listed K s = env (snd (pciListDevices K pci_capacity s))"

text \<open>
  A console whose options are good, that has connected, has its memory and a terminal large enough, and
  to which the user types \<open>keys\<close>.
\<close>

definition console_up :: "cfdk_env \<Rightarrow> (char \<times> string) list \<Rightarrow> s32 \<Rightarrow> channel \<Rightarrow> bool" where
  "console_up ce args fd ch \<longleftrightarrow>
     (case cfdk_options args cfdk_defaults of
        Inl _ \<Rightarrow> False
      | Inr co \<Rightarrow> co_ttyDevice co = None \<and> ce_connect ce (co_ipAddr co) (co_port co) = Some (fd, ch)) \<and>
     0 \<le> fd \<and> ce_alloc ce = (True, True, True) \<and>
     FDK_MAX_LINE < fst (ce_terminal ce) \<and> FDK_MAX_COLUMN \<le> snd (ce_terminal ce)"

lemma console_up_session:
  assumes "console_up ce args fd ch"
  shows "\<exists>out path version. cfdk_main ce args = cfdk_session ce None fd out (initial_ui ch path version)"
proof -
  obtain co where o: "cfdk_options args cfdk_defaults = Inr co" "co_ttyDevice co = None"
    "ce_connect ce (co_ipAddr co) (co_port co) = Some (fd, ch)"
    using assms by (auto simp: console_up_def split: sum.splits)
  obtain path version out where "choose_ids (ce_files ce) (co_pciIdsPath co) = (path, version, out)"
    by (metis prod_cases3)
  then have "cfdk_main ce args = cfdk_session ce None fd out (initial_ui ch path version)"
    by (simp add: cfdk_main_def o)
  then show ?thesis by blast
qed

text \<open>The first three requests: the console is started, with the lists of the machine.\<close>

lemma session_started:
  assumes "in_session K memfd dev fin sent (connect_request # pci_list_request # e820_list_request # ps)
      (pktBuf (initial_ui ch path version)) (ui_ch (initial_ui ch path version)) s"
  shows "\<exists>u1 u2 u3 s'. cfdk_connectToFdkServer (initial_ui ch path version) = (0, u1) \<and>
    readPciList (loadPciNames fs) (True, True) u1 = (0, u2) \<and> readE820List True u2 = (0, u3) \<and> ui_started u3 \<and>
    pFdkPciDev u3 = Some (fst (pciListDevices K pci_capacity s)) \<and> env s' = listed K s \<and> in_session K memfd dev fin sent ps (pktBuf u3) (ui_ch u3) s'"
proof -
  let ?u0 = "initial_ui ch path version"
  obtain devs s' where p: "pciListDevices K pci_capacity s = (devs, s')" by fastforce
  obtain buf ch1 where e: "executeFunction FDK_REQ_CONNECT 0 0 None (pktBuf ?u0) FDK_MAXSZ_PKT (ui_ch ?u0) = (0, buf, ch1)"
    and s1: "in_session K memfd dev fin sent (pci_list_request # e820_list_request # ps) buf ch1 s"
    using session_connect [OF assms] by blast
  obtain u1 where u1: "u1 = ?u0\<lparr>pktBuf := buf, ui_ch := ch1\<rparr>" by blast
  have con: "cfdk_connectToFdkServer ?u0 = (0, u1)"
    unfolding cfdk_connectToFdkServer_def execute_def e u1 by simp
  have s1': "in_session K memfd dev fin sent (pci_list_request # e820_list_request # ps) (pktBuf u1) (ui_ch u1) s"
    using s1 by (simp add: u1)
  from lists_session [OF s1' p, of fs]
  obtain u2 u3 ids buf2 ch2 n k where l: "readPciList (loadPciNames fs) (True, True) u1 = (0, u2)" "readE820List True u2 = (0, u3)"
    and u3: "u3 = u1\<lparr>pktBuf := buf2, ui_ch := ch2, pFdkPciDev := Some devs, pFdkPciIds := Some ids,
      numOfPciDevice := n, pFdkE820record := Some (e820ReadMap K e820_capacity s'), numOfE820Record := k\<rparr>"
    and len: "length ids = length devs" "unat n = length devs" "unat k = length (e820ReadMap K e820_capacity s')"
    and s3: "in_session K memfd dev fin sent ps buf2 ch2 s'"
    by blast
  have "length buf2 = FDK_MAXSZ_PKT" using s3 by (simp add: in_session_def connected_def)
  then have "ui_started u3" using len by (simp add: ui_started_def u3 u1 initial_ui_def lists_ok_def)
  moreover have "in_session K memfd dev fin sent ps (pktBuf u3) (ui_ch u3) s'" using s3 by (simp add: u3)
  moreover have "env s' = listed K s" "pFdkPciDev u3 = Some (fst (pciListDevices K pci_capacity s))"
    by (simp_all add: listed_def p u3)
  ultimately show ?thesis using con l by blast
qed

text \<open>
  The program around the loop: it connects, lists, runs and disconnects. \<open>P\<close> is what the run leaves on the
  screen, and \<open>Q\<close> what it leaves of the machine.
\<close>

lemma console_main:
  assumes up: "console_up ce args fd ch" and c: "connected K memfd dev reqs (replicate FDK_MAXSZ_PKT 0) ch s"
    and reqs: "reqs = [connect_request, pci_list_request, e820_list_request] @ view @ [disconnect_request]"
    and P: "\<And>u v. ui_screen u = ui_screen v \<Longrightarrow> P u = P v"
    and run: "\<And>u s' fin sent. ui_started u \<Longrightarrow> pFdkPciDev u = Some (fst (pciListDevices K pci_capacity s)) \<Longrightarrow>
      env s' = listed K s \<Longrightarrow> in_session K memfd dev fin sent (view @ [disconnect_request]) (pktBuf u) (ui_ch u) s' \<Longrightarrow>
      \<exists>ui s4. runUi (ce_input ce) u = Some ui \<and> P ui \<and> Q (env s4) \<and>
        in_session K memfd dev fin sent [disconnect_request] (pktBuf ui) (ui_ch ui) s4"
  shows "\<exists>cx u. cfdk_main ce args = Exits cx \<and> cx_status cx = 0 \<and> cx_closed cx = [fd] \<and> cx_ui cx = Some u \<and> P u \<and>
    ch_tx (ui_ch u) = ch_tx ch @ concat reqs \<and> Q (env (snd (serve_spec K memfd dev reqs s)))"
proof -
  let ?fin = "snd (serve_spec K memfd dev reqs s)" and ?sent = "ch_tx ch @ concat reqs"
  obtain out path version where main: "cfdk_main ce args = cfdk_session ce None fd out (initial_ui ch path version)"
    using console_up_session [OF up] by blast
  let ?u0 = "initial_ui ch path version"
  have "in_session K memfd dev ?fin ?sent (connect_request # pci_list_request # e820_list_request # view @ [disconnect_request])
      (pktBuf ?u0) (ui_ch ?u0) s"
    using in_session_start [OF c] by (simp add: reqs initial_ui_def)
  from session_started [OF this, of "ce_files ce"]
  obtain u1 u2 u3 s' where con: "cfdk_connectToFdkServer ?u0 = (0, u1)"
    and l: "readPciList (loadPciNames (ce_files ce)) (True, True) u1 = (0, u2)" "readE820List True u2 = (0, u3)"
    and st: "ui_started u3" "pFdkPciDev u3 = Some (fst (pciListDevices K pci_capacity s))" "env s' = listed K s"
      "in_session K memfd dev ?fin ?sent (view @ [disconnect_request]) (pktBuf u3) (ui_ch u3) s'"
    by blast
  obtain ui s4 where r: "runUi (ce_input ce) u3 = Some ui" "P ui" "Q (env s4)"
    "in_session K memfd dev ?fin ?sent [disconnect_request] (pktBuf ui) (ui_ch ui) s4"
    using run [OF st] by blast
  obtain e buf4 ch4 where d: "executeFunction FDK_REQ_DISCONNECT 0 0 None (pktBuf ui) FDK_MAXSZ_PKT (ui_ch ui) = (e, buf4, ch4)"
    "ch_tx ch4 = ?sent" "s4 = ?fin"
    using session_disconnect [OF r(4)] by blast
  have dis: "cfdk_disconnectFromFdkServer ui = ui\<lparr>pktBuf := buf4, ui_ch := ch4\<rparr>"
    unfolding cfdk_disconnectFromFdkServer_def execute_def d(1) by simp
  have ce: "0 \<le> fd" "ce_alloc ce = (True, True, True)" "FDK_MAX_LINE < fst (ce_terminal ce)" "FDK_MAX_COLUMN \<le> snd (ce_terminal ce)"
    using up by (simp_all add: console_up_def)
  have o0: "over ch ?u0" by (simp add: over_def initial_ui_def)
  have o1: "over ch u1" using over_next [OF o0 execute_wr] con by (metis cfdk_connectToFdkServer_def snd_conv)
  have o2: "over ch u2" using over_next [OF o1 readPciList_wr] l(1) by (metis snd_conv)
  have o3: "over ch u3" using over_next [OF o2 readE820List_wr] l(2) by (metis snd_conv)
  then have "over ch (printBasePanel u3)" by (simp add: over_def printBasePanel_def Let_def)
  moreover have ch: "WrPipe \<notin> set (ch_wr ch)" using c by (auto simp: connected_def list_all_iff)
  ultimately have lk: "\<not> loop_killed (ce_input ce) (printBasePanel u3)" using loop_killed_pending over_pending by blast
  have quiet: "\<not> sigpipe (ui_ch ?u0) c" "\<not> sigpipe (ui_ch u1) c" "\<not> sigpipe (ui_ch u2) c" "\<not> sigpipe (ui_ch ui) c" for c
    using ch o0 o1 o2 over_next [OF o3 runUi_wr [OF r(1)]] sigpipe_pending over_pending by blast+
  have "cfdk_session ce None fd out ?u0 = cfdk_cleanup True None fd 0 out (Initscr # terminal_setup @ [Endwin]) ui"
    using ce r(1) lk quiet by (simp add: cfdk_session_def con l Let_def)
  moreover obtain cx u where "cfdk_cleanup True None fd 0 out (Initscr # terminal_setup @ [Endwin]) ui = Exits cx"
    "cx_ui cx = Some u" "ui_screen u = ui_screen ui" "ch_tx (ui_ch u) = ?sent" "cx_status cx = 0" "cx_closed cx = [fd]"
    using d(2) ce(1) quiet(4) by (simp add: cfdk_cleanup_def dis Let_def)
  ultimately show ?thesis using r(2,3) d(3) P [of u ui] main by auto
qed

text \<open>With the editor as the run.\<close>

context byte_spaces
begin

lemma run_edits:
  assumes works and k: "list_all (stays spaces) (map fst input)" and "hw \<in> spaces"
    and up: "console_up ce args fd ch" and inp: "ce_input ce = (space_key hw, clk) # input"
    and start: "start = ed_start hw (holds (listed K s))"
    and reqs: "reqs = run_requests hw (holds (listed K s)) (map fst input)"
    and within: "ed_within valid (map fst input) start"
    and c: "connected K memfd dev reqs (replicate FDK_MAXSZ_PKT 0) ch s"
    and ed: "ed = ed_run (map fst input) start"
  shows "\<exists>cx u. cfdk_main ce args = Exits cx \<and> cx_status cx = 0 \<and> cx_closed cx = [fd] \<and> cx_ui cx = Some u \<and>
    shows_editor u ed \<and> ch_tx (ui_ch u) = ch_tx ch @ concat reqs \<and>
    holds (env (snd (serve_spec K memfd dev reqs s))) = ed_data ed"
proof (rule console_main [OF up c, where Q = "\<lambda>e. holds e = ed_data ed"])
  let ?view = "space_read hw 0 # ed_run_requests (map fst input) start"
  show "reqs = [connect_request, pci_list_request, e820_list_request] @ ?view @ [disconnect_request]"
    by (simp add: reqs run_requests_def start)
  show "shows_editor u ed = shows_editor v ed" if "ui_screen u = ui_screen v" for u v
    using that by (simp add: shows_editor_def)
  show "\<exists>ui s4. runUi (ce_input ce) u = Some ui \<and> shows_editor ui ed \<and> holds (env s4) = ed_data ed \<and>
      in_session K memfd dev fin sent [disconnect_request] (pktBuf ui) (ui_ch ui) s4"
    if h: "ui_started u" "env s' = listed K s" "in_session K memfd dev fin sent (?view @ [disconnect_request]) (pktBuf u) (ui_ch u) s'"
    for u s' fin sent
  proof -
    obtain ui where "runUi ((space_key hw, clk) # input) u = Some ui" "shows_editor ui ed"
      "edits K memfd dev spaces holds fin sent [disconnect_request] ui ed"
      using runUi_edits [OF assms(1) h(1) k assms(3), of s' fin sent "[disconnect_request]" clk] within h(2,3)
      unfolding start ed by auto
    then show ?thesis by (auto simp: inp edits_def)
  qed
qed

end

text \<open>
  C8: a whole run of the console against the server. Started with good options, it connects, lists, shows
  and edits the memory as the user types, and leaves with status 0; the last screen shows the target's
  memory, the memory has changed as the specification of the editor says and in no other byte, the bytes
  sent are the requests of the run from connect to disconnect, and the connection is closed.
\<close>

theorem console_run_edits_memory:
  assumes "mapped_machine K phys vm memfd" and "list_all (stays {KHF_MEM}) (map fst input)"
    and "console_up ce args fd ch" and "ce_input ce = (KEY_F 5, clk) # input"
    and "m = memory_only phys (listed K s)" and "reqs = run_requests KHF_MEM m (map fst input)"
    and "connected K memfd dev reqs (replicate FDK_MAXSZ_PKT 0) ch s"
    and "ed = ed_run (map fst input) (ed_start KHF_MEM m)"
  shows "\<exists>cx u. cfdk_main ce args = Exits cx \<and> cx_status cx = 0 \<and> cx_closed cx = [fd] \<and> cx_ui cx = Some u \<and>
    shows_editor u ed \<and> ch_tx (ui_ch u) = ch_tx ch @ concat reqs \<and>
    phys (env (snd (serve_spec K memfd dev reqs s))) = ed_data ed KHF_MEM"
proof -
  have inp: "ce_input ce = (space_key KHF_MEM, clk) # input" using assms(4) by (simp add: space_key_def)
  obtain cx u where r: "cfdk_main ce args = Exits cx" "cx_status cx = 0" "cx_closed cx = [fd]" "cx_ui cx = Some u" "shows_editor u ed"
    "ch_tx (ui_ch u) = ch_tx ch @ concat reqs" and d: "memory_only phys (env (snd (serve_spec K memfd dev reqs s))) = ed_data ed"
    using mem_space.run_edits [OF assms(1,2) _ assms(3) inp refl assms(6) [unfolded assms(5)] ed_within_all assms(7)
        assms(8) [unfolded assms(5)]] by blast
  from fun_cong [OF d, of KHF_MEM] have "phys (env (snd (serve_spec K memfd dev reqs s))) = ed_data ed KHF_MEM"
    by (simp add: memory_only_def)
  then show ?thesis using r by blast
qed

theorem console_run_edits_memory_witness:
  "\<exists>ce cx m s. map fst (ce_input ce) = KEY_F 5 # sim_typing \<and> cfdk_main ce [(CHR ''i'', ''target'')] = Exits cx \<and>
     cx_status cx = 0 \<and> cx_closed cx = [5] \<and> sim_mem (env s) = (m KHF_MEM)(0x101 := 0x5A) \<and>
     s = snd (serve_spec sim_os 3 None (run_requests KHF_MEM m sim_typing) sim_start)"
proof -
  let ?m = "memory_only sim_mem (listed sim_os sim_start)"
  let ?reqs = "run_requests KHF_MEM ?m sim_typing"
  let ?ch = "\<lparr>ch_rx = [Chunk (fst (serve_spec sim_os 3 None ?reqs sim_start))], ch_wr = [], ch_tx = []\<rparr>"
  let ?input = "map (\<lambda>k. (k, (- 1, None) :: clock)) sim_typing"
  let ?ce = "\<lparr>ce_files = \<lambda>p. None, ce_open = \<lambda>d. None, ce_tty = (0, 0, 0), ce_connect = \<lambda>h p. Some (5, ?ch),
    ce_alloc = (True, True, True), ce_terminal = (80, 200), ce_input = (KEY_F 5, (- 1, None)) # ?input\<rparr>"
  have inp: "map fst ?input = sim_typing" by (simp add: comp_def)
  have st: "list_all (stays {KHF_MEM}) (map fst ?input)"
    unfolding inp by (simp add: sim_typing_def stays_def KBPRS_ENTER_def KBPRS_ESC_def)
  have up: "console_up ?ce [(CHR ''i'', ''target'')] 5 ?ch"
    by (simp add: console_up_def cfdk_option_def FDK_MAX_LINE_def FDK_MAX_COLUMN_def)
  have c: "connected sim_os 3 None ?reqs (replicate FDK_MAXSZ_PKT 0) ?ch sim_start" by (simp add: connected_def)
  obtain cx where "cfdk_main ?ce [(CHR ''i'', ''target'')] = Exits cx" "cx_status cx = 0" "cx_closed cx = [5]"
    "sim_mem (env (snd (serve_spec sim_os 3 None ?reqs sim_start))) = ed_data (ed_run sim_typing (ed_start KHF_MEM ?m)) KHF_MEM"
    using console_run_edits_memory [OF sim_mapped st up _ refl _ c refl, of "(- 1, None)"] unfolding inp by auto
  then show ?thesis
    by (intro exI [of _ ?ce] exI [of _ cx] exI [of _ ?m] exI [of _ "snd (serve_spec sim_os 3 None ?reqs sim_start)"])
      (simp add: comp_def sim_typing_edits)
qed

text \<open>
  C7: a run over memory, disk and CMOS. On a machine with the three, the user opens any of the views,
  switches between them, moves, pages and edits; at the end each of the three has the bytes the
  specification of the editor says, so that a byte committed in one view changes that byte of that device
  and no byte of the two others, and the last screen shows the view last opened. Paging to a screen that
  reaches past the end of the disk is excluded.
\<close>

theorem console_run_edits_devices:
  assumes "three_devices K memfd dev phys nv disk bytes" and "list_all (stays byte_kinds) (map fst input)"
    and "hw \<in> byte_kinds" and "console_up ce args fd ch" and "ce_input ce = (space_key hw, clk) # input"
    and "m = device_bytes phys nv disk (listed K s)" and "reqs = run_requests hw m (map fst input)"
    and "ed_within (device_valid bytes) (map fst input) (ed_start hw m)"
    and "connected K memfd dev reqs (replicate FDK_MAXSZ_PKT 0) ch s"
    and "ed = ed_run (map fst input) (ed_start hw m)"
  shows "\<exists>cx u. cfdk_main ce args = Exits cx \<and> cx_status cx = 0 \<and> cx_closed cx = [fd] \<and> cx_ui cx = Some u \<and>
    shows_editor u ed \<and> ch_tx (ui_ch u) = ch_tx ch @ concat reqs \<and>
    device_bytes phys nv disk (env (snd (serve_spec K memfd dev reqs s))) = ed_data ed"
  by (rule device_space.run_edits [OF assms(1-5) refl assms(7) [unfolded assms(6)] assms(8) [unfolded assms(6)] assms(9)
        assms(10) [unfolded assms(6)]])

text \<open>
  The user writes 5Ah to byte 11h of CMOS, then to byte 101h of the disk, then to byte 0 of memory.
\<close>

definition bench_typing :: "key list" where
  "bench_typing =
     (let edit = [KBPRS_ENTER, Key_char 0x35, Key_char 0x61, KBPRS_ENTER]
      in [KEY_DOWN, KEY_RIGHT] @ edit @ [KEY_F 6, KEY_NPAGE, KEY_RIGHT] @ edit @ [KEY_F 5] @ edit @ [KBPRS_ESC])"

lemma bench_typing_run:
  "ed_data (ed_run bench_typing (ed_start KHF_CMOS m)) =
     m(KHF_CMOS := (m KHF_CMOS)(0x11 := 0x5A), KHF_IDE := (m KHF_IDE)(0x101 := 0x5A), KHF_MEM := (m KHF_MEM)(0 := 0x5A))"
  "ed_within (device_valid (2 ^ 64)) bench_typing (ed_start KHF_CMOS m)"
  by (simp_all add: bench_typing_def ed_start_def ed_show_def ed_key_def ed_selects_def ed_page_def ed_store_def ed_leaves_def
      ed_addr_def KBPRS_ENTER_def KBPRS_ESC_def type_5A ed_valid_def device_valid_def)

theorem console_run_edits_devices_witness:
  "\<exists>ce cx m s. map fst (ce_input ce) = KEY_F 7 # bench_typing \<and> cfdk_main ce [(CHR ''i'', ''target'')] = Exits cx \<and>
     cx_status cx = 0 \<and> cx_closed cx = [5] \<and> s = snd (serve_spec bench_os 3 (Some ''/dev/sda'') (run_requests KHF_CMOS m bench_typing) bench_start) \<and>
     device_bytes bn_mem bn_nv bn_disk (env s) =
       m(KHF_CMOS := (m KHF_CMOS)(0x11 := 0x5A), KHF_IDE := (m KHF_IDE)(0x101 := 0x5A), KHF_MEM := (m KHF_MEM)(0 := 0x5A))"
proof -
  let ?m = "device_bytes bn_mem bn_nv bn_disk (listed bench_os bench_start)"
  let ?reqs = "run_requests KHF_CMOS ?m bench_typing"
  let ?ch = "\<lparr>ch_rx = [Chunk (fst (serve_spec bench_os 3 (Some ''/dev/sda'') ?reqs bench_start))], ch_wr = [], ch_tx = []\<rparr>"
  let ?input = "map (\<lambda>k. (k, (- 1, None) :: clock)) bench_typing"
  let ?ce = "\<lparr>ce_files = \<lambda>p. None, ce_open = \<lambda>d. None, ce_tty = (0, 0, 0), ce_connect = \<lambda>h p. Some (5, ?ch),
    ce_alloc = (True, True, True), ce_terminal = (80, 200), ce_input = (KEY_F 7, (- 1, None)) # ?input\<rparr>"
  have inp: "map fst ?input = bench_typing" by (simp add: comp_def)
  have st: "list_all (stays byte_kinds) (map fst ?input)"
    unfolding inp by (simp add: bench_typing_def stays_def ed_selects_def byte_kinds_def KBPRS_ENTER_def KBPRS_ESC_def)
  have up: "console_up ?ce [(CHR ''i'', ''target'')] 5 ?ch"
    by (simp add: console_up_def cfdk_option_def FDK_MAX_LINE_def FDK_MAX_COLUMN_def)
  have c: "connected bench_os 3 (Some ''/dev/sda'') ?reqs (replicate FDK_MAXSZ_PKT 0) ?ch bench_start" by (simp add: connected_def)
  have key: "ce_input ?ce = (space_key KHF_CMOS, (- 1, None)) # ?input" by (simp add: space_key_def)
  have kind: "KHF_CMOS \<in> byte_kinds" by (simp add: byte_kinds_def)
  obtain cx where "cfdk_main ?ce [(CHR ''i'', ''target'')] = Exits cx" "cx_status cx = 0" "cx_closed cx = [5]"
    "device_bytes bn_mem bn_nv bn_disk (env (snd (serve_spec bench_os 3 (Some ''/dev/sda'') ?reqs bench_start))) =
      ed_data (ed_run bench_typing (ed_start KHF_CMOS ?m))"
    using console_run_edits_devices [OF bench_three_devices st kind up key refl _ _ c refl] bench_typing_run(2)
    unfolding inp by blast
  then show ?thesis
    by (intro exI [of _ ?ce] exI [of _ cx] exI [of _ ?m] exI [of _ "snd (serve_spec bench_os 3 (Some ''/dev/sda'') ?reqs bench_start)"])
      (simp add: comp_def bench_typing_run(1))
qed

end
