(* ===== verification/Pci_Device.thy ===== *)
theory Pci_Device
  imports Lib_Pci
begin

unbundle bit_operations_syntax

text \<open>
  What the two ways of access to PCI configuration space compute: mechanism 1 at ports CF8h and CFCh,
  and the files of sysfs. Each is a hypothesis on the machine; both show the same registers and list the
  same functions.
\<close>

section \<open>Configuration space\<close>

text \<open>The function of an address, without its register: segment, bus, device and function number.\<close>

definition pci_function :: "u32 \<Rightarrow> u32" where
  "pci_function addr = drop_bit 8 addr AND 0x7FFFFF"

text \<open>Configuration space gives each function 256 registers. \<open>n\<close> of them from register \<open>r\<close> on:\<close>

definition regs :: "(u32 \<Rightarrow> u8 \<Rightarrow> u8) \<Rightarrow> u32 \<Rightarrow> u8 \<Rightarrow> nat \<Rightarrow> u8 list" where
  "regs m f r n = map (\<lambda>i. m f (r + word_of_nat i)) [0..<n]"

lemma regs_Suc: "regs m f r (Suc n) = m f r # regs m f (r + 1) n"
  by (simp add: regs_def upt_conv_Cons map_Suc_upt [symmetric] add.assoc del: upt_Suc)

lemma length_regs [simp]: "length (regs m f r n) = n"
  by (simp add: regs_def)

text \<open>A function is there when its vendor is not FFFFh.\<close>

definition present :: "(u32 \<Rightarrow> u8 \<Rightarrow> u8) \<Rightarrow> u32 \<Rightarrow> bool" where
  "present m f \<longleftrightarrow> get16 0 (regs m f 0 4) \<noteq> 0xFFFF"

text \<open>The address of a slot of segment 0, as the scan forms it, and the functions of segment 0 in order.\<close>

definition slot_addr :: "u32 \<times> u32 \<times> u32 \<Rightarrow> u32" where
  "slot_addr t = (case t of (bus, dev, fun') \<Rightarrow>
     PCI_ADDR_ENABLE OR push_bit PCI_BUS_OFFSET bus OR push_bit PCI_DEV_OFFSET dev OR push_bit PCI_FUNC_OFFSET fun')"

definition pci_inventory :: "(u32 \<Rightarrow> u8 \<Rightarrow> u8) \<Rightarrow> fdkPciDev_t list" where
  "pci_inventory m =
     map (\<lambda>t. slot_record t (regs m (pci_function (slot_addr t)) 0 4))
       (filter (\<lambda>t. present m (pci_function (slot_addr t))) pci_slots)"

section \<open>Addresses\<close>

lemma u32_below: "unat (x :: u32) < 2 ^ n \<Longrightarrow> take_bit n x = x"
  by (simp add: word_unat_eq_iff unsigned_take_bit_eq take_bit_nat_eq_self)

lemma slot_below:
  assumes "(bus, dev, fun') \<in> set pci_slots"
  shows "take_bit 8 bus = bus" "take_bit 5 dev = dev" "take_bit 3 fun' = fun'"
proof -
  from assms obtain b d f where t: "bus = word_of_nat b" "dev = word_of_nat d" "fun' = word_of_nat f" "b < 256" "d < 32" "f < 8"
    by (auto simp: pci_slots_def)
  then have "unat bus < 2 ^ 8" "unat dev < 2 ^ 5" "unat fun' < 2 ^ 3" by (simp_all add: unat_of_nat take_bit_nat_eq_self)
  then show "take_bit 8 bus = bus" "take_bit 5 dev = dev" "take_bit 3 fun' = fun'" by (simp_all only: u32_below)
qed

lemma mask_and: "x AND 0x7F = take_bit 7 (x :: u32)" "x AND 0xFF = take_bit 8 (x :: u32)" "x AND 0x1F = take_bit 5 (x :: u32)"
  "x AND 7 = take_bit 3 (x :: u32)" "x AND 3 = take_bit 2 (x :: u32)" "x AND 0x7FFFFF = take_bit 23 (x :: u32)"
  "x AND 0xFFFF = take_bit 16 (x :: u32)"
  by (simp_all add: take_bit_eq_mask mask_eq_exp_minus_1)

lemma enable_bit: "bit (0x80000000 :: u32) n \<longleftrightarrow> n = 31"
proof -
  have "(0x80000000 :: u32) = 2 ^ 31" by simp
  then show ?thesis by (simp only: bit_exp_iff) auto
qed

lemma enable_low: "bit (0x80000000 :: nat) n \<longleftrightarrow> n = 31" "bit (0x80000000 :: int) n \<longleftrightarrow> n = 31"
proof -
  have e: "(0x80000000 :: nat) = 2 ^ 31" "(0x80000000 :: int) = 2 ^ 31" by simp_all
  show "bit (0x80000000 :: nat) n \<longleftrightarrow> n = 31" "bit (0x80000000 :: int) n \<longleftrightarrow> n = 31"
    unfolding e by (simp_all only: bit_exp_iff) auto
qed

lemma slot_fields:
  assumes "(bus, dev, fun') \<in> set pci_slots"
  shows "PCI_SEG (slot_addr (bus, dev, fun')) = 0" "PCI_BUS (slot_addr (bus, dev, fun')) = bus"
    "PCI_DEV (slot_addr (bus, dev, fun')) = dev" "PCI_FUNC (slot_addr (bus, dev, fun')) = fun'"
    "PCI_REG (slot_addr (bus, dev, fun')) = 0" "(ucast (slot_addr (bus, dev, fun')) :: u8) = 0"
proof -
  let ?a = "slot_addr (take_bit 8 bus, take_bit 5 dev, take_bit 3 fun')"
  note d = slot_addr_def pci_fields pci_consts mask_and enable_bit enable_low
  have "PCI_SEG ?a = 0" "PCI_BUS ?a = take_bit 8 bus" "PCI_DEV ?a = take_bit 5 dev" "PCI_FUNC ?a = take_bit 3 fun'"
    "PCI_REG ?a = 0" "(ucast ?a :: u8) = 0"
    by (rule bit_word_eqI; auto simp: d bit_simps)+
  then show "PCI_SEG (slot_addr (bus, dev, fun')) = 0" "PCI_BUS (slot_addr (bus, dev, fun')) = bus"
    "PCI_DEV (slot_addr (bus, dev, fun')) = dev" "PCI_FUNC (slot_addr (bus, dev, fun')) = fun'"
    "PCI_REG (slot_addr (bus, dev, fun')) = 0" "(ucast (slot_addr (bus, dev, fun')) :: u8) = 0"
    using slot_below [OF assms] by simp_all
qed

text \<open>A register of a legacy access: the value on the address port and the data port select it.\<close>

lemma pci_function_seg:
  assumes "PCI_SEG addr = 0"
  shows "pci_function addr = drop_bit 8 addr AND 0xFFFF"
proof -
  have z: "\<not> bit addr n" if "24 \<le> n" "n < 31" for n
  proof -
    have "\<not> bit (PCI_SEG addr) (n - 24)" by (simp add: assms)
    then show ?thesis using that by (auto simp: pci_fields pci_consts mask_and bit_simps)
  qed
  show ?thesis
  proof (rule bit_word_eqI)
    show "bit (pci_function addr) n = bit (drop_bit 8 addr AND 0xFFFF) n" for n
      using z [of "8 + n"] by (cases "n < 16") (auto simp: pci_function_def mask_and bit_simps)
  qed
qed

lemma selected_register:
  assumes "PCI_SEG addr = 0" and "PCI_REG addr + i \<le> PCI_REG_MASK" and "i \<le> 0x100"
  defines "v \<equiv> PCI_ADDR_ENABLE OR ((addr + i) AND 0x00FFFFFC)"
  shows "drop_bit 8 v AND 0xFFFF = pci_function addr" "bit v 31"
    "(ucast v AND 0xFC) OR ucast ((addr + i) AND 3) = ucast addr + (ucast i :: u8)"
proof -
  have m: "(0x00FFFFFC :: u32) = push_bit 2 (mask 22)" "(0xFC :: u8) = push_bit 2 (mask 6)"
    by (simp_all add: mask_eq_exp_minus_1 push_bit_eq_mult)
  have "drop_bit 8 v AND 0xFFFF = drop_bit 8 (addr + i) AND 0xFFFF"
    unfolding v_def m mask_and by (rule bit_word_eqI) (auto simp: pci_consts bit_simps enable_bit enable_low)
  then show "drop_bit 8 v AND 0xFFFF = pci_function addr"
    using same_function [OF assms(2,3)] pci_function_seg [OF assms(1)] by simp
  show "bit v 31" by (simp add: v_def pci_consts bit_simps enable_bit enable_low)
  have "(ucast v AND 0xFC) OR ucast ((addr + i) AND 3) = (ucast (addr + i) :: u8)"
    unfolding v_def m mask_and by (rule bit_word_eqI) (auto simp: pci_consts bit_simps enable_bit enable_low)
  also have "\<dots> = ucast addr + (ucast i :: u8)"
  proof (rule unsigned_word_eqI [where ?'a = nat])
    have "unat (ucast (addr + i) :: u8) = (unat addr + unat i) mod 4294967296 mod 256"
      by (simp add: unsigned_ucast_eq take_bit_eq_mod unat_word_ariths)
    also have "\<dots> = (unat addr + unat i) mod 256" by (rule mod_mod_cancel) simp
    also have "\<dots> = unat (ucast addr + (ucast i :: u8))"
      by (simp add: unsigned_ucast_eq take_bit_eq_mod unat_word_ariths mod_add_eq)
    finally show "unat (ucast (addr + i) :: u8) = unat (ucast addr + (ucast i :: u8))" .
  qed
  finally show "(ucast v AND 0xFC) OR ucast ((addr + i) AND 3) = ucast addr + (ucast i :: u8)" .
qed

section \<open>Mechanism 1\<close>

text \<open>
  Documented behaviour of the mechanism, on a machine without the files of sysfs: port CF8h holds an
  address, and while its top bit is set the byte ports CFCh to CFFh are the four registers of the dword
  it selects. \<open>cfg\<close> is configuration space and \<open>sel\<close> the address port; reading changes neither.
\<close>

definition config_ports :: "'w os \<Rightarrow> ('w \<Rightarrow> u32 \<Rightarrow> u8 \<Rightarrow> u8) \<Rightarrow> ('w \<Rightarrow> u32) \<Rightarrow> bool" where
  "config_ports K cfg sel \<longleftrightarrow> os_port_insn K \<and> (\<forall>e. \<not> os_access K PCI_SYSFS_DEVICES e) \<and>
     (\<forall>port n on e. fst (os_ioperm K port n on e) = 0 \<and> cfg (snd (os_ioperm K port n on e)) = cfg e) \<and>
     (\<forall>v e. cfg (os_outl K v 0xCF8 e) = cfg e \<and> sel (os_outl K v 0xCF8 e) = v) \<and>
     (\<forall>j e. j < 4 \<longrightarrow> bit (sel e) 31 \<longrightarrow>
       fst (os_inb K (0xCFC + ucast j) e) = cfg e (drop_bit 8 (sel e) AND 0xFFFF) ((ucast (sel e) AND 0xFC) OR ucast (j :: u32))) \<and>
     (\<forall>j e. j < 4 \<longrightarrow> cfg (snd (os_inb K (0xCFC + ucast (j :: u32)) e)) = cfg e)"

lemma legacy_bytes_regs:
  assumes "config_ports K cfg sel" and "PCI_SEG addr = 0"
  shows "unat addr mod 256 + unat i + length bs \<le> 256 \<Longrightarrow>
    fst (pci_legacy_bytes K addr i bs False s) =
      (i + word_of_nat (length bs), regs (cfg (env s)) (pci_function addr) (ucast addr + ucast i) (length bs)) \<and>
    cfg (env (snd (pci_legacy_bytes K addr i bs False s))) = cfg (env s)"
proof (induction bs arbitrary: i s)
  case Nil
  then show ?case by (simp add: regs_def)
next
  case (Cons b bs)
  have i: "unat i \<le> 255" "i \<le> 0x100" using Cons.prems by (simp_all add: word_le_nat_alt)
  have reg: "PCI_REG addr + i \<le> PCI_REG_MASK"
    using Cons.prems unat_reg_sum [OF i(2), of addr] by (simp add: word_le_nat_alt pci_consts)
  let ?v = "PCI_ADDR_ENABLE OR ((addr + i) AND 0x00FFFFFC)" and ?j = "(addr + i) AND 3"
  let ?s1 = "sys_outl K ?v PCI_LEGACY_ADDR_PORT s"
  let ?s2 = "snd (sys_inb K (PCI_LEGACY_DATA_PORT + ucast ?j) ?s1)"
  note sr = selected_register [OF assms(2) reg i(2)]
  have j: "?j < 4"
    using word_and_le1 [of "addr + i" 3] by (auto simp: word_le_nat_alt word_less_nat_alt)
  have s1: "cfg (env ?s1) = cfg (env s)" "sel (env ?s1) = ?v"
    using assms(1) by (simp_all add: config_ports_def sys_outl_def pci_ports)
  have b: "fst (sys_inb K (PCI_LEGACY_DATA_PORT + ucast ?j) ?s1) = cfg (env s) (pci_function addr) (ucast addr + ucast i)"
    using assms(1) j s1 sr by (simp add: config_ports_def sys_inb_def split_def Let_def pci_ports)
  have s2: "cfg (env ?s2) = cfg (env s)"
    using assms(1) j s1 by (simp add: config_ports_def sys_inb_def split_def Let_def pci_ports)
  have u: "unat (i + 1) = Suc (unat i)" using i(1) by (simp add: unat_word_ariths)
  have w: "(ucast (i + 1) :: u8) = ucast i + 1"
    using i(1) u by (simp add: word_unat_eq_iff unsigned_ucast_eq unat_word_ariths take_bit_eq_mod mod_Suc_eq)
  have "fst (pci_legacy_bytes K addr (i + 1) bs False ?s2) =
      (i + 1 + word_of_nat (length bs), regs (cfg (env ?s2)) (pci_function addr) (ucast addr + ucast (i + 1)) (length bs)) \<and>
    cfg (env (snd (pci_legacy_bytes K addr (i + 1) bs False ?s2))) = cfg (env ?s2)"
    using Cons.prems u by (intro Cons.IH) simp
  then show ?case
    using reg b s2 by (simp add: split_def Let_def regs_Suc w add.assoc add.commute [of 1])
qed

lemma legacy_access_regs:
  assumes "config_ports K cfg sel" and "PCI_SEG addr = 0" and "unat addr mod 256 + unat n \<le> 256" and "length buf = unat n"
  shows "\<exists>s'. pciLegacyAccess K addr n buf False s = ((0, regs (cfg (env s)) (pci_function addr) (ucast addr) (unat n)), s') \<and>
    cfg (env s') = cfg (env s)"
proof -
  let ?s1 = "snd (sys_ioperm K PCI_LEGACY_ADDR_PORT PCI_LEGACY_NPORTS True s)"
  have io: "fst (sys_ioperm K p k on t) = 0" "cfg (env (snd (sys_ioperm K p k on t))) = cfg (env t)" for p k on t
    using assms(1) by (simp_all add: config_ports_def sys_ioperm_def split_def Let_def)
  obtain vs s2 where b: "pci_legacy_bytes K addr 0 buf False ?s1 = ((n, vs), s2)"
    "vs = regs (cfg (env s)) (pci_function addr) (ucast addr) (unat n)" "cfg (env s2) = cfg (env s)"
    using legacy_bytes_regs [OF assms(1,2), of 0 buf ?s1] assms(3,4) io(2)
    by (cases "pci_legacy_bytes K addr 0 buf False ?s1") auto
  then show ?thesis
    using assms(2,4) io by (simp add: pciLegacyAccess_def split_def Let_def blit_full)
qed

lemma slot_function_addr:
  assumes "t \<in> set pci_slots"
  shows "PCI_SEG (slot_addr t) = 0" "unat (slot_addr t) mod 256 = 0" "ucast (slot_addr t) = (0 :: u8)"
proof -
  obtain bus dev fun' where t: "t = (bus, dev, fun')" by (metis prod_cases3)
  note f = slot_fields [OF assms [unfolded t]]
  show "PCI_SEG (slot_addr t) = 0" "ucast (slot_addr t) = (0 :: u8)" using f by (simp_all add: t)
  have "unat (ucast (slot_addr t) :: u8) = 0" using f by (simp add: t)
  then show "unat (slot_addr t) mod 256 = 0" by (simp add: unsigned_ucast_eq take_bit_eq_mod)
qed

lemma legacy_loop_inventory:
  assumes "config_ports K cfg sel"
  shows "set slots \<subseteq> set pci_slots \<Longrightarrow> length recs \<le> limit \<Longrightarrow>
    fst (pci_legacy_loop K limit recs slots s) = take limit (recs @
      map (\<lambda>t. slot_record t (regs (cfg (env s)) (pci_function (slot_addr t)) 0 4))
        (filter (\<lambda>t. present (cfg (env s)) (pci_function (slot_addr t))) slots)) \<and>
    cfg (env (snd (pci_legacy_loop K limit recs slots s))) = cfg (env s)"
proof (induction slots arbitrary: recs s)
  case Nil
  then show ?case by simp
next
  case (Cons t slots)
  obtain bus dev fun' where t: "t = (bus, dev, fun')" by (metis prod_cases3)
  show ?case
  proof (cases "length recs < limit")
    case False
    then show ?thesis using Cons.IH [of recs s] Cons.prems by (simp add: t)
  next
    case True
    note a = slot_function_addr [of t]
    obtain s1 where r: "pciLegacyAccess K (slot_addr t) 4 (replicate 4 0) False s =
        ((0, regs (cfg (env s)) (pci_function (slot_addr t)) 0 4), s1)" "cfg (env s1) = cfg (env s)"
      using legacy_access_regs [OF assms, of "slot_addr t" 4 "replicate 4 0" s] a Cons.prems by auto
    then have "pciLegacyAccess K (PCI_ADDR_ENABLE OR push_bit PCI_BUS_OFFSET bus OR push_bit PCI_DEV_OFFSET dev OR push_bit PCI_FUNC_OFFSET fun')
        4 (replicate 4 0) False s = ((0, regs (cfg (env s)) (pci_function (slot_addr t)) 0 4), s1)"
      by (simp add: t slot_addr_def)
    then show ?thesis
      using True Cons.prems Cons.IH [of recs s1] r(2)
        Cons.IH [of "recs @ [slot_record t (regs (cfg (env s)) (pci_function (slot_addr t)) 0 4)]" s1]
      by (simp add: t present_def) (simp add: slot_record_def)
  qed
qed

lemma legacy_list_inventory:
  assumes "config_ports K cfg sel"
  shows "\<exists>s'. pciListDevices K limit s = (take (unat limit) (pci_inventory (cfg (env s))), s') \<and> cfg (env s') = cfg (env s)"
proof -
  have "\<not> pciHaveSysfs K s" "os_port_insn K" using assms by (simp_all add: config_ports_def pciHaveSysfs_def)
  then show ?thesis
    using legacy_loop_inventory [OF assms, of pci_slots "[]" "unat limit" s]
    by (cases "pci_legacy_loop K (unat limit) [] pci_slots s") (auto simp: pciListDevices_def pciListLegacy_def pci_inventory_def)
qed

section \<open>The files of sysfs\<close>

definition config_path :: "u32 \<Rightarrow> string" where
  "config_path addr = PCI_SYSFS_DEVICES @ ''/'' @ pci_slot_name addr @ ''/config''"

text \<open>
  Documented behaviour of sysfs, on a machine with one segment: the directory has an entry for each
  function that is there, named by its address, besides its own two entries, and the \<open>config\<close> file of an
  entry holds the registers. \<open>file\<close> tells the function a descriptor refers to; opening, reading and
  closing change no register.
\<close>

definition config_files :: "'w os \<Rightarrow> ('w \<Rightarrow> u32 \<Rightarrow> u8 \<Rightarrow> u8) \<Rightarrow> ('w \<Rightarrow> s32 \<Rightarrow> u32 option) \<Rightarrow> bool" where
  "config_files K cfg file \<longleftrightarrow> (\<forall>e. os_access K PCI_SYSFS_DEVICES e) \<and>
     (\<forall>e. \<exists>names. os_dir K PCI_SYSFS_DEVICES e = Some names \<and> distinct names \<and> set names = {''.'', ''..''} \<union>
       (\<lambda>t. pci_slot_name (slot_addr t)) ` {t \<in> set pci_slots. present (cfg e) (pci_function (slot_addr t))}) \<and>
     (\<forall>addr fl e fd e'. os_open K (config_path addr) fl e = (fd, e') \<longrightarrow> cfg e' = cfg e \<and>
       (present (cfg e) (pci_function addr) \<longrightarrow> 0 \<le> fd \<and> file e' fd = Some (pci_function addr))) \<and>
     (\<forall>fd f len off e. file e fd = Some f \<longrightarrow> unat off + len \<le> 256 \<longrightarrow>
       fst (os_pread K fd len off e) = Some (regs (cfg e) f (ucast off) len) \<and> cfg (snd (os_pread K fd len off e)) = cfg e) \<and>
     (\<forall>fd e. cfg (os_close K fd e) = cfg e)"

lemma field_bounds: "unat (PCI_SEG a) < 16 ^ 4" "unat (PCI_BUS a) < 16 ^ 2" "unat (PCI_DEV a) < 16 ^ 2" "unat (PCI_FUNC a) < 16 ^ 1"
proof -
  have tb: "unat (take_bit n (x :: u32)) < 2 ^ n" for n x
    unfolding unsigned_take_bit_eq by (rule take_bit_nat_less_exp)
  note d = pci_fields pci_consts mask_and
  show "unat (PCI_SEG a) < 16 ^ 4" "unat (PCI_BUS a) < 16 ^ 2" "unat (PCI_DEV a) < 16 ^ 2" "unat (PCI_FUNC a) < 16 ^ 1"
    using tb [of 7 "drop_bit 24 a"] tb [of 8 "drop_bit 16 a"] tb [of 5 "drop_bit 11 a"] tb [of 3 "drop_bit 8 a"]
    by (simp_all add: d)
qed

lemma length_slot_name: "length (pci_slot_name addr) = 12"
  using field_bounds [of addr] by (simp add: pci_slot_name_def fmt_x_def length_fmt_X)

lemma config_paths:
  "pciSysfsConfigPath addr 256 = config_path addr"
  "snprintf_text 512 (PCI_SYSFS_DEVICES @ ''/'' @ pci_slot_name addr @ ''/config'') = config_path addr"
proof -
  have "length (config_path addr) = 40"
    unfolding config_path_def by (simp add: length_slot_name PCI_SYSFS_DEVICES_def)
  then show "pciSysfsConfigPath addr 256 = config_path addr"
    "snprintf_text 512 (PCI_SYSFS_DEVICES @ ''/'' @ pci_slot_name addr @ ''/config'') = config_path addr"
    unfolding pciSysfsConfigPath_def snprintf_text_def config_path_def [symmetric] by simp_all
qed

lemma config_files_calls:
  assumes "config_files K cfg file"
  shows "os_open K (config_path addr) fl e = (fd, e') \<Longrightarrow> cfg e' = cfg e"
    "os_open K (config_path addr) fl e = (fd, e') \<Longrightarrow> present (cfg e) (pci_function addr) \<Longrightarrow>
      0 \<le> fd \<and> file e' fd = Some (pci_function addr)"
    "file e fd = Some f \<Longrightarrow> unat off + len \<le> 256 \<Longrightarrow>
      fst (os_pread K fd len off e) = Some (regs (cfg e) f (ucast off) len) \<and> cfg (snd (os_pread K fd len off e)) = cfg e"
    "cfg (os_close K fd e) = cfg e"
  using assms by (simp_all add: config_files_def)

text \<open>A read of a config file, from opening to closing.\<close>

lemma config_file_read:
  assumes "config_files K cfg file" and "present (cfg (env s)) (pci_function addr)" and "unat off + len \<le> 256"
    and "length buf = len"
  shows "\<exists>fd s1 s2. sys_open K (config_path addr) fl s = (fd, s1) \<and> 0 \<le> fd \<and>
    sys_pread K fd len off buf s1 = ((int len, regs (cfg (env s)) (pci_function addr) (ucast off) len), s2) \<and>
    cfg (env (sys_close K fd s2)) = cfg (env s)"
proof -
  obtain fd e1 where o: "os_open K (config_path addr) fl (env s) = (fd, e1)" by fastforce
  note c = config_files_calls [OF assms(1)]
  have e1: "cfg e1 = cfg (env s)" "0 \<le> fd" "file e1 fd = Some (pci_function addr)"
    using c(1) [OF o] c(2) [OF o assms(2)] by simp_all
  have r: "fst (os_pread K fd len off e1) = Some (regs (cfg (env s)) (pci_function addr) (ucast off) len)"
    "cfg (snd (os_pread K fd len off e1)) = cfg (env s)"
    using c(3) [OF e1(3) assms(3)] e1(1) by simp_all
  show ?thesis
    using e1(2) r c(4) assms(4) by (simp add: sys_open_def o sys_pread_def sys_close_def split_def Let_def blit_full)
qed

lemma sysfs_access_regs:
  assumes "config_files K cfg file" and "present (cfg (env s)) (pci_function addr)" and "unat addr mod 256 + unat n \<le> 256"
    and "length buf = unat n"
  shows "\<exists>s'. pciSysfsAccess K addr n buf False s = ((0, regs (cfg (env s)) (pci_function addr) (ucast addr) (unat n)), s') \<and>
    cfg (env s') = cfg (env s)"
proof -
  have r: "unat (PCI_REG addr) = unat addr mod 256"
    using unat_reg_sum [of 0 addr] by simp
  then have u: "unat (ucast (PCI_REG addr) :: u64) = unat addr mod 256"
    by (simp add: unsigned_ucast_eq take_bit_nat_eq_self)
  have w: "(ucast (ucast (PCI_REG addr) :: u64) :: u8) = ucast addr"
    by (rule bit_word_eqI) (auto simp: pci_fields pci_consts mask_and bit_simps)
  have "unat (ucast (PCI_REG addr) :: u64) + unat n \<le> 256" using assms(3) u by simp
  from config_file_read [OF assms(1,2) this assms(4), of O_RDONLY] show ?thesis
    by (fastforce simp: pciSysfsAccess_def config_paths w)
qed

text \<open>An entry of the directory.\<close>

lemma sysfs_entry_record:
  assumes "config_files K cfg file" and t: "t \<in> set pci_slots" and "present (cfg (env s)) (pci_function (slot_addr t))"
  shows "\<exists>s'. pci_sysfs_entry K (pci_slot_name (slot_addr t)) s =
      (Some (slot_record t (regs (cfg (env s)) (pci_function (slot_addr t)) 0 4)), s') \<and> cfg (env s') = cfg (env s)"
proof -
  obtain bus dev fun' where te: "t = (bus, dev, fun')" by (metis prod_cases3)
  note f = slot_fields [OF t [unfolded te]]
  have scan: "pci_scan_name (pci_slot_name (slot_addr t)) = Some (0, bus, dev, fun')"
    using pci_name_round_trip [of "slot_addr t"] f by (simp add: te)
  have le: "x AND m \<le> m" for x m :: u32 by (rule word_and_le1)
  have b: "bus \<le> PCI_BUS_MASK" "dev \<le> PCI_DEV_MASK" "fun' \<le> PCI_FUNC_MASK"
    using le f(2-4) by (metis PCI_BUS_def, metis PCI_DEV_def, metis PCI_FUNC_def)
  have le4: "unat (0 :: u64) + 4 \<le> 256" by simp
  obtain fd s1 s2 where r: "sys_open K (config_path (slot_addr t)) O_RDONLY s = (fd, s1)" "0 \<le> fd"
    "sys_pread K fd 4 0 (replicate 4 0) s1 = ((4, regs (cfg (env s)) (pci_function (slot_addr t)) 0 4), s2)"
    "cfg (env (sys_close K fd s2)) = cfg (env s)"
    using config_file_read [OF assms(1,3) le4, of "replicate 4 0" O_RDONLY] by auto
  have path: "snprintf_text 512 (PCI_SYSFS_DEVICES @ ''/'' @ pci_slot_name (slot_addr t) @ ''/config'') = config_path (slot_addr t)"
    by (rule config_paths(2))
  show ?thesis
    using b r(2,4) unfolding pci_sysfs_entry_def scan option.case prod.case path r(1) Let_def
    by (simp add: r(3) not_less te slot_record_def pci_consts)
qed

text \<open>The whole directory, in any order.\<close>

definition entry_record :: "(u32 \<Rightarrow> u8 \<Rightarrow> u8) \<Rightarrow> string \<Rightarrow> fdkPciDev_t option" where
  "entry_record m name =
     (case pci_scan_name name of
        None \<Rightarrow> None
      | Some (seg, t) \<Rightarrow> Some (slot_record t (regs m (pci_function (slot_addr t)) 0 4)))"

definition pci_names :: "(u32 \<Rightarrow> u8 \<Rightarrow> u8) \<Rightarrow> string list" where
  "pci_names m = map (\<lambda>t. pci_slot_name (slot_addr t)) (filter (\<lambda>t. present m (pci_function (slot_addr t))) pci_slots)"

lemma scan_slot:
  assumes "t \<in> set pci_slots"
  shows "pci_scan_name (pci_slot_name (slot_addr t)) = Some (0, t)"
proof -
  obtain bus dev fun' where te: "t = (bus, dev, fun')" by (metis prod_cases3)
  show ?thesis using pci_name_round_trip [of "slot_addr t"] slot_fields [OF assms [unfolded te]] by (simp add: te)
qed

lemma scan_dots: "pci_scan_name ''.'' = None" "pci_scan_name ''..'' = None"
  by (simp_all add: pci_scan_name_def scan_x_def sign_prefix_def starts_with_def isspace_def isxdigit_def isdigit_def char_in_def Let_def)

lemma entry_record_simps:
  "entry_record m ''.'' = None" "entry_record m ''..'' = None"
  "t \<in> set pci_slots \<Longrightarrow> entry_record m (pci_slot_name (slot_addr t)) = Some (slot_record t (regs m (pci_function (slot_addr t)) 0 4))"
  by (simp_all add: entry_record_def scan_dots scan_slot)

lemma sysfs_loop_records:
  assumes "config_files K cfg file"
  shows "set names \<subseteq> {''.'', ''..''} \<union> set (pci_names (cfg (env s))) \<Longrightarrow>
    length recs + length (List.map_filter (entry_record (cfg (env s))) names) \<le> limit \<Longrightarrow>
    \<exists>s'. pci_sysfs_loop K limit recs names s = (recs @ List.map_filter (entry_record (cfg (env s))) names, s') \<and>
      cfg (env s') = cfg (env s)"
proof (induction names arbitrary: recs s)
  case Nil
  then show ?case by (simp add: List.map_filter_simps)
next
  case (Cons name names)
  show ?case
  proof (cases "name \<in> {''.'', ''..''}")
    case True
    then have e: "pci_sysfs_entry K name s = (None, s)" "entry_record (cfg (env s)) name = None"
      by (auto simp: pci_sysfs_entry_def scan_dots entry_record_simps)
    moreover have "\<not> length recs < limit \<Longrightarrow> List.map_filter (entry_record (cfg (env s))) names = []"
      using Cons.prems(2) e(2) by (simp add: List.map_filter_simps flip: length_0_conv)
    ultimately show ?thesis
      using Cons.IH [of s recs] Cons.prems by (cases "length recs < limit") (auto simp: List.map_filter_simps)
  next
    case False
    then obtain t where t: "t \<in> set pci_slots" "present (cfg (env s)) (pci_function (slot_addr t))" "name = pci_slot_name (slot_addr t)"
      using Cons.prems(1) by (auto simp: pci_names_def)
    obtain s1 where e: "pci_sysfs_entry K name s = (entry_record (cfg (env s)) name, s1)" "cfg (env s1) = cfg (env s)"
      using sysfs_entry_record [OF assms t(1,2)] t(3) entry_record_simps(3) [OF t(1)] by auto
    obtain d where d: "entry_record (cfg (env s)) name = Some d" using t(3) entry_record_simps(3) [OF t(1)] by auto
    have "length recs < limit" using Cons.prems(2) d by (simp add: List.map_filter_simps)
    then show ?thesis
      using Cons.IH [of s1 "recs @ [d]"] Cons.prems e d by (auto simp: List.map_filter_simps)
  qed
qed

lemma inventory_keys: "sorted (map pci_key (pci_inventory m))" "distinct (map pci_key (pci_inventory m))"
proof -
  let ?there = "filter (\<lambda>t. present m (pci_function (slot_addr t))) pci_slots"
  have k: "pci_key (slot_record t ids) = pci_key (slot_record t [])" for t ids
    by (simp add: slot_record_def pci_record_def pci_key_def split: prod.split)
  have "subseq ?there pci_slots" by (rule subseq_filter_left)
  from subseq_map [OF this, of "\<lambda>t. unat (pci_key (slot_record t []))"]
  have "sorted_wrt (<) (map (\<lambda>t. unat (pci_key (slot_record t []))) ?there)"
    unfolding keys_of_slots by (rule subseq_sorted_wrt) simp
  moreover have "map unat (map pci_key (pci_inventory m)) = map (\<lambda>t. unat (pci_key (slot_record t []))) ?there"
    by (auto simp: pci_inventory_def intro: arg_cong [OF k])
  ultimately have "sorted_wrt (<) (map unat (map pci_key (pci_inventory m)))" by (simp only:)
  then have "sorted_wrt (<) (map pci_key (pci_inventory m))" by (simp add: sorted_wrt_map word_less_nat_alt)
  then show "sorted (map pci_key (pci_inventory m))" "distinct (map pci_key (pci_inventory m))"
    by (simp_all add: strict_sorted_iff)
qed

lemma pci_names_distinct: "distinct (pci_names m)"
proof -
  have "distinct (map pci_key (pci_inventory m))" by (rule inventory_keys(2))
  then have "distinct (filter (\<lambda>t. present m (pci_function (slot_addr t))) pci_slots)"
    unfolding pci_inventory_def map_map by (rule distinct_map [THEN iffD1, THEN conjunct1])
  moreover have "inj_on (\<lambda>t. pci_slot_name (slot_addr t)) (set pci_slots)"
    by (rule inj_onI) (metis scan_slot option.inject prod.inject)
  ultimately show ?thesis
    unfolding pci_names_def by (auto simp: distinct_map intro: inj_on_subset)
qed

text \<open>The records of a directory with the right names are the inventory, in another order.\<close>

lemma directory_records:
  assumes "distinct names" and "set names = {''.'', ''..''} \<union> set (pci_names m)"
  shows "mset (List.map_filter (entry_record m) names) = mset (pci_inventory m)"
proof -
  have some: "entry_record m x \<noteq> None \<longleftrightarrow> x \<in> set (pci_names m)" if "x \<in> set names" for x
    using that assms(2) entry_record_simps by (force simp: pci_names_def)
  have "mset (filter (\<lambda>x. entry_record m x \<noteq> None) names) = mset (pci_names m)"
    using assms some pci_names_distinct [of m] by (subst set_eq_iff_mset_eq_distinct [symmetric]) auto
  then have "mset (map (\<lambda>x. the (entry_record m x)) (filter (\<lambda>x. entry_record m x \<noteq> None) names)) =
      mset (map (\<lambda>x. the (entry_record m x)) (pci_names m))"
    by (metis mset_map)
  moreover have "map (\<lambda>x. the (entry_record m x)) (pci_names m) = pci_inventory m"
    by (simp add: pci_names_def pci_inventory_def entry_record_simps)
  ultimately show ?thesis by (simp add: List.map_filter_def comp_def)
qed

lemma sysfs_list_inventory:
  assumes K: "config_files K cfg file" and "length (pci_inventory (cfg (env s))) \<le> unat limit"
  shows "\<exists>s'. pciListDevices K limit s = (pci_inventory (cfg (env s)), s') \<and> cfg (env s') = cfg (env s)"
proof -
  let ?m = "cfg (env s)"
  obtain names where d: "os_dir K PCI_SYSFS_DEVICES (env s) = Some names" "distinct names"
    "set names = {''.'', ''..''} \<union> set (pci_names ?m)"
    using K [unfolded config_files_def, THEN conjunct2, THEN conjunct1, THEN spec, of "env s"]
    by (auto simp: pci_names_def)
  let ?recs = "List.map_filter (entry_record ?m) names"
  note ms = directory_records [OF d(2,3)]
  have "length ?recs = length (pci_inventory ?m)" using arg_cong [OF ms, of size] by simp
  then obtain s' where l: "pci_sysfs_loop K (unat limit) [] names s = (?recs, s')" "cfg (env s') = ?m"
    using sysfs_loop_records [OF K, of names s "[]" "unat limit"] d(3) assms(2) by auto
  have "inj_on pci_key (set ?recs)"
    using inventory_keys(2) [of ?m] ms by (metis distinct_map mset_eq_setD)
  then have "qsort pciComparePciDev ?recs = pci_inventory ?m"
    unfolding pciComparePciDev_def using ms inventory_keys(1) by (intro sorting.result_unique) simp_all
  moreover have "pciHaveSysfs K s" using K by (simp add: config_files_def pciHaveSysfs_def)
  ultimately show ?thesis using d(1) l by (simp add: pciListDevices_def pciListSysfs_def)
qed

section \<open>The contract of both\<close>

text \<open>
  \<open>works K cfg\<close> is a machine that shows the configuration space \<open>cfg\<close>. Then the list is its inventory, when
  there is room for it, and a read within the function of a device that is there gives its registers.
\<close>

locale config_space =
  fixes works :: "'w os \<Rightarrow> ('w \<Rightarrow> u32 \<Rightarrow> u8 \<Rightarrow> u8) \<Rightarrow> bool"
  assumes list_law: "works K cfg \<Longrightarrow> length (pci_inventory (cfg (env s))) \<le> unat limit \<Longrightarrow>
      \<exists>s'. pciListDevices K limit s = (pci_inventory (cfg (env s)), s') \<and> cfg (env s') = cfg (env s)"
    and read_law: "works K cfg \<Longrightarrow> PCI_SEG addr = 0 \<Longrightarrow> present (cfg (env s)) (pci_function addr) \<Longrightarrow>
      unat addr mod 256 + unat n \<le> 256 \<Longrightarrow> length buf = unat n \<Longrightarrow>
      \<exists>s'. pciReadConfig K addr n buf s = ((0, regs (cfg (env s)) (pci_function addr) (ucast addr) (unat n)), s') \<and>
        cfg (env s') = cfg (env s)"
begin

text \<open>All the registers of a function the list may hold.\<close>

lemma read_slot:
  assumes "works K cfg" and "t \<in> set pci_slots" and "present (cfg (env s)) (pci_function (slot_addr t))" and "length buf = 256"
  shows "\<exists>s'. pciReadConfig K (slot_addr t) 256 buf s =
      ((0, regs (cfg (env s)) (pci_function (slot_addr t)) 0 256), s') \<and> cfg (env s') = cfg (env s)"
  using read_law [OF assms(1) _ assms(3), of 256 buf] slot_function_addr [OF assms(2)] assms(4) by simp

end

lemma pciReadConfig_filled:
  "length buf = unat n \<Longrightarrow> pciReadConfig K addr n buf s = pciAccess K addr n (replicate (unat n) 255) False s"
  by (simp add: pciReadConfig_def blit_full)

interpretation legacy_space: config_space "\<lambda>K cfg. config_ports K cfg sel" for sel :: "'w \<Rightarrow> u32"
proof (unfold_locales, goal_cases)
  case (1 K cfg s limit)
  then show ?case using legacy_list_inventory [OF 1(1), of limit s] by simp
next
  case (2 K cfg addr s n buf)
  have "\<not> pciHaveSysfs K s" "os_port_insn K" using 2(1) by (simp_all add: config_ports_def pciHaveSysfs_def)
  then show ?case
    using legacy_access_regs [OF 2(1,2,4), of "replicate (unat n) 255" s] by (simp add: pciReadConfig_filled [OF 2(5)] pciAccess_def)
qed

interpretation sysfs_space: config_space "\<lambda>K cfg. config_files K cfg refers" for refers :: "'w \<Rightarrow> s32 \<Rightarrow> u32 option"
proof (unfold_locales, goal_cases)
  case (1 K cfg s limit)
  then show ?case by (rule sysfs_list_inventory)
next
  case (2 K cfg addr s n buf)
  have "pciHaveSysfs K s" using 2(1) by (simp add: config_files_def pciHaveSysfs_def)
  then show ?case
    using sysfs_access_regs [OF 2(1,3,4), of "replicate (unat n) 255"] by (simp add: pciReadConfig_filled [OF 2(5)] pciAccess_def)
qed

section \<open>A machine of either kind\<close>

text \<open>A concrete one, with or without the files of sysfs, which shows that the hypotheses can hold.\<close>

record pci_bench =
  pb_cfg :: "u32 \<Rightarrow> u8 \<Rightarrow> u8"
  pb_sel :: u32
  pb_file :: "u32 option"

definition path_function :: "string \<Rightarrow> u32 option" where
  "path_function path =
     (case pci_scan_name (take 12 (drop (length PCI_SYSFS_DEVICES + 1) path)) of
        None \<Rightarrow> None
      | Some (seg, bus, dev, fun') \<Rightarrow> Some (push_bit 16 seg OR push_bit 8 bus OR push_bit 3 dev OR fun'))"

definition pci_bench_inb :: "u16 \<Rightarrow> pci_bench \<Rightarrow> u8 \<times> pci_bench" where
  "pci_bench_inb port e =
     (if bit (pb_sel e) 31 \<and> 0xCFC \<le> port \<and> port \<le> 0xCFF
      then pb_cfg e (drop_bit 8 (pb_sel e) AND 0xFFFF) ((ucast (pb_sel e) AND 0xFC) OR ucast (port - 0xCFC)) else 255, e)"

definition pci_bench_os :: "bool \<Rightarrow> pci_bench os" where
  "pci_bench_os sysfs = \<lparr>os_page_size = 4096, os_port_insn = True,
     os_open = (\<lambda>path fl e. (if path_function path = None then - 1 else 7, e\<lparr>pb_file := path_function path\<rparr>)),
     os_close = (\<lambda>fd e. e), os_pread = (\<lambda>fd len off e. (Some (regs (pb_cfg e) (the (pb_file e)) (ucast off) len), e)),
     os_pwrite = (\<lambda>fd bs off e. (- 1, e)), os_fsync = (\<lambda>fd e. (0, e)), os_mmap = (\<lambda>fd len base e. (None, e)),
     os_munmap = (\<lambda>p len e. e), os_load = (\<lambda>w q e. (0, e)), os_store = (\<lambda>w q v e. e),
     os_ioperm = (\<lambda>port n on e. (0, e)), os_inb = pci_bench_inb, os_outb = (\<lambda>v port e. e),
     os_outl = (\<lambda>v port e. if port = 0xCF8 then e\<lparr>pb_sel := v\<rparr> else e),
     os_access = (\<lambda>path e. sysfs), os_dir = (\<lambda>path e. Some (''.'' # ''..'' # pci_names (pb_cfg e))),
     os_file = (\<lambda>path e. None)\<rparr>"

text \<open>Its configuration space: a host bridge, and a device of bus 1 with its number in each register.\<close>

definition bench_regs :: "u32 \<Rightarrow> u8 \<Rightarrow> u8" where
  "bench_regs f r = (if f = 0 then (if r = 1 \<or> r = 3 then 0x12 else 0x37) else if f = 0x108 then r else 255)"

definition pci_bench_start :: "pci_bench sys" where
  "pci_bench_start = \<lparr>env = \<lparr>pb_cfg = bench_regs, pb_sel = 0, pb_file = None\<rparr>, log = []\<rparr>"

lemma path_function_config: "path_function (config_path addr) = Some (pci_function addr)"
proof -
  have "take 12 (drop (length PCI_SYSFS_DEVICES + 1) (config_path addr)) = pci_slot_name addr"
    using length_slot_name [of addr] by (simp add: config_path_def)
  moreover have "push_bit 16 (PCI_SEG addr) OR push_bit 8 (PCI_BUS addr) OR push_bit 3 (PCI_DEV addr) OR PCI_FUNC addr = pci_function addr"
  proof (rule bit_word_eqI)
    fix n assume "n < LENGTH(32)"
    then have "n < 3 \<or> 3 \<le> n \<and> n < 8 \<or> 8 \<le> n \<and> n < 16 \<or> 16 \<le> n \<and> n < 23 \<or> 23 \<le> n \<and> n < 32" by auto
    then show "bit (push_bit 16 (PCI_SEG addr) OR push_bit 8 (PCI_BUS addr) OR push_bit 3 (PCI_DEV addr) OR PCI_FUNC addr) n =
        bit (pci_function addr) n"
      by (auto simp: pci_function_def pci_fields pci_consts mask_and bit_simps)
  qed
  ultimately show ?thesis by (simp add: path_function_def pci_name_round_trip)
qed

lemma bench_config_ports: "config_ports (pci_bench_os False) pb_cfg pb_sel"
proof -
  have "j < 4 \<Longrightarrow> (0xCFC :: u16) \<le> 0xCFC + ucast j \<and> 0xCFC + ucast j \<le> (0xCFF :: u16)" for j :: u32
    by (simp add: word_le_nat_alt word_less_nat_alt unat_word_ariths unsigned_ucast_eq take_bit_nat_eq_self)
  moreover have "j < 4 \<Longrightarrow> ucast (ucast j :: u16) = (ucast j :: u8)" for j :: u32
    by (rule bit_word_eqI) (simp add: bit_ucast_iff)
  ultimately show ?thesis
    by (auto simp: config_ports_def pci_bench_os_def pci_bench_inb_def)
qed

lemma bench_config_files: "config_files (pci_bench_os True) pb_cfg (\<lambda>e fd. pb_file e)"
proof -
  have "''.'' \<notin> set (pci_names m)" "''..'' \<notin> set (pci_names m)" for m
    using entry_record_simps by (force simp: pci_names_def)+
  then show ?thesis
    using pci_names_distinct
    by (auto simp: config_files_def pci_bench_os_def path_function_config pci_names_def)
qed

section \<open>Both ways agree\<close>

text \<open>
  C10: two machines that show the same configuration space, one through the ports of mechanism 1 and one
  through the files of sysfs, get the same list, which is the inventory of the functions that are there
  in the order of their slots, and the same bytes of any register range of a function that is there.
\<close>

theorem pci_mechanisms_agree:
  assumes "config_ports K cfg sel" and "config_files K' cfg' f" and "cfg (env s) = m" and "cfg' (env s') = m"
    and "length (pci_inventory m) \<le> unat limit"
    and "PCI_SEG addr = 0" and "present m (pci_function addr)" and "unat addr mod 256 + unat n \<le> 256"
    and "length buf = unat n" and "length buf' = unat n"
  shows "fst (pciListDevices K limit s) = pci_inventory m \<and> fst (pciListDevices K' limit s') = pci_inventory m \<and>
    fst (pciReadConfig K addr n buf s) = (0, regs m (pci_function addr) (ucast addr) (unat n)) \<and>
    fst (pciReadConfig K' addr n buf' s') = (0, regs m (pci_function addr) (ucast addr) (unat n))"
  using legacy_space.list_law [OF assms(1), of s limit] sysfs_space.list_law [OF assms(2), of s' limit]
    legacy_space.read_law [OF assms(1,6) _ assms(8,9), of s] sysfs_space.read_law [OF assms(2,6) _ assms(8,10), of s']
    assms(3-5,7) by auto

text \<open>The registers 10h to 13h of the device of bus 1, on both benches.\<close>

theorem pci_mechanisms_agree_witness:
  "fst (pciListDevices (pci_bench_os False) 65536 pci_bench_start) = fst (pciListDevices (pci_bench_os True) 65536 pci_bench_start) \<and>
   fst (pciReadConfig (pci_bench_os False) 0x80010810 4 [0, 0, 0, 0] pci_bench_start) = (0, [0x10, 0x11, 0x12, 0x13]) \<and>
   fst (pciReadConfig (pci_bench_os True) 0x80010810 4 [0, 0, 0, 0] pci_bench_start) = (0, [0x10, 0x11, 0x12, 0x13])"
proof -
  have u: "[0..<4] = [0, 1, 2, 3]" by (simp add: upt_conv_Cons eval_nat_numeral)
  have "length pci_slots = 65536" using arg_cong [OF keys_of_slots [of "[]"], of length] by simp
  then have l: "length (pci_inventory bench_regs) \<le> unat (65536 :: u32)"
    using length_filter_le [of "\<lambda>t. present bench_regs (pci_function (slot_addr t))" pci_slots] by (simp add: pci_inventory_def)
  have a: "PCI_SEG 0x80010810 = 0" "pci_function 0x80010810 = 0x108" by (simp_all add: pci_fields pci_consts pci_function_def)
  have r: "regs bench_regs 0x108 0x10 4 = [0x10, 0x11, 0x12, 0x13]"
    by (simp add: regs_def bench_regs_def u)
  have c: "(ucast (0x80010810 :: u32) :: u8) = 0x10" by (rule word_uint_eqI) simp
  have "present bench_regs 0x108" by (simp add: present_def regs_def bench_regs_def get_defs bytes_at_def u)
  then show ?thesis
    using pci_mechanisms_agree [OF bench_config_ports bench_config_files, where s = pci_bench_start and s' = pci_bench_start
        and m = bench_regs and limit = 65536 and addr = "0x80010810" and n = 4 and buf = "[0, 0, 0, 0]" and buf' = "[0, 0, 0, 0]"] l a(1) r
    unfolding a(2) c by (simp add: pci_bench_start_def)
qed

end
