(* ===== verification/Cfdk_Browse.thy ===== *)
theory Cfdk_Browse
  imports Cfdk_Run Pci_Device
begin

unbundle bit_operations_syntax

text \<open>
  The PCI view of the console, end to end: the listing it reads at the start is the inventory of the
  target's configuration space, and the view shows the registers of the device it pages to, whichever of
  the two ways the server has to reach them.
\<close>

section \<open>Requests\<close>

text \<open>The function of a device of the list, and the request for its registers.\<close>

definition device_function :: "fdkPciDev_t \<Rightarrow> u32" where
  "device_function d = push_bit 8 (ucast (pd_bus d)) OR push_bit 3 (ucast (pd_dev d)) OR ucast (pd_fun d)"

definition pci_screen_request :: "fdkPciDev_t \<Rightarrow> u8 list" where
  "pci_screen_request d =
     request_bytes FDK_REQ_PCI_READ (ucast (0x80000000 OR push_bit 8 (device_function d))) FDK_BYTE_PER_SCREEN None"

lemma slot_device:
  assumes "t \<in> set pci_slots" and "d = slot_record t ids"
  shows "calculatePciAddress (pd_bus d) (pd_dev d) (pd_fun d) = slot_addr t" "pci_function (slot_addr t) = device_function d"
    "0x80000000 OR push_bit 8 (device_function d) = slot_addr t"
proof -
  obtain bus dev fun' where t: "t = (bus, dev, fun')" by (metis prod_cases3)
  have b: "take_bit 8 bus = bus" "take_bit 5 dev = dev" "take_bit 3 fun' = fun'" using slot_below [OF assms(1) [unfolded t]] by simp_all
  have "take_bit 15 (take_bit 8 bus) = take_bit 8 bus" by (simp only: take_bit_take_bit) simp
  then have b15: "take_bit 15 bus = bus" by (simp only: b)
  have m: "x AND 0x7FFF = take_bit 15 x" "x AND 7 = take_bit 3 x" for x :: u32
    using take_bit_eq_mask [of 15 x] take_bit_eq_mask [of 3 x] by (simp_all add: mask_eq_exp_minus_1)
  have u: "ucast (ucast (take_bit 8 x) :: u16) = take_bit 8 x" "ucast (ucast (take_bit 5 x) :: u8) = take_bit 5 x"
    "ucast (ucast (take_bit 3 x) :: u8) = take_bit 3 x" for x :: u32
    by (rule bit_word_eqI; auto simp: bit_simps)+
  have f: "ucast (pd_bus d) = bus" "ucast (pd_dev d) = dev" "ucast (pd_fun d) = fun'"
    using u(1) [of bus] u(2) [of dev] u(3) [of fun'] by (simp_all add: assms(2) t slot_record_def pci_record_def b)
  show "calculatePciAddress (pd_bus d) (pd_dev d) (pd_fun d) = slot_addr t"
    by (simp add: calculatePciAddress_def f mask_and m b b15 t slot_addr_def pci_consts)
  show a: "0x80000000 OR push_bit 8 (device_function d) = slot_addr t"
    by (simp add: device_function_def f t slot_addr_def pci_consts push_bit_or or.assoc)
  have k: "x AND 0x7FFFFF = take_bit 23 x" for x :: u32 using take_bit_eq_mask [of 23 x] by (simp add: mask_eq_exp_minus_1)
  have "drop_bit 8 (0x80000000 OR push_bit 8 x) AND 0x7FFFFF = take_bit 23 x" for x :: u32
    by (rule bit_word_eqI) (auto simp: k enable_bit enable_low bit_simps)
  moreover have "take_bit 23 (push_bit 8 (take_bit 8 x) OR push_bit 3 (take_bit 5 y) OR take_bit 3 z) =
      push_bit 8 (take_bit 8 x) OR push_bit 3 (take_bit 5 y) OR take_bit 3 z" for x y z :: u32
    by (rule bit_word_eqI) (auto simp: bit_simps)
  then have "take_bit 23 (device_function d) = device_function d"
    unfolding device_function_def f by (metis b)
  ultimately show "pci_function (slot_addr t) = device_function d" by (simp add: pci_function_def a [symmetric])
qed

lemma inventory_slot:
  assumes "d \<in> set (pci_inventory m)"
  obtains t where "t \<in> set pci_slots" and "present m (pci_function (slot_addr t))"
    and "d = slot_record t (regs m (pci_function (slot_addr t)) 0 4)"
  using assms by (auto simp: pci_inventory_def)

lemma pci_screen_fields:
  "length (pci_screen_request d) = 14" "hdr_opCode (fresh_buffer (pci_screen_request d)) = op_code FDK_REQ_PCI_READ"
  "get32 8 (fresh_buffer (pci_screen_request d)) = 0x80000000 OR push_bit 8 (device_function d)"
  "get16 12 (fresh_buffer (pci_screen_request d)) = 256"
proof -
  let ?a = "0x80000000 OR push_bit 8 (device_function d)"
  have b: "build_request FDK_REQ_PCI_READ a n None pkt = Some (14, put16 12 (ucast n) (put32 8 (ucast a) pkt))" for a n pkt
    by (simp add: build_request_def layout)
  have u: "ucast (ucast x :: u64) = x" for x :: u32
    by (rule bit_word_eqI) (simp add: bit_ucast_iff)
  note r = request_region [OF b [of "ucast ?a" FDK_BYTE_PER_SCREEN], folded pci_screen_request_def, simplified]
  let ?p = "put16 12 256 (put32 8 ?a (replicate 8192 0))"
  have p: "put16 12 (ucast FDK_BYTE_PER_SCREEN) (put32 8 (ucast (ucast ?a :: u64)) (replicate 8192 0)) = ?p"
    by (simp add: u FDK_BYTE_PER_SCREEN_def)
  show "length (pci_screen_request d) = 14" "hdr_opCode (fresh_buffer (pci_screen_request d)) = op_code FDK_REQ_PCI_READ"
    using r(1,3) by simp_all
  show "get32 8 (fresh_buffer (pci_screen_request d)) = ?a"
    using r(4) [of 8 4] unfolding p by (simp add: get_defs put_defs buf_simps word_of_le_bytes del: le_bytes.simps)
  show "get16 12 (fresh_buffer (pci_screen_request d)) = 256"
    using r(4) [of 12 2] unfolding p by (simp add: get_defs put_defs buf_simps le_nat_le_bytes del: le_bytes.simps)
qed

context config_space
begin

text \<open>The answer of the server: the registers of the device.\<close>

lemma pci_screen:
  assumes w: "works K cfg" and d: "d \<in> set (pci_inventory (cfg (env s)))"
  shows "\<exists>out s'. answer_packet K memfd dev (pci_screen_request d) s = (FDKD_REPLY, out, s') \<and> length out = 270 \<and>
    hdr_opCode out = op_code FDK_RSP_PCI_READ \<and> hdr_errorCode out = FDK_SUCCESS \<and>
    bytes_at 14 256 out = regs (cfg (env s)) (device_function d) 0 256 \<and> cfg (env s') = cfg (env s)"
proof -
  obtain t where t: "t \<in> set pci_slots" "present (cfg (env s)) (pci_function (slot_addr t))"
    "d = slot_record t (regs (cfg (env s)) (pci_function (slot_addr t)) 0 4)"
    using inventory_slot [OF d] .
  note dev = slot_device [OF t(1,3)]
  let ?data = "regs (cfg (env s)) (device_function d) 0 256"
  have len: "length (replicate 256 (0 :: u8)) = unat (256 :: u32)" by simp
  obtain s' where s': "pciReadConfig K (slot_addr t) 256 (replicate 256 0) s = ((0, ?data), s')" "cfg (env s') = cfg (env s)"
    using read_slot [OF w t(1,2), of "replicate 256 0"] dev(2) by auto
  have rd: "pciReadConfig K (slot_addr t) 256 buf s = ((0, ?data), s')" if "length buf = unat (256 :: u32)" for buf
    using s'(1) pci_reader.rd_fresh [OF that len, of K "slot_addr t" s] by simp
  have u: "ucast (ucast x :: u64) = x" for x :: u32
    by (rule bit_word_eqI) (simp add: bit_ucast_iff)
  have rq: "request_of K memfd dev FDK_REQ_PCI_READ (length (pci_screen_request d)) (fresh_buffer (pci_screen_request d)) s =
      Some (answer_read (pciReadConfig K) (slot_addr t) 256 FDK_RSP_PCI_READ fdkRspPciReadPkt_t ''pciContent''
        (fresh_buffer (pci_screen_request d)) s)"
    by (simp add: request_of_def req_pci_read_def pci_screen_fields dev(3) u layout wire_sizes Let_def)
  obtain out where "answer_packet K memfd dev (pci_screen_request d) s = (FDKD_REPLY, out, s')"
    "length out = 270" "hdr_opCode out = op_code FDK_RSP_PCI_READ" "hdr_errorCode out = FDK_SUCCESS" "bytes_at 14 256 out = ?data"
    using pci_reader.served_read [OF _ pci_screen_fields(2) _ rq rd] by (auto simp: pci_screen_fields layout)
  then show ?thesis using s'(2) by blast
qed

end

section \<open>Paging\<close>

text \<open>The keys of the view that neither edit nor leave it, and the device shown after each.\<close>

definition browse_keys :: "key set" where
  "browse_keys = {KEY_UP, KEY_DOWN, KEY_LEFT, KEY_RIGHT, KEY_PPAGE, KEY_NPAGE, KBPRS_SPACE}"

definition pci_page :: "nat \<Rightarrow> key \<Rightarrow> nat \<Rightarrow> nat" where
  "pci_page n key k =
     (if key = KEY_NPAGE then (k + 1) mod n else if key = KEY_PPAGE then (k + (n - 1)) mod n else k)"

fun pci_pages :: "nat \<Rightarrow> key list \<Rightarrow> nat \<Rightarrow> nat list" where
  "pci_pages n [] k = []"
| "pci_pages n (key # keys) k = pci_page n key k # pci_pages n keys (pci_page n key k)"

lemma last_pci_pages: "last (k # pci_pages n keys k) = fold (pci_page n) keys k"
  by (induction keys arbitrary: k) simp_all

lemma browse_key_plain:
  "key \<in> insert (KEY_F 3) browse_keys \<Longrightarrow> key \<noteq> KBPRS_ENTER \<and> key \<noteq> KBPRS_ESC"
  "key \<in> browse_keys \<Longrightarrow> key \<noteq> KEY_F n"
  by (auto simp: browse_keys_def KBPRS_ENTER_def KBPRS_ESC_def KBPRS_SPACE_def)

lemma pageDump_pci:
  assumes "unat base < unat (num :: u32)"
  shows "unat (pageDump KHF_PCI (ucast num) True base) = pci_page (unat num) KEY_NPAGE (unat base)"
    "unat (pageDump KHF_PCI (ucast num) False base) = pci_page (unat num) KEY_PPAGE (unat base)"
proof -
  have n: "unat (ucast num :: u64) = unat num" "unat num < 2 ^ 32"
    using unsigned_less [of num] by (simp_all add: unat_ucast_up)
  have nz: "(ucast num :: u64) \<noteq> 0" using assms by (auto simp: unat_ucast_zero)
  then have one: "unat (ucast num - 1 :: u64) = unat num - 1" using assms n(1) by (simp add: unat_minus_one)
  have "unat (base + 1) = unat base + 1" "unat (base + (ucast num - 1)) = unat base + (unat num - 1)"
    using assms n one by (simp_all add: unat_word_ariths)
  then show "unat (pageDump KHF_PCI (ucast num) True base) = pci_page (unat num) KEY_NPAGE (unat base)"
    "unat (pageDump KHF_PCI (ucast num) False base) = pci_page (unat num) KEY_PPAGE (unat base)"
    using nz n(1) by (simp_all add: pageDump_def pci_page_def unat_mod)
qed

text \<open>The view of device \<open>k\<close> of the list.\<close>

definition browsing :: "fdkPciDev_t list \<Rightarrow> nat \<Rightarrow> fdkUiProperty_t \<Rightarrow> bool" where
  "browsing devs k ui \<longleftrightarrow> ui_ok ui \<and> fdkHwFunc ui = KHF_PCI \<and> \<not> toggleEditing (fdkDumpPanel ui) \<and>
     pFdkPciDev ui = Some devs \<and> devs \<noteq> [] \<and> unat (byteBase (fdkDumpPanel ui)) = k"

lemma browsing_index:
  assumes "browsing devs k ui"
  shows "unat (numOfPciDevice ui) = length devs" "k < length devs" "infoStr (fdkDumpPanel ui) \<noteq> None"
    "getPciDevice ui (byteBase (fdkDumpPanel ui)) = Some (devs ! k)"
proof -
  show n: "unat (numOfPciDevice ui) = length devs" using assms by (auto simp: browsing_def ui_ok_def lists_ok_def)
  then have "numOfPciDevice ui \<noteq> 0" using assms by (auto simp: browsing_def)
  then show k: "k < length devs"
    using assms n unat_ucast_up [of "numOfPciDevice ui"]
    by (auto simp: browsing_def ui_ok_def dump_ok_def base_ok_def word_less_nat_alt unat_ucast_zero split: if_splits)
  show "infoStr (fdkDumpPanel ui) \<noteq> None" using assms by (auto simp: browsing_def ui_ok_def dump_ok_def)
  show "getPciDevice ui (byteBase (fdkDumpPanel ui)) = Some (devs ! k)"
    using assms n k unat_ucast_up [of "numOfPciDevice ui"]
    by (auto simp: browsing_def getPciDevice_def word_le_nat_alt)
qed

lemma handle_browse:
  assumes b: "browsing devs k ui" and key: "inputBuf ui = key" "key \<in> insert (KEY_F 3) browse_keys"
  shows "\<exists>d. handleKeyPressForDumpPanel ui = ui\<lparr>fdkDumpPanel := d\<rparr> \<and>
    browsing devs (pci_page (length devs) key k) (ui\<lparr>fdkDumpPanel := d\<rparr>)"
proof -
  have e: "\<not> toggleEditing (fdkDumpPanel ui)" "fdkHwFunc ui = KHF_PCI" using b by (simp_all add: browsing_def)
  obtain d where d: "handleKeyPressForDumpPanel ui = ui\<lparr>fdkDumpPanel := d\<rparr>" "ui_ok (ui\<lparr>fdkDumpPanel := d\<rparr>)"
    using handle_key_plain [of ui] b e by (auto simp: browsing_def committing_def)
  note n = browsing_index(1,2) [OF b]
  have dd: "d = fdkDumpPanel (handleKeyPressForDumpPanel ui)" by (simp add: d(1))
  have "unat (byteBase (fdkDumpPanel ui)) < unat (numOfPciDevice ui)" using n b by (simp add: browsing_def)
  from pageDump_pci [OF this] have "\<not> toggleEditing d \<and> unat (byteBase d) = pci_page (length devs) key k"
    using b key n browse_key_plain(1) [of key]
    by (auto simp: dd handleKeyPressForDumpPanel_def browsing_def browse_keys_def pci_page_def KBPRS_SPACE_def Let_def)
  then show ?thesis using b d by (intro exI [of _ d]) (simp add: browsing_def)
qed

section \<open>A turn\<close>

text \<open>What the screen shows of a device with the registers \<open>rs\<close>.\<close>

definition shows_device :: "fdkUiProperty_t \<Rightarrow> fdkPciDev_t \<Rightarrow> u8 list \<Rightarrow> bool" where
  "shows_device ui d rs \<longleftrightarrow>
     window_text (ui_screen ui) Dump_value = Some (value_text rs) \<and>
     window_text (ui_screen ui) Dump_ascii = Some (formatPciSummary rs (FDK_DUMP_ABUF_SZ + 1)) \<and>
     window_text (ui_screen ui) Dump_baseaddr =
       Some (FDK_INFO_PCI_BASE_FMT (unat (pd_bus d)) (unat (pd_dev d)) (unat (pd_fun d))) \<and>
     window_text (ui_screen ui) Dump_error = None"

lemma print_cursor_text:
  "w \<notin> {Dump_highlight, Dump_bits, Dump_hlascii} \<Longrightarrow>
    window_text (ui_screen (print_cursor cur ui)) w = window_text (ui_screen ui) w"
  by (auto simp: print_cursor_def print_hlascii_def print_bits_def print_highlight_def Let_def window_text_print)

lemma base_turn_text:
  "w \<notin> {Base_help, Base_time, Base_status} \<Longrightarrow>
    window_text (ui_screen (updateStatusTimer clk (printBaseHelp ui))) w = window_text (ui_screen ui) w"
  by (auto simp: updateStatusTimer_def printBaseHelp_def Let_def window_text_print split: prod.split option.split)

lemma pci_panel:
  assumes b: "browsing devs k ui" and "hdr_errorCode (pktBuf ui) = FDK_SUCCESS"
  shows "\<exists>u. printDumpUpdatePanel ui = Some u \<and> panel_core u = panel_core ui \<and> shows_device u (devs ! k) (screen_data ui)"
proof -
  obtain info where i: "infoStr (fdkDumpPanel ui) = Some info" using browsing_index(3) [OF b] by blast
  let ?v = "print_values ui" let ?a = "draw_address (int (length info)) ?v" let ?e = "print_error ?a"
  let ?u = "print_cursor (screen_data ui ! nat (byteOffset (fdkDumpPanel ui))) ?e"
  have hw: "fdkHwFunc ui = KHF_PCI" using b by (simp add: browsing_def)
  have core: "panel_core ?v = panel_core ui" "panel_core ?a = panel_core ?v"
    using print_values_drawn draw_address_drawn by (simp_all add: drawn_def)
  note v = panel_core_fields [OF core(1)] and a = panel_core_fields [OF core(2)]
  have u: "printDumpUpdatePanel ui = Some ?u"
    using i by (simp add: printDumpUpdatePanel_def printBaseAddress_def v)
  have "getPciDevice ?v = getPciDevice ui" by (rule getPciDevice_cong) (simp_all add: v)
  then have g: "getPciDevice ?v (byteBase (fdkDumpPanel ?v)) = Some (devs ! k)"
    using browsing_index(4) [OF b] by (simp add: v)
  have "window_text (ui_screen ?v) Dump_value = Some (value_text (screen_data ui))"
    "window_text (ui_screen ?v) Dump_ascii = Some (formatPciSummary (screen_data ui) (FDK_DUMP_ABUF_SZ + 1))"
    by (simp_all add: print_values_def Let_def window_text_print hw)
  moreover have "window_text (ui_screen ?a) w = window_text (ui_screen ?v) w" if "w \<in> {Dump_value, Dump_ascii}" for w
    using that g by (auto simp: draw_address_def Let_def window_text_print v hw)
  moreover have "window_text (ui_screen ?a) Dump_baseaddr =
      Some (FDK_INFO_PCI_BASE_FMT (unat (pd_bus (devs ! k))) (unat (pd_dev (devs ! k))) (unat (pd_fun (devs ! k))))"
    using g by (simp add: draw_address_def Let_def window_text_print v hw)
  moreover have "window_text (ui_screen ?e) w = (if w = Dump_error then None else window_text (ui_screen ?a) w)" for w
    using assms(2) a v by (intro print_error_clean(3)) simp
  ultimately have "shows_device ?u (devs ! k) (screen_data ui)"
    by (simp add: shows_device_def print_cursor_text)
  moreover have "panel_core ?u = panel_core ui" using printDumpUpdatePanel_drawn [OF u] by (simp add: drawn_def)
  ultimately show ?thesis using u by blast
qed

lemma browsing_core:
  assumes "panel_core u = panel_core ui" and "browsing devs k ui" and "ui_ok u"
  shows "browsing devs k u"
  using assms(2,3) by (simp add: browsing_def panel_core_fields [OF assms(1)])

text \<open>The rest of a turn leaves what the view is about alone.\<close>

lemma base_turn_browse:
  assumes "browsing devs k ui" and "u = updateStatusTimer clk (printBaseHelp ui)"
  shows "browsing devs k u" "pktBuf u = pktBuf ui" "ui_ch u = ui_ch ui" "shows_device u d rs = shows_device ui d rs"
proof -
  obtain b sc where u: "u = ui\<lparr>fdkBasePanel := b, ui_screen := sc\<rparr>"
    and sc: "windows_ok (fdkHwFunc ui) (ui_screen ui) \<longrightarrow> windows_ok (fdkHwFunc ui) sc"
    using base_turn [of clk ui] assms(2) by auto
  have "ui_ok u" unfolding u using assms(1) sc by (intro base_drawn) (auto simp: browsing_def ui_ok_def)
  then show "browsing devs k u" "pktBuf u = pktBuf ui" "ui_ch u = ui_ch ui"
    using assms(1) by (simp_all add: browsing_def u)
  show "shows_device u d rs = shows_device ui d rs"
    by (simp add: shows_device_def assms(2) base_turn_text)
qed

context config_space
begin

lemma dump_turn_browse:
  assumes w: "works K cfg" and b: "browsing devs k ui" and key: "inputBuf ui = key" "key \<in> insert (KEY_F 3) browse_keys"
    and devs: "devs = pci_inventory (cfg (env s))" and k': "k' = pci_page (length devs) key k"
    and c: "in_session K memfd dev fin sent (pci_screen_request (devs ! k') # ps) (pktBuf ui) (ui_ch ui) s"
  shows "\<exists>u s'. dump_turn ui = Some u \<and> browsing devs k' u \<and>
    shows_device u (devs ! k') (regs (cfg (env s)) (device_function (devs ! k')) 0 256) \<and>
    in_session K memfd dev fin sent ps (pktBuf u) (ui_ch u) s' \<and> cfg (env s') = cfg (env s)"
proof -
  let ?d = "devs ! k'" and ?w = "handleKeyPressForDumpPanel ui"
  obtain d where h: "?w = ui\<lparr>fdkDumpPanel := d\<rparr>" and bw: "browsing devs k' ?w"
    using handle_browse [OF b key] k' by auto
  have d: "?d \<in> set (pci_inventory (cfg (env s)))" using browsing_index(2) [OF bw] by (simp add: devs)
  obtain t where t: "t \<in> set pci_slots" "?d = slot_record t (regs (cfg (env s)) (pci_function (slot_addr t)) 0 4)"
    using inventory_slot [OF d] by metis
  note dev = slot_device [OF t]
  obtain out s' where a: "answer_packet K memfd dev (pci_screen_request ?d) s = (FDKD_REPLY, out, s')" "cfg (env s') = cfg (env s)"
    and out: "length out = 270" "hdr_opCode out = op_code FDK_RSP_PCI_READ" "hdr_errorCode out = FDK_SUCCESS"
      "bytes_at 14 256 out = regs (cfg (env s)) (device_function ?d) 0 256"
    using pci_screen [OF w d] by blast
  obtain len pkt where bl: "build_request FDK_REQ_PCI_READ (ucast (0x80000000 OR push_bit 8 (device_function ?d))) FDK_BYTE_PER_SCREEN
      None (replicate FDK_MAXSZ_PKT 0) = Some (len, pkt)" "len \<noteq> 0"
    using build_screen_read [of FDK_REQ_PCI_READ] unfolding screen_read_op_def by blast
  have cw: "in_session K memfd dev fin sent (pci_screen_request ?d # ps) (pktBuf ?w) (ui_ch ?w) s" using c by (simp add: h)
  obtain buf ch where e: "execute ?w FDK_REQ_PCI_READ (ucast (0x80000000 OR push_bit 8 (device_function ?d))) FDK_BYTE_PER_SCREEN None =
      (0, ?w\<lparr>pktBuf := buf, ui_ch := ch\<rparr>)"
    and tk: "take (length out) buf = out" and c': "in_session K memfd dev fin sent ps buf ch s'"
    using execute_session [OF cw [unfolded pci_screen_request_def] bl _ a(1) [unfolded pci_screen_request_def] out(2)]
    by (auto simp: is_request_def)
  obtain u2 where u2: "u2 = ?w\<lparr>pktBuf := buf, ui_ch := ch\<rparr>" by blast
  have hw: "fdkHwFunc ui = KHF_PCI" "fdkHwFunc ?w = KHF_PCI" using b bw by (simp_all add: browsing_def)
  have r: "readCurrent ?w = (0, u2)"
    using browsing_index(4) [OF bw] e dev(1,3) by (simp add: readCurrent_def hw readPci_def u2)
  have "length buf = FDK_MAXSZ_PKT" using c' by (simp add: in_session_def connected_def)
  then have b2: "browsing devs k' u2" using bw by (auto simp: browsing_def u2 ui_ok_def lists_ok_def)
  have same: "bytes_at 14 256 buf = bytes_at 14 256 out" "hdr_errorCode buf = hdr_errorCode out"
    using bytes_at_prefix [OF tk] out(1) by (simp_all add: hdr_errorCode_def layout get_defs)
  have sd: "screen_data u2 = regs (cfg (env s)) (device_function ?d) 0 256" "hdr_errorCode (pktBuf u2) = FDK_SUCCESS"
    using same out(3,4) by (simp_all add: screen_data_def dumpData_def u2 hw layout FDK_BYTE_PER_SCREEN_def)
  obtain u where u: "printDumpUpdatePanel u2 = Some u" "panel_core u = panel_core u2" "shows_device u ?d (screen_data u2)"
    using pci_panel [OF b2 sd(2)] by blast
  have tn: "dump_turn ui = Some u" using r u(1) by (simp add: dump_turn_def hw)
  have "ui_ok u" using dump_turn_ok [of ui] b tn by (simp add: browsing_def)
  then have "browsing devs k' u" using browsing_core [OF u(2) b2] by blast
  moreover have "in_session K memfd dev fin sent ps (pktBuf u) (ui_ch u) s'"
    using c' by (simp add: panel_core_fields [OF u(2)] u2)
  ultimately show ?thesis using tn u(3) a(2) sd(1) by auto
qed

lemma turn_browse:
  assumes w: "works K cfg" and b: "browsing devs k (select_function key ui)" "inputBuf (select_function key ui) = key"
    and key: "key \<in> insert (KEY_F 3) browse_keys"
    and devs: "devs = pci_inventory (cfg (env s))" and k': "k' = pci_page (length devs) key k"
    and c: "in_session K memfd dev fin sent (pci_screen_request (devs ! k') # ps)
      (pktBuf (select_function key ui)) (ui_ch (select_function key ui)) s"
  shows "\<exists>u s'. ui_turn key clk ui = Next u \<and> browsing devs k' u \<and>
    shows_device u (devs ! k') (regs (cfg (env s)) (device_function (devs ! k')) 0 256) \<and>
    in_session K memfd dev fin sent ps (pktBuf u) (ui_ch u) s' \<and> cfg (env s') = cfg (env s)"
proof -
  obtain u1 s' where u1: "dump_turn (select_function key ui) = Some u1" "browsing devs k' u1"
    "shows_device u1 (devs ! k') (regs (cfg (env s)) (device_function (devs ! k')) 0 256)"
    "in_session K memfd dev fin sent ps (pktBuf u1) (ui_ch u1) s'" "cfg (env s') = cfg (env s)"
    using dump_turn_browse [OF w b key devs k' c] by blast
  have "list_turn (select_function key ui) = select_function key ui"
    using b(1) by (simp add: list_turn_def browsing_def)
  then have t: "ui_turn key clk ui = Next (updateStatusTimer clk (printBaseHelp u1))"
    using browse_key_plain(1) [OF key] u1(1) by (simp add: ui_turn_def)
  note s = base_turn_browse [OF u1(2) refl, of clk]
  show ?thesis using t u1(3-5) s by auto
qed

text \<open>The loop: a turn for each key, until Escape.\<close>

lemma loop_browse:
  assumes w: "works K cfg"
  shows "browsing devs k ui \<Longrightarrow> set (map fst input) \<subseteq> browse_keys \<Longrightarrow> devs = pci_inventory (cfg (env s)) \<Longrightarrow> m = cfg (env s) \<Longrightarrow>
    shows_device ui (devs ! k) (regs m (device_function (devs ! k)) 0 256) \<Longrightarrow>
    in_session K memfd dev fin sent (map (\<lambda>j. pci_screen_request (devs ! j)) (pci_pages (length devs) (map fst input) k) @ ps)
      (pktBuf ui) (ui_ch ui) s \<Longrightarrow> j = fold (pci_page (length devs)) (map fst input) k \<Longrightarrow>
    \<exists>u s'. ui_loop (input @ [(KBPRS_ESC, clk)]) ui = Some u \<and>
      shows_device u (devs ! j) (regs m (device_function (devs ! j)) 0 256) \<and>
      in_session K memfd dev fin sent ps (pktBuf u) (ui_ch u) s' \<and> cfg (env s') = m"
proof (induction input arbitrary: k ui s)
  case Nil
  have "shows_device (ui\<lparr>inputBuf := KBPRS_ESC\<rparr>) d rs = shows_device ui d rs" for d rs by (simp add: shows_device_def)
  moreover have "\<not> toggleEditing (fdkDumpPanel ui)" using Nil.prems(1) by (simp add: browsing_def)
  ultimately show ?case using Nil.prems by (auto simp: ui_turn_def)
next
  case (Cons kc input)
  obtain key clk' where kc: "kc = (key, clk')" by (cases kc)
  let ?k = "pci_page (length devs) key k" and ?s = "select_function key ui"
  have key: "key \<in> browse_keys" using Cons.prems(2) by (simp add: kc)
  have "next_function key (fdkHwFunc ui) = fdkHwFunc ui"
    using browse_key_plain(2) [OF key] Cons.prems(1) by (simp add: next_function_def browsing_def)
  moreover have "key_toggles key u = u" for u using browse_key_plain [of key] key by (simp add: key_toggles_def)
  ultimately have e: "?s = ui\<lparr>inputBuf := key, fdkPreviousHwFunc := fdkHwFunc ui\<rparr>" by (simp add: select_function_def Let_def)
  have b: "browsing devs k ?s" using Cons.prems(1) by (auto simp: e browsing_def ui_ok_def lists_ok_def)
  have c: "in_session K memfd dev fin sent (pci_screen_request (devs ! ?k) #
      map (\<lambda>j. pci_screen_request (devs ! j)) (pci_pages (length devs) (map fst input) ?k) @ ps) (pktBuf ?s) (ui_ch ?s) s"
    using Cons.prems(6) by (simp add: e kc)
  obtain u s1 where u: "ui_turn key clk' ui = Next u" "browsing devs ?k u"
    "shows_device u (devs ! ?k) (regs (cfg (env s)) (device_function (devs ! ?k)) 0 256)"
    "in_session K memfd dev fin sent (map (\<lambda>j. pci_screen_request (devs ! j)) (pci_pages (length devs) (map fst input) ?k) @ ps)
      (pktBuf u) (ui_ch u) s1" "cfg (env s1) = cfg (env s)"
    using turn_browse [OF w b _ _ Cons.prems(3) refl c, of clk'] key by (auto simp: e)
  then show ?case using Cons.IH [OF u(2) _ _ _ _ u(4)] Cons.prems(2-4,7) by (simp add: kc)
qed

text \<open>The run from F3 on, on a console that has just read the list.\<close>

lemma runUi_browse:
  assumes w: "works K cfg" and st: "ui_started u0" and devs: "pFdkPciDev u0 = Some devs" "devs = pci_inventory (cfg (env s))" "devs \<noteq> []"
    and keys: "set (map fst input) \<subseteq> browse_keys" and j: "j = fold (pci_page (length devs)) (map fst input) 0"
    and c: "in_session K memfd dev fin sent (pci_screen_request (devs ! 0) #
        map (\<lambda>i. pci_screen_request (devs ! i)) (pci_pages (length devs) (map fst input) 0) @ ps) (pktBuf u0) (ui_ch u0) s"
  shows "\<exists>u s'. runUi ((KEY_F 3, clk) # input @ [(KBPRS_ESC, clk')]) u0 = Some u \<and>
    shows_device u (devs ! j) (regs (cfg (env s)) (device_function (devs ! j)) 0 256) \<and>
    in_session K memfd dev fin sent ps (pktBuf u) (ui_ch u) s' \<and> cfg (env s') = cfg (env s)"
proof -
  let ?p = "printBasePanel u0" let ?s = "select_function (KEY_F 3) ?p"
  obtain sc where p: "?p = u0\<lparr>ui_screen := sc\<rparr>" using printBasePanel_eq [of u0 KHF_INIT] by auto
  have hw: "fdkHwFunc u0 = KHF_INIT" using st by (simp add: ui_started_def)
  obtain x where e: "?s = switchFunction x" and x: "fdkHwFunc x = KHF_PCI" "fdkPreviousHwFunc x = KHF_INIT"
    "pFdkPciDev x = pFdkPciDev u0" "pktBuf x = pktBuf u0" "ui_ch x = ui_ch u0" "inputBuf x = KEY_F 3"
    by (simp add: select_function_def next_function_def key_toggles_def p hw Let_def)
  have "ui_ok ?s" using select_function_ok(1) [OF ui_started_ok [OF st], of "KEY_F 3"] by simp
  then have b: "browsing devs 0 ?s" "inputBuf ?s = KEY_F 3" "pktBuf ?s = pktBuf u0" "ui_ch ?s = ui_ch u0"
    using x devs by (simp_all add: browsing_def e)
  have z: "pci_page (length devs) (KEY_F 3) 0 = 0" by (simp add: pci_page_def)
  obtain u s1 where u: "ui_turn (KEY_F 3) clk ?p = Next u" "browsing devs 0 u"
    "shows_device u (devs ! 0) (regs (cfg (env s)) (device_function (devs ! 0)) 0 256)"
    "in_session K memfd dev fin sent (map (\<lambda>i. pci_screen_request (devs ! i)) (pci_pages (length devs) (map fst input) 0) @ ps)
      (pktBuf u) (ui_ch u) s1" "cfg (env s1) = cfg (env s)"
    using turn_browse [OF w b(1,2) _ devs(2) z [symmetric] c [folded b(3,4)], of clk] by auto
  show ?thesis
    using loop_browse [OF w u(2) keys _ u(5) [symmetric] u(3,4) j, of clk'] devs(2) u(1,5) by (auto simp: runUi_def)
qed

end

section \<open>A whole run\<close>

definition browse_requests :: "fdkPciDev_t list \<Rightarrow> key list \<Rightarrow> u8 list list" where
  "browse_requests devs keys =
     [connect_request, pci_list_request, e820_list_request] @
     (pci_screen_request (devs ! 0) # map (\<lambda>i. pci_screen_request (devs ! i)) (pci_pages (length devs) keys 0)) @
     [disconnect_request]"

context config_space
begin

lemma main_browse:
  assumes w: "works K cfg" and m: "cfg (env s) = m" and devs: "devs = pci_inventory m" "devs \<noteq> []" "length devs \<le> unat pci_capacity"
    and up: "console_up ce args fd ch" and inp: "ce_input ce = (KEY_F 3, clk) # input @ [(KBPRS_ESC, clk')]"
    and keys: "set (map fst input) \<subseteq> browse_keys" and reqs: "reqs = browse_requests devs (map fst input)"
    and c: "connected K memfd dev reqs (replicate FDK_MAXSZ_PKT 0) ch s"
    and j: "j = fold (pci_page (length devs)) (map fst input) 0"
  shows "\<exists>cx u. cfdk_main ce args = Exits cx \<and> cx_status cx = 0 \<and> cx_closed cx = [fd] \<and> cx_ui cx = Some u \<and>
    shows_device u (devs ! j) (regs m (device_function (devs ! j)) 0 256) \<and> ch_tx (ui_ch u) = ch_tx ch @ concat reqs \<and>
    cfg (env (snd (serve_spec K memfd dev reqs s))) = m"
proof (rule console_main [OF up c, where Q = "\<lambda>e. cfg e = m"])
  let ?view = "pci_screen_request (devs ! 0) # map (\<lambda>i. pci_screen_request (devs ! i)) (pci_pages (length devs) (map fst input) 0)"
  show "reqs = [connect_request, pci_list_request, e820_list_request] @ ?view @ [disconnect_request]"
    by (simp add: reqs browse_requests_def)
  show "shows_device u d rs = shows_device v d rs" if "ui_screen u = ui_screen v" for u v d rs
    using that by (simp add: shows_device_def)
  obtain s1 where l: "pciListDevices K pci_capacity s = (devs, s1)" "cfg (env s1) = m"
    using list_law [OF w, of s pci_capacity] devs m by auto
  show "\<exists>ui s4. runUi (ce_input ce) u = Some ui \<and> shows_device ui (devs ! j) (regs m (device_function (devs ! j)) 0 256) \<and>
      cfg (env s4) = m \<and> in_session K memfd dev fin sent [disconnect_request] (pktBuf ui) (ui_ch ui) s4"
    if h: "ui_started u" "pFdkPciDev u = Some (fst (pciListDevices K pci_capacity s))" "env s' = listed K s"
      "in_session K memfd dev fin sent (?view @ [disconnect_request]) (pktBuf u) (ui_ch u) s'" for u s' fin sent
  proof -
    have m': "cfg (env s') = m" using h(3) l by (simp add: listed_def)
    show ?thesis
      using runUi_browse [OF w h(1) _ _ devs(2) keys j, of s' memfd dev fin sent "[disconnect_request]" clk clk'] h(2,4) l(1) devs(1)
      by (auto simp: inp m')
  qed
qed

end

text \<open>
  C9: the PCI view, end to end. On a machine that shows its configuration space by the ports of
  mechanism 1 or by the files of sysfs, the console is started, connects, lists, opens the view with F3,
  pages and leaves. The list is the inventory of the functions that are there; after any pages, up and
  down and around the ends, the screen shows the address, the 256 registers and the decoded header of
  the device the pages lead to; the requests sent are those of the run; and no register has changed.
\<close>

theorem console_browses_pci:
  assumes "(\<exists>sel. config_ports K cfg sel) \<or> (\<exists>refs. config_files K cfg refs)" and "cfg (env s) = m"
    and "devs = pci_inventory m" and "devs \<noteq> []" and "length devs \<le> unat pci_capacity"
    and "console_up ce args fd ch" and "ce_input ce = (KEY_F 3, clk) # input @ [(KBPRS_ESC, clk')]"
    and "set (map fst input) \<subseteq> browse_keys" and "reqs = browse_requests devs (map fst input)"
    and "connected K memfd dev reqs (replicate FDK_MAXSZ_PKT 0) ch s"
    and "j = fold (pci_page (length devs)) (map fst input) 0"
  shows "\<exists>cx u. cfdk_main ce args = Exits cx \<and> cx_status cx = 0 \<and> cx_closed cx = [fd] \<and> cx_ui cx = Some u \<and>
    shows_device u (devs ! j) (regs m (device_function (devs ! j)) 0 256) \<and> ch_tx (ui_ch u) = ch_tx ch @ concat reqs \<and>
    cfg (env (snd (serve_spec K memfd dev reqs s))) = m"
  using assms(1)
proof (elim disjE exE)
  fix sel assume "config_ports K cfg sel"
  from legacy_space.main_browse [OF this assms(2-)] show ?thesis .
next
  fix refs assume "config_files K cfg refs"
  from sysfs_space.main_browse [OF this assms(2-)] show ?thesis .
qed

text \<open>On the bench with sysfs, one page down from the host bridge shows the device of bus 1.\<close>

lemma function_fields:
  "PCI_BUS a = drop_bit 8 (pci_function a) AND 0xFF" "PCI_DEV a = drop_bit 3 (pci_function a) AND 0x1F"
  "PCI_FUNC a = pci_function a AND 7"
proof -
  have k: "x AND 0x7FFFFF = take_bit 23 x" "x AND 7 = take_bit 3 x" for x :: u32
    using take_bit_eq_mask [of 23 x] take_bit_eq_mask [of 3 x] by (simp_all add: mask_eq_exp_minus_1)
  show "PCI_BUS a = drop_bit 8 (pci_function a) AND 0xFF" "PCI_DEV a = drop_bit 3 (pci_function a) AND 0x1F"
    "PCI_FUNC a = pci_function a AND 7"
    by (rule bit_word_eqI; auto simp: pci_function_def pci_fields pci_consts mask_and k bit_simps)+
qed

definition bench_devices :: "fdkPciDev_t list" where
  "bench_devices = [slot_record (0, 0, 0) (regs bench_regs 0 0 4), slot_record (1, 1, 0) (regs bench_regs 0x108 0 4)]"

lemma bench_slot:
  assumes "t \<in> set pci_slots"
  shows "present bench_regs (pci_function (slot_addr t)) \<longleftrightarrow> t = (0, 0, 0) \<or> t = (1, 1, 0)"
proof -
  obtain bus dev fun' where t: "t = (bus, dev, fun')" by (metis prod_cases3)
  note f = slot_fields [OF assms [unfolded t]] function_fields [of "slot_addr t"]
  have u: "[0..<4] = [0, 1, 2, 3]" by (simp add: upt_conv_Cons eval_nat_numeral)
  have p: "present bench_regs g \<longleftrightarrow> g = 0 \<or> g = 0x108" for g
    by (simp add: present_def regs_def bench_regs_def get_defs bytes_at_def u)
  have "pci_function (slot_addr (0, 0, 0)) = 0" "pci_function (slot_addr (1, 1, 0)) = 0x108"
    by (simp_all add: slot_addr_def pci_function_def pci_consts)
  moreover have "pci_function (slot_addr t) = 0 \<Longrightarrow> t = (0, 0, 0)" "pci_function (slot_addr t) = 0x108 \<Longrightarrow> t = (1, 1, 0)"
    using f by (simp_all add: t)
  ultimately show ?thesis using p by auto
qed

lemma bench_inventory: "pci_inventory bench_regs = bench_devices"
proof -
  let ?key = "\<lambda>t. unat (pci_key (slot_record t []))"
  let ?l = "filter (\<lambda>t. present bench_regs (pci_function (slot_addr t))) pci_slots"
  have "(word_of_nat b, word_of_nat d, word_of_nat f) \<in> set pci_slots" if "b < 256" "d < 32" "f < 8" for b d f :: nat
    using that by (force simp: pci_slots_def)
  from this [of 0 0 0] this [of 1 1 0] have s: "set ?l = {(0, 0, 0), (1, 1, 0)}" using bench_slot by auto
  have srt: "sorted_wrt (<) (map ?key ?l)"
    using keys_of_slots [of "[]"] subseq_map [OF subseq_filter_left, of ?key "\<lambda>t. present bench_regs (pci_function (slot_addr t))" pci_slots]
    by (auto intro: subseq_sorted_wrt)
  then have "distinct ?l" by (simp add: strict_sorted_iff distinct_map)
  then have "length ?l = 2" using distinct_card [of ?l] s by simp
  then obtain x y where l: "?l = [x, y]" by (auto simp: length_Suc_conv eval_nat_numeral)
  have k: "?key (0, 0, 0) = 0" "?key (1, 1, 0) = 264" using key_slot [of 0 0 0 "[]"] key_slot [of 1 1 0 "[]"] by simp_all
  have "x = (0, 0, 0)" "y = (1, 1, 0)" using s srt k unfolding l by (auto simp: doubleton_eq_iff)
  moreover have "pci_function (slot_addr (0, 0, 0)) = 0" "pci_function (slot_addr (1, 1, 0)) = 0x108"
    by (simp_all add: slot_addr_def pci_function_def pci_consts)
  ultimately show ?thesis by (simp add: pci_inventory_def l bench_devices_def)
qed

theorem console_browses_pci_witness:
  "\<exists>ce cx u. map fst (ce_input ce) = [KEY_F 3, KEY_NPAGE, KBPRS_ESC] \<and> cfdk_main ce [(CHR ''i'', ''target'')] = Exits cx \<and>
     cx_status cx = 0 \<and> cx_closed cx = [5] \<and> cx_ui cx = Some u \<and> pci_inventory bench_regs = bench_devices \<and>
     shows_device u (bench_devices ! 1) (regs bench_regs 0x108 0 256)"
proof -
  let ?reqs = "browse_requests bench_devices [KEY_NPAGE]"
  let ?ch = "\<lparr>ch_rx = [Chunk (fst (serve_spec (pci_bench_os True) 3 None ?reqs pci_bench_start))], ch_wr = [], ch_tx = []\<rparr>"
  let ?input = "[(KEY_NPAGE, (- 1, None))] :: (key \<times> clock) list"
  let ?ce = "\<lparr>ce_files = \<lambda>p. None, ce_open = \<lambda>d. None, ce_tty = (0, 0, 0), ce_connect = \<lambda>h p. Some (5, ?ch),
    ce_alloc = (True, True, True), ce_terminal = (80, 200), ce_input = (KEY_F 3, (- 1, None)) # ?input @ [(KBPRS_ESC, (- 1, None))]\<rparr>"
  have K: "(\<exists>sel. config_ports (pci_bench_os True) pb_cfg sel) \<or> (\<exists>refs. config_files (pci_bench_os True) pb_cfg refs)"
    using bench_config_files by blast
  have up: "console_up ?ce [(CHR ''i'', ''target'')] 5 ?ch"
    by (simp add: console_up_def cfdk_option_def FDK_MAX_LINE_def FDK_MAX_COLUMN_def)
  have c: "connected (pci_bench_os True) 3 None ?reqs (replicate FDK_MAXSZ_PKT 0) ?ch pci_bench_start" by (simp add: connected_def)
  have m: "pb_cfg (env pci_bench_start) = bench_regs" by (simp add: pci_bench_start_def)
  have n: "bench_devices \<noteq> []" "length bench_devices \<le> unat pci_capacity" "set (map fst ?input) \<subseteq> browse_keys"
    "?reqs = browse_requests bench_devices (map fst ?input)" "1 = fold (pci_page (length bench_devices)) (map fst ?input) 0"
    by (simp_all add: bench_devices_def pci_capacity_def browse_keys_def pci_page_def)
  have d: "device_function (bench_devices ! 1) = 0x108"
    by (simp add: bench_devices_def device_function_def slot_record_def pci_record_def)
  have i: "ce_input ?ce = (KEY_F 3, (- 1, None)) # ?input @ [(KBPRS_ESC, (- 1, None))]" by simp
  obtain cx u where "cfdk_main ?ce [(CHR ''i'', ''target'')] = Exits cx" "cx_status cx = 0" "cx_closed cx = [5]" "cx_ui cx = Some u"
    "shows_device u (bench_devices ! 1) (regs bench_regs 0x108 0 256)"
    using console_browses_pci [OF K m bench_inventory [symmetric] n(1,2) up i n(3,4) c n(5)] unfolding d by blast
  then show ?thesis
    using bench_inventory by (intro exI [of _ ?ce] exI [of _ cx] exI [of _ u]) simp
qed

end
