(* ===== verification/Spec2Isabelle.thy ===== *)
theory Spec2Isabelle
  imports Packet_Union Handler_Properties Cmos_Threads Phys_Memory Fdkd_Main Fdkd_Termination Request_Exec Lib_Comm Memvr_Properties Cfdk_Text Cfdk_Browse
begin

text \<open>
  A verification library for FDK, the Firmware Debug Kit.

  \<^bold>\<open>The program.\<close> A privileged server, \<open>fdkd\<close>, runs on the machine under test and gives access to its
  memory, I/O ports, CMOS, disk, PCI configuration space and firmware memory map. Two clients talk to it:
  \<open>memvr\<close>, a command, and \<open>cfdk\<close>, a full-screen console. A request is a packed little-endian packet with
  an eight byte header; the server turns the packet in its buffer into the response and sends it back.
  Each connection has a thread of its own, which serves requests in order until a disconnect request, an
  error or the end of the stream.

  \<^bold>\<open>The parameters.\<close> Code outside the repository is a parameter. \<open>Fdk_System\<close>: the kernel and the hardware
  under the server are a record \<open>os\<close> of functions on an environment of any type; the model reaches them
  through calls that thread the environment and append to a log, and what a routine does to the machine is
  said about the log. \<open>Packet_Transport\<close>: a descriptor is the list of the outcomes of the \<open>read\<close> and
  \<open>write\<close> calls on it; a stream of reads ends with a shutdown or with an error, and a write can find the
  connection closed. \<open>Netsock\<close>: the resolver and the socket calls are a record \<open>net\<close>. The files, options,
  keys, clock readings, signals and allocations of a run are inputs. \<open>Sim_Machine\<close> is a concrete machine on
  which the witnesses run, \<open>bench_os\<close> of \<open>Device_Memory\<close> and \<open>pci_bench_os\<close> of \<open>Pci_Device\<close> two more; no theorem
  is restricted to them.

  \<^bold>\<open>Theories and sources.\<close> A function has the name it has in C; helpers stand for parts of a function.
    \<^item> \<open>Fdk_Prelude\<close>: the integer types of \<open>include/mtypes.h\<close>, byte buffers, collections of lemmas.
      \<open>Fdk_Common\<close>: \<open>include/fdk.h\<close>. \<open>C_Text\<close>, \<open>C_Sort\<close>: what is used of the C library.
    \<^item> \<open>Packet_Format\<close>, \<open>Packet_Union\<close>: \<open>include/packet.h\<close>; \<open>Packet_Transport\<close>: the transfers and the
      framing of \<open>lib/packet.c\<close>; \<open>Request_Exec\<close>: its \<open>executeFunction\<close>. \<open>Lib_Comm\<close>, \<open>Netsock\<close>:
      \<open>lib/libcomm.c\<close> and \<open>lib/netsock.c\<close>.
    \<^item> \<open>Lib_Mem\<close>, \<open>Lib_Port\<close>, \<open>Lib_Disk\<close>, \<open>Lib_E820\<close>, \<open>Lib_Pci\<close>: the back-ends, \<open>src_fdkd/linux/\<close>. \<open>Hw_Access\<close>
      is their contract with the handler. \<open>Phys_Memory\<close>, \<open>Cmos_Device\<close> and \<open>Device_Memory\<close> say what the
      accesses compute in front of mapped memory, of a CMOS chip and of a disk, and what they leave of the
      other devices, \<open>Pci_Device\<close> what both ways to configuration space compute; \<open>Cmos_Threads\<close> lets the accesses of several connections interleave.
    \<^item> \<open>Fdkd_Handler\<close>: \<open>src_fdkd/handler.c\<close>, one definition for each request; \<open>Handler_Contract\<close>,
      \<open>Fdkd_Service\<close> and \<open>Handler_Properties\<close>: its contract, met by every request and by the dispatcher.
      \<open>Fdkd_Server\<close>, \<open>Fdkd_Termination\<close>, \<open>Fdkd_Main\<close>: \<open>src_fdkd/fdkd.c\<close>, the connection and accept loops,
      how often they turn, and \<open>main\<close>.
    \<^item> \<open>Client_Session\<close>: a client and the server at the two ends of a connection. \<open>Memvr\<close>, \<open>Memvr_Session\<close>,
      \<open>Memvr_Properties\<close>: \<open>src_memvr/\<close>.
    \<^item> \<open>Cfdk_Client\<close>, \<open>Cfdk_PciList\<close>, \<open>Cfdk_Pciids\<close>, \<open>Cfdk_Dump\<close>, \<open>Cfdk_Ui\<close>, \<open>Cfdk_Main\<close>: \<open>include/cfdk.h\<close> and
      the files of \<open>src_cfdk/\<close>. \<open>Cfdk_Invariant\<close>, \<open>Cfdk_Properties\<close>, \<open>Cfdk_Text\<close>, \<open>Cfdk_Names\<close>: its states,
      texts and names. \<open>Cfdk_Session\<close>, \<open>Byte_Space\<close>, \<open>Cfdk_Editor\<close>, \<open>Cfdk_Run\<close>: the console against the
      server. \<open>Byte_Space\<close> is the contract of a server that holds the bytes of memory, disk and CMOS,
      \<open>Cfdk_Editor\<close> proves the views for any such server, \<open>Cfdk_Run\<close> the whole program over them, and
      \<open>Cfdk_Browse\<close> the whole program over the PCI view.

  \<^bold>\<open>State.\<close> The server's state is its connection (\<open>fdkdConnection_t\<close>) and the machine with its log (\<open>sys\<close>);
  the accept loop's is the record \<open>server\<close>. The console's is \<open>fdkUiProperty_t\<close>, with the screen as a map
  from windows to their place, size, colour and text. A store outside a buffer makes the list longer, so
  that a preserved length says that no store was outside. A run that would meet undefined behaviour is
  \<open>None\<close>, \<open>Crash\<close> or \<open>Undefined\<close>. A write to a closed connection fails and raises \<open>SIGPIPE\<close>: \<open>fdkd\<close> ignores
  the signal and goes on with the error, while it ends the clients, \<open>Killed\<close> for a run of \<open>cfdk\<close> and \<open>None\<close>
  for one of \<open>memvr\<close>. The signal is read off what a request uses of the outcomes of its writes (\<open>sigpipe\<close>):
  \<open>execute\<close>, \<open>ui_turn\<close> and \<open>runUi\<close> go on as a program without the signal would, and \<open>cfdk_session\<close>,
  \<open>cfdk_cleanup\<close> and \<open>memvr_main\<close> say where a run stops.

  \<^bold>\<open>What is shown.\<close>
    \<^item> Server: any packet gets a complete response, made of the bytes of the request alone; exactly the
      well-formed requests are carried out; reads write no hardware but index ports; nothing is leaked. A
      connection refines a function on lists of packets, \<open>serve_spec\<close>, whatever the fragmentation. Accepted
      descriptors are handed over or closed. A command line that asks for help or is bad starts nothing.
    \<^item> Back-ends: reads give the bytes of the device or FFh, loads stay in their mapping, a successful disk
      write is durable, NMI is never masked, listings are sorted and within their bounds; the PCI ports are
      used for the registers asked for and no others; both ways to configuration space list the functions that are there and read the same registers.
    \<^item> Concurrency: CMOS accesses to different banks do not disturb each other, in one bank they can.
    \<^item> Clients: \<open>memvr\<close> changes memory as its command line says. The console's state stays in range, it
      writes on a commit only, and its texts fit. A whole run, from \<open>main\<close> over the packets, the handler
      and the back-ends, refines an editor that knows only a view, an address, a cursor and the bytes of
      the devices: for memory alone, and for memory, disk and CMOS with switches between them. In the PCI
      view a whole run shows the registers of the device the user pages to. Every run of \<open>cfdk\<close> exits and
      gives back what it took, or is killed by \<open>SIGPIPE\<close>, or meets undefined behaviour after F1 as its first
      key.
    \<^item> Interfaces are locales: \<open>byte_reader\<close>, \<open>filling_reader\<close>, \<open>byte_writer\<close> and \<open>raw_reader\<close> between the
      handler and the back-ends, \<open>request_handler\<close> between the loop and the requests, \<open>packet_reader\<close> for
      the framing, \<open>byte_spaces\<close>, \<open>config_space\<close> and \<open>memory_service\<close> between a client and its server, \<open>socket_action\<close>
      and \<open>qsort_contract\<close>. All are interpreted on the model, \<open>byte_spaces\<close> for memory and for the three
      devices, \<open>config_space\<close> for the ports and for sysfs.

  \<^bold>\<open>Bounds and fuel.\<close> Loops are recursive functions that end on their data: the bytes asked for, the
  outcomes left in a script, the entries of a directory, the keys typed. No fuel is needed for their
  results; \<open>Fdkd_Termination\<close> repeats three loops with a count of turns and shows how many are enough: a
  byte or an interruption for each call of a transfer, and eight bytes, the least packet, for each turn of
  a connection. The packet buffer has 8192 bytes. Words keep their width; status codes, descriptors and
  cursor positions, which stay far from the limits of \<open>int\<close>, are integers.

  \<^bold>\<open>Hypotheses.\<close> \<open>maps_memory\<close> and \<open>mappable\<close>: a mapping of \<open>/dev/mem\<close> can be made and shows physical memory.
  \<open>cmos_chip\<close>: ports 70h to 73h select and transfer the cells of two banks. \<open>disk_device\<close>: \<open>pread\<close> and
  \<open>pwrite\<close> inside the device transfer its bytes, and \<open>fsync\<close> succeeds. \<open>three_devices\<close>: all of these at once,
  and the calls for one device leave the contents of the others. \<open>config_ports\<close>: the address written to
  port CF8h selects the registers at ports CFCh to CFFh. \<open>config_files\<close>: the directory of sysfs names the
  functions of segment 0 that are there, and a config file holds their registers; both for reading only.
  \<open>connected\<close>: the client reads what the
  server answers, and writes to the connection do not fail. Each holds on a concrete machine.

  \<^bold>\<open>Not modelled.\<close> What curses draws from a window and how it reads keys; \<open>getopt\<close>, of which the results
  are inputs; the fork of \<open>daemon\<close>; memory exhaustion beyond the checked allocations; threads other than by
  their CMOS accesses: a connection's other effects are those of a run on its own; signals that others
  send to the clients. Edits in
  the I/O port and PCI views are modelled, but a register need not hold what is written to it, so that the
  editor does not speak of them. The legacy PCI mechanism
  has the same two-port protocol as CMOS and is modelled for one thread. Directory handles and descriptors
  of attribute files, which are opened and closed within one call, are not in the log. The scripts of
  \<open>tools/\<close> make screenshots, and \<open>data/pci.ids\<close> is a data base of a third party, of which the format is
  modelled. Of the headers, prototypes and include directives have nothing to model.
\<close>

end
